(* ===== verification/Prelude.thy ===== *)
theory Prelude
  imports Main "HOL-Library.Word" "HOL-Library.Sublist"
begin

text \<open>
  Shared vocabulary of the development: bytes and C strings, the big-endian integer layouts that
  \<^verbatim>\<open>bytewriter.c\<close> and \<^verbatim>\<open>canonical_hash.c\<close> both write, the limits of
  \<^verbatim>\<open>constants.h\<close>, and the interfaces several components implement: a byte sink that
  appends, a cell that keeps the first error it is given, and a decode loop that keeps an invariant.

  A byte is an \<^typ>\<open>8 word\<close>. A C string is an HOL \<^typ>\<open>string\<close> without
  the terminating NUL; a \<^verbatim>\<open>char *\<close> that may be NULL is a \<^typ>\<open>string option\<close>.
\<close>

unbundle bit_operations_syntax

section \<open>Collections\<close>

named_theorems be_simps \<open>length and shape of big-endian layouts\<close>
named_theorems frame_simps \<open>which part of the state an operation leaves alone\<close>

section \<open>Bytes and C strings\<close>

type_synonym byte = "8 word"
type_synonym u32 = "32 word"
type_synonym u64 = "64 word"
type_synonym cstring = "string option"

definition byte_of_char :: "char \<Rightarrow> byte" where
  "byte_of_char c = of_nat (of_char c)"

definition char_of_byte :: "byte \<Rightarrow> char" where
  "char_of_byte b = char_of (unat b)"

definition str_bytes :: "string \<Rightarrow> byte list" where
  "str_bytes s = map byte_of_char s"

text \<open>What \<^verbatim>\<open>strlen\<close> and friends see of a buffer: the bytes before the first NUL.\<close>

definition cstr :: "byte list \<Rightarrow> string" where
  "cstr bs = map char_of_byte (takeWhile (\<lambda>b. b \<noteq> 0) bs)"

lemma unat_byte_less [simp]: "unat (b :: byte) < 256"
  using unsigned_less [of b] by simp

lemma of_char_less_256: "(of_char c :: nat) < 256"
  using mod_less_divisor [of 256 "of_char c :: nat"] by simp

lemma unat_byte_of_char [simp]: "unat (byte_of_char c) = of_char c"
  using of_char_less_256 [of c] by (simp add: byte_of_char_def unat_of_nat)

lemma char_of_byte_of_char [simp]: "char_of_byte (byte_of_char c) = c"
  by (simp add: char_of_byte_def)

lemma byte_of_char_of_byte [simp]: "byte_of_char (char_of_byte b) = b"
  by (simp add: byte_of_char_def char_of_byte_def)

lemma byte_of_char_inject [simp]: "byte_of_char c = byte_of_char d \<longleftrightarrow> c = d"
  by (metis char_of_byte_of_char)

lemma str_bytes_inject [simp]: "str_bytes s = str_bytes t \<longleftrightarrow> s = t"
  by (metis (no_types, lifting) char_of_byte_of_char list.inj_map_strong str_bytes_def)

lemma length_str_bytes [simp]: "length (str_bytes s) = length s"
  by (simp add: str_bytes_def)

lemma str_bytes_append [simp]: "str_bytes (s @ t) = str_bytes s @ str_bytes t"
  by (simp add: str_bytes_def)

lemma length_cstr_le: "length (cstr bs) \<le> length bs"
  by (simp add: cstr_def length_takeWhile_le)

lemma cstr_str_bytes:
  assumes "CHR 0x00 \<notin> set s"
  shows "cstr (str_bytes s) = s"
proof -
  have "byte_of_char c \<noteq> 0" if "c \<in> set s" for c
  proof
    assume "byte_of_char c = 0"
    then have "c = char_of_byte 0"
      by (metis char_of_byte_of_char)
    with that assms show False
      by (simp add: char_of_byte_def char_of_def)
  qed
  then show ?thesis
    unfolding cstr_def str_bytes_def by (subst takeWhile_eq_all_conv [THEN iffD2]) (auto simp: comp_def)
qed

section \<open>Big-endian layouts\<close>

text \<open>\<^verbatim>\<open>(uint8_t) (v >> k)\<close> keeps the low eight bits of the shifted word.\<close>

definition u32_be :: "u32 \<Rightarrow> byte list" where
  "u32_be v = [ucast (drop_bit 24 v), ucast (drop_bit 16 v), ucast (drop_bit 8 v), ucast v]"

definition u64_be :: "u64 \<Rightarrow> byte list" where
  "u64_be v = [ucast (drop_bit 56 v), ucast (drop_bit 48 v), ucast (drop_bit 40 v),
     ucast (drop_bit 32 v), ucast (drop_bit 24 v), ucast (drop_bit 16 v), ucast (drop_bit 8 v), ucast v]"

text \<open>Reading a big-endian word back, the specification side of the two layouts.\<close>

definition be_word :: "byte list \<Rightarrow> 'a::len word" where
  "be_word bs = foldl (\<lambda>acc b. push_bit 8 acc OR ucast b) 0 bs"

lemma length_u32_be [be_simps, simp]: "length (u32_be v) = 4"
  by (simp add: u32_be_def)

lemma length_u64_be [be_simps, simp]: "length (u64_be v) = 8"
  by (simp add: u64_be_def)

lemma word_drop_bit_eq_0: "LENGTH('a) \<le> n \<Longrightarrow> drop_bit n (v :: 'a::len word) = 0"
  by (rule bit_word_eqI) (auto simp: bit_simps dest: bit_imp_le_length)

lemma be_word_step:
  "push_bit 8 (drop_bit (k + 8) v) OR ucast (ucast (drop_bit k v) :: byte) = drop_bit k (v :: 'a::len word)"
proof (rule bit_word_eqI)
  fix n
  assume "n < LENGTH('a)"
  then show "bit (push_bit 8 (drop_bit (k + 8) v) OR ucast (ucast (drop_bit k v) :: byte)) n = bit (drop_bit k v) n"
    by (cases "n < 8") (auto simp: bit_simps add.assoc dest: bit_imp_le_length)
qed

lemma be_word_u32_be [be_simps]: "be_word (u32_be v) = (v :: u32)"
  using be_word_step [of 24 v] be_word_step [of 16 v] be_word_step [of 8 v] be_word_step [of 0 v]
    word_drop_bit_eq_0 [where v = v and n = 32]
  by (simp add: be_word_def u32_be_def)

lemma be_word_u64_be [be_simps]: "be_word (u64_be v) = (v :: u64)"
  using be_word_step [of 56 v] be_word_step [of 48 v] be_word_step [of 40 v] be_word_step [of 32 v]
    be_word_step [of 24 v] be_word_step [of 16 v] be_word_step [of 8 v] be_word_step [of 0 v]
    word_drop_bit_eq_0 [where v = v and n = 64]
  by (simp add: be_word_def u64_be_def)

lemma u32_be_inject [simp]: "u32_be v = u32_be w \<longleftrightarrow> v = w"
  by (metis be_word_u32_be)

lemma u64_be_inject [simp]: "u64_be v = u64_be w \<longleftrightarrow> v = w"
  by (metis be_word_u64_be)

text \<open>A four-byte prefix can be cut off again, so a sequence of length-prefixed items is uniquely
  readable.\<close>

lemma u32_be_append_inject [simp]:
  "u32_be v @ xs = u32_be w @ ys \<longleftrightarrow> v = w \<and> xs = ys"
  by (simp add: append_eq_append_conv)

section \<open>Lists\<close>

lemma distinct_concat_unique:
  assumes "distinct (concat xss)" "j < length xss" "k < length xss" "x \<in> set (xss ! j)" "x \<in> set (xss ! k)"
  shows "j = k"
  using assms
proof (induction xss arbitrary: j k)
  case (Cons xs xss)
  have "x \<in> set (concat xss)" if "n < length xss" "x \<in> set (xss ! n)" for n
    using that by (auto dest: nth_mem)
  with Cons show ?case
    by (cases j; cases k) (auto simp: disjoint_iff)
qed simp

lemma subset_Diff_Un_iff: "X \<subseteq> B - (C \<union> K) \<longleftrightarrow> X \<subseteq> B - C \<and> X \<inter> K = {}"
  by blast

section \<open>Limits and constants (constants.h)\<close>

abbreviation "MAX_NODE_CHILDREN \<equiv> 32 :: nat"
abbreviation "MAX_TX_NODES \<equiv> 256 :: int"
abbreviation "MAX_USED_CONTRACTS \<equiv> 32 :: nat"
abbreviation "USED_CONTRACT_LEN \<equiv> 8 :: nat"
abbreviation "MAX_HOLDINGS \<equiv> 4 :: nat"
abbreviation "SHA256_HASH_LEN \<equiv> 32 :: nat"
abbreviation "CANTON_HASH_LEN \<equiv> 34 :: nat"
abbreviation "ED25519_SIG_LEN \<equiv> 64 :: nat"
abbreviation "ED25519_RAW_PUBLIC_KEY_LEN \<equiv> 32 :: nat"
abbreviation "PARTY_ID_LEN \<equiv> 74 :: nat"

type_synonym sha256 = "byte list \<Rightarrow> byte list"

section \<open>Interfaces\<close>

text \<open>A byte sink: \<^term>\<open>put\<close> appends when the sink still accepts, and a sink that
  stopped accepting never starts again. \<^verbatim>\<open>ByteWriter\<close> (bounded) and
  \<^verbatim>\<open>HashWriter\<close> (unbounded) both promise it.\<close>

locale byte_sink =
  fixes put :: "byte list \<Rightarrow> 's \<Rightarrow> 's"
    and contents :: "'s \<Rightarrow> byte list"
    and accepting :: "'s \<Rightarrow> bool"
  assumes put_contents: "accepting (put bs s) \<Longrightarrow> contents (put bs s) = contents s @ bs"
    and put_accepting: "accepting (put bs s) \<Longrightarrow> accepting s"
begin

lemma puts_accepting: "accepting (fold put bss s) \<Longrightarrow> accepting s"
  by (induction bss arbitrary: s) (auto dest: put_accepting)

lemma puts_contents:
  "accepting (fold put bss s) \<Longrightarrow> contents (fold put bss s) = contents s @ concat bss"
proof (induction bss arbitrary: s)
  case (Cons b bss)
  then have "accepting (put b s)"
    by (auto dest: puts_accepting)
  with Cons show ?case
    by (simp add: put_contents)
qed simp

end

text \<open>A cell that keeps the first error: \<^verbatim>\<open>set_hash_error\<close>,
  \<^verbatim>\<open>set_tree_error\<close> and the values check's \<^verbatim>\<open>give_up\<close>.\<close>

locale first_error =
  fixes no_error :: 'e
    and get :: "'s \<Rightarrow> 'e"
    and raise_err :: "'e \<Rightarrow> 's \<Rightarrow> 's"
  assumes get_raise: "get (raise_err e s) = (if get s = no_error then e else get s)"
begin

lemma raise_sticky: "get s \<noteq> no_error \<Longrightarrow> get (raise_err e s) = get s"
  by (simp add: get_raise)

lemma raise_sets: "e \<noteq> no_error \<Longrightarrow> get (raise_err e s) \<noteq> no_error"
  by (simp add: get_raise)

lemma raises_sticky: "get s \<noteq> no_error \<Longrightarrow> get (fold raise_err es s) = get s"
  by (induction es arbitrary: s) (auto simp: get_raise)

lemma raises_first:
  assumes "no_error \<notin> set (e # es)" "get s = no_error"
  shows "get (fold raise_err (e # es) s) = e"
  using assms raises_sticky [of "raise_err e s" es] by (auto simp: get_raise)

end

text \<open>A prefix code: what is written for a valid item can be cut off the front of any byte string in
  only one way. Every length-prefixed encoder of the canonical serialisation is one, and repetition
  and optional presence keep the property.\<close>

definition enc_list :: "('a \<Rightarrow> byte list) \<Rightarrow> 'a list \<Rightarrow> byte list" where
  "enc_list enc xs = u32_be (of_nat (length xs)) @ concat (map enc xs)"

definition enc_opt :: "('a \<Rightarrow> byte list) \<Rightarrow> 'a option \<Rightarrow> byte list" where
  "enc_opt enc x = (case x of None \<Rightarrow> [0] | Some y \<Rightarrow> 1 # enc y)"

definition valid_list :: "('a \<Rightarrow> bool) \<Rightarrow> 'a list \<Rightarrow> bool" where
  "valid_list valid xs \<longleftrightarrow> length xs < 2 ^ 32 \<and> list_all valid xs"

definition valid_opt :: "('a \<Rightarrow> bool) \<Rightarrow> 'a option \<Rightarrow> bool" where
  "valid_opt valid x \<longleftrightarrow> (case x of None \<Rightarrow> True | Some y \<Rightarrow> valid y)"

lemma of_nat_u32_inject: "m < 2 ^ 32 \<Longrightarrow> n < 2 ^ 32 \<Longrightarrow> (of_nat m :: u32) = of_nat n \<longleftrightarrow> m = n"
  by (simp add: word_of_nat_eq_iff take_bit_nat_eq_self)

locale prefix_code =
  fixes valid :: "'a \<Rightarrow> bool" and enc :: "'a \<Rightarrow> byte list"
  assumes prefix_free: "valid x \<Longrightarrow> valid y \<Longrightarrow> enc x @ xs = enc y @ ys \<Longrightarrow> x = y \<and> xs = ys"
begin

lemma concat_prefix_free:
  "list_all valid as \<Longrightarrow> list_all valid bs \<Longrightarrow> length as = length bs \<Longrightarrow>
   concat (map enc as) @ xs = concat (map enc bs) @ ys \<Longrightarrow> as = bs \<and> xs = ys"
proof (induction as arbitrary: bs)
  case (Cons a as)
  then obtain b bs' where bs: "bs = b # bs'" by (cases bs) auto
  with Cons.prems have "a = b \<and> concat (map enc as) @ xs = concat (map enc bs') @ ys"
    by (intro prefix_free) auto
  with Cons.IH [of bs'] Cons.prems bs show ?case by simp
qed simp

lemma list_prefix_free:
  assumes "valid_list valid as" "valid_list valid bs" "enc_list enc as @ xs = enc_list enc bs @ ys"
  shows "as = bs \<and> xs = ys"
proof -
  have "(of_nat (length as) :: u32) = of_nat (length bs) \<and> concat (map enc as) @ xs = concat (map enc bs) @ ys"
    using assms(3) by (simp add: enc_list_def)
  with assms show ?thesis
    by (intro concat_prefix_free) (auto simp: valid_list_def of_nat_u32_inject)
qed

lemma opt_prefix_free:
  assumes "valid_opt valid a" "valid_opt valid b" "enc_opt enc a @ xs = enc_opt enc b @ ys"
  shows "a = b \<and> xs = ys"
  using assms by (cases a; cases b) (auto simp: enc_opt_def valid_opt_def dest: prefix_free)

end

text \<open>Bytes with a length prefix.\<close>

definition enc_bytes :: "byte list \<Rightarrow> byte list" where
  "enc_bytes bs = u32_be (of_nat (length bs)) @ bs"

lemma enc_bytes_prefix_free:
  assumes "length as < 2 ^ 32" "length bs < 2 ^ 32" "enc_bytes as @ xs = enc_bytes bs @ ys"
  shows "as = bs \<and> xs = ys"
  using assms by (auto simp: enc_bytes_def of_nat_u32_inject)

interpretation bytes_code: prefix_code "\<lambda>bs. length bs < 2 ^ 32" enc_bytes
  by unfold_locales (rule enc_bytes_prefix_free)

interpretation str_code: prefix_code "\<lambda>s. length s < 2 ^ 32" "\<lambda>s. enc_bytes (str_bytes s)"
proof
  fix x y :: string and xs ys :: "byte list"
  assume "length x < 2 ^ 32" "length y < 2 ^ 32" "enc_bytes (str_bytes x) @ xs = enc_bytes (str_bytes y) @ ys"
  then show "x = y \<and> xs = ys"
    using enc_bytes_prefix_free [of "str_bytes x" "str_bytes y" xs ys] by simp
qed

abbreviation enc_str :: "string \<Rightarrow> byte list" where
  "enc_str s \<equiv> enc_bytes (str_bytes s)"

abbreviation valid_str :: "string \<Rightarrow> bool" where
  "valid_str s \<equiv> length s < 2 ^ 32"

interpretation strs_code: prefix_code "valid_list (\<lambda>s. length s < 2 ^ 32)" "enc_list (\<lambda>s. enc_bytes (str_bytes s))"
  by unfold_locales (rule str_code.list_prefix_free)

end
