(* ===== verification/Utils.thy ===== *)
theory Utils
  imports Prelude
begin

text \<open>
  \<^verbatim>\<open>utils.c\<close> and \<^verbatim>\<open>party_id.c\<close>: the decimal reader used for node ids, the
  Canton multihash over a purpose-tagged message, and the party identifier printed from a public
  key. SHA-256 is the SDK's (\<^verbatim>\<open>cx_hash_update\<close>/\<^verbatim>\<open>cx_hash_final\<close>), a
  parameter of the definitions that hash.
\<close>

section \<open>Decimal strings\<close>

definition is_digit :: "char \<Rightarrow> bool" where
  "is_digit c \<longleftrightarrow> (of_char c :: nat) \<ge> 48 \<and> (of_char c :: nat) \<le> 57"

text \<open>C \<^verbatim>\<open>int\<close> is 32 bits on the device; the accumulator wraps there.\<close>

definition wrap_int32 :: "int \<Rightarrow> int" where
  "wrap_int32 x = signed_take_bit 31 x"

fun atoint_loop :: "int \<Rightarrow> string \<Rightarrow> int" where
  "atoint_loop res [] = res"
| "atoint_loop res (c # cs) =
     (if \<not> is_digit c then 0
      else atoint_loop (wrap_int32 (res * 10 + of_char c - 48)) cs)"

definition atoint :: "string \<Rightarrow> int" where
  "atoint str = atoint_loop 0 str"

text \<open>The value a decimal numeral denotes, without any width.\<close>

definition dec_val :: "string \<Rightarrow> int" where
  "dec_val s = foldl (\<lambda>acc c. acc * 10 + (of_char c - 48)) 0 s"

lemma wrap_int32_id: "- (2 ^ 31) \<le> x \<Longrightarrow> x < 2 ^ 31 \<Longrightarrow> wrap_int32 x = x"
  unfolding wrap_int32_def by (rule signed_take_bit_int_eq_self) auto

lemma is_digit_range: "is_digit c \<Longrightarrow> 0 \<le> (of_char c - 48 :: int) \<and> (of_char c - 48 :: int) \<le> 9"
proof -
  assume "is_digit c"
  moreover have "(of_char c :: int) = int (of_char c)"
    by (simp add: of_nat_of_char)
  ultimately show ?thesis
    by (simp add: is_digit_def)
qed

lemma dec_val_snoc: "dec_val (s @ [c]) = dec_val s * 10 + (of_char c - 48)"
  by (simp add: dec_val_def)

lemma dec_val_range: "list_all is_digit s \<Longrightarrow> 0 \<le> dec_val s \<and> dec_val s < 10 ^ length s"
proof (induction s rule: rev_induct)
  case (snoc c s)
  with is_digit_range [of c] show ?case
    by (auto simp: dec_val_snoc)
qed (simp add: dec_val_def)

lemma atoint_loop_snoc:
  "list_all is_digit s \<Longrightarrow> is_digit c \<Longrightarrow>
   atoint_loop r (s @ [c]) = wrap_int32 (atoint_loop r s * 10 + of_char c - 48)"
  by (induction s arbitrary: r) auto

lemma atoint_eq_dec_val:
  assumes "list_all is_digit s" "length s \<le> 9"
  shows "atoint s = dec_val s"
  using assms
proof (induction s rule: rev_induct)
  case (snoc c s)
  have "dec_val (s @ [c]) < 10 ^ length (s @ [c])" "0 \<le> dec_val (s @ [c])"
    using snoc.prems dec_val_range by blast+
  moreover have "(10::int) ^ length (s @ [c]) \<le> 10 ^ 9"
    using snoc.prems by (intro power_increasing) auto
  ultimately have "wrap_int32 (dec_val (s @ [c])) = dec_val (s @ [c])"
    by (intro wrap_int32_id) auto
  with snoc show ?case
    by (simp add: atoint_def atoint_loop_snoc dec_val_snoc algebra_simps)
qed (simp add: atoint_def dec_val_def)

lemma atoint_not_numeric: "\<not> list_all is_digit s \<Longrightarrow> atoint s = 0"
proof -
  have "\<not> list_all is_digit s \<Longrightarrow> atoint_loop r s = 0" for r
    by (induction s arbitrary: r) auto
  then show "\<not> list_all is_digit s \<Longrightarrow> atoint s = 0"
    by (simp add: atoint_def)
qed

section \<open>Canton multihash\<close>

definition SHA256_ALGO_PREFIX :: byte where "SHA256_ALGO_PREFIX = 0x12"
definition SHA256_ALGO_LENGTH :: byte where "SHA256_ALGO_LENGTH = 0x20"

definition canton_hash :: "sha256 \<Rightarrow> byte \<Rightarrow> byte list \<Rightarrow> byte list" where
  "canton_hash sha purpose data =
     (let purpose_be = [0, 0, 0, purpose];
          tmp = sha (purpose_be @ data)
      in [SHA256_ALGO_PREFIX, SHA256_ALGO_LENGTH] @ tmp)"

lemma length_canton_hash:
  "(\<And>m. length (sha m) = 32) \<Longrightarrow> length (canton_hash sha purpose data) = CANTON_HASH_LEN"
  by (simp add: canton_hash_def)

lemma canton_hash_inject:
  "canton_hash sha p data = canton_hash sha p' data' \<longleftrightarrow> sha ([0, 0, 0, p] @ data) = sha ([0, 0, 0, p'] @ data')"
  by (simp add: canton_hash_def)

section \<open>Party identifiers\<close>

text \<open>The SDK's \<^verbatim>\<open>%.*h\<close>: two lower-case hexadecimal digits per byte.\<close>

definition hex_digit :: "nat \<Rightarrow> char" where
  "hex_digit n = (''0123456789abcdef'' ! n)"

fun hex_lower :: "byte list \<Rightarrow> string" where
  "hex_lower [] = []"
| "hex_lower (b # bs) = hex_digit (unat b div 16) # hex_digit (unat b mod 16) # hex_lower bs"

definition party_id_from_pubkey :: "sha256 \<Rightarrow> byte list \<Rightarrow> nat \<Rightarrow> string option" where
  "party_id_from_pubkey sha public_key out_len =
     (if out_len < PARTY_ID_LEN then None
      else (let tmp = canton_hash sha 0x0C public_key
            in Some (take (out_len - 1) (''ldg::'' @ hex_lower tmp))))"

lemma length_hex_lower [simp]: "length (hex_lower bs) = 2 * length bs"
  by (induction bs rule: hex_lower.induct) auto

lemma hex_digit_inject:
  assumes "m < 16" "n < 16"
  shows "hex_digit m = hex_digit n \<longleftrightarrow> m = n"
proof -
  have "distinct ''0123456789abcdef''"
    by simp
  then show ?thesis
    unfolding hex_digit_def using assms by (subst nth_eq_iff_index_eq) auto
qed

lemma hex_lower_inject [simp]: "hex_lower xs = hex_lower ys \<longleftrightarrow> xs = ys"
proof (induction xs arbitrary: ys)
  case Nil
  then show ?case by (cases ys) auto
next
  case (Cons x xs)
  have digits: "unat b div 16 < 16" "unat b mod 16 < 16" for b :: byte
    by (auto simp: less_mult_imp_div_less)
  have unat_eq: "unat b div 16 = unat c div 16 \<and> unat b mod 16 = unat c mod 16 \<longleftrightarrow> b = c" for b c :: byte
    by (metis div_mult_mod_eq word_unat_eq_iff)
  show ?case
    using Cons unat_eq by (cases ys) (auto simp: hex_digit_inject digits)
qed

lemma party_id_from_pubkey_eq:
  assumes "\<And>m. length (sha m) = 32" "PARTY_ID_LEN \<le> out_len"
  shows "party_id_from_pubkey sha pk out_len = Some (''ldg::'' @ hex_lower (canton_hash sha 0x0C pk))"
  using assms by (simp add: party_id_from_pubkey_def Let_def length_canton_hash)

lemma hex_lower_chars: "set (hex_lower bs) \<subseteq> set ''0123456789abcdef''"
proof -
  define D where "D = set ''0123456789abcdef''"
  have "hex_digit n \<in> D" if "n < 16" for n
    unfolding hex_digit_def D_def by (rule nth_mem) (use that in simp)
  moreover have "unat b div 16 < 16" "unat b mod 16 < 16" for b :: byte
    by (auto simp: less_mult_imp_div_less)
  ultimately have "set (hex_lower bs) \<subseteq> D"
    by (induction bs) auto
  then show ?thesis
    unfolding D_def .
qed

text \<open>C31. The shape of a party identifier. A buffer of fewer than 74 bytes is refused; any other gets the 73
  characters \<open>ldg::1220\<close> followed by 64 lower-case hexadecimal digits, which with the terminating NUL
  fill the 74 bytes exactly, so nothing is cut off; and two keys share an identifier only if SHA-256 maps both
  to the same digest.\<close>

theorem party_id_shape:
  assumes "\<forall>m. length (sha m) = 32"
  shows "case party_id_from_pubkey sha pk out_len of
      None \<Rightarrow> out_len < PARTY_ID_LEN
    | Some p \<Rightarrow> PARTY_ID_LEN \<le> out_len \<and> length p = PARTY_ID_LEN - 1 \<and> take 9 p = ''ldg::1220'' \<and>
        set (drop 9 p) \<subseteq> set ''0123456789abcdef'' \<and>
        (\<forall>pk'. party_id_from_pubkey sha pk' out_len = Some p \<longleftrightarrow> sha ([0, 0, 0, 12] @ pk') = sha ([0, 0, 0, 12] @ pk))"
proof (cases "out_len < PARTY_ID_LEN")
  case True
  then show ?thesis
    by (simp add: party_id_from_pubkey_def)
next
  case False
  have "hex_lower (canton_hash sha 12 k) = ''1220'' @ hex_lower (sha ([0, 0, 0, 12] @ k))" for k
    by (simp add: canton_hash_def SHA256_ALGO_PREFIX_def SHA256_ALGO_LENGTH_def hex_digit_def)
  then have "party_id_from_pubkey sha k out_len = Some (''ldg::1220'' @ hex_lower (sha ([0, 0, 0, 12] @ k)))" for k
    using party_id_from_pubkey_eq [of sha out_len k] False assms by simp
  then show ?thesis
    using False assms hex_lower_chars [of "sha ([0, 0, 0, 12] @ pk)"] by (auto simp del: set_simps)
qed

theorem party_id_shape_witness:
  "\<exists>p. party_id_from_pubkey (\<lambda>m. replicate 32 0) [1, 2] 80 = Some p \<and> length p = 73"
proof -
  have "party_id_from_pubkey (\<lambda>m. replicate 32 0) [1, 2] 80 \<noteq> None"
    by (simp add: party_id_from_pubkey_def Let_def)
  then show ?thesis
    using party_id_shape [of "\<lambda>m. replicate 32 0" 80 "[1, 2]"] by (auto split: option.splits)
qed

end
