(* ===== verification/Messages.thy ===== *)
theory Messages
  imports Prelude
begin

text \<open>
  The decoded protobuf structures the hand-written code works on, one record per nanopb struct with
  the fields the code reads (field names as in the generated headers, shortened by a prefix per
  message). A \<^verbatim>\<open>POINTER STRING\<close> field is a \<^typ>\<open>string option\<close> (NULL when the
  host left it out), a \<^verbatim>\<open>POINTER REPEATED STRING\<close> field is a list (nanopb allocates every
  element it counts), a \<^verbatim>\<open>STATIC OPTIONAL\<close> message comes with its
  \<^verbatim>\<open>has_\<close> flag, a \<^verbatim>\<open>POINTER OPTIONAL\<close> message is an option. Fields the
  structures give a callback are not part of the struct's value and do not appear.
\<close>

record Identifier =
  id_package :: cstring
  id_module :: cstring
  id_entity :: cstring

definition Identifier_init_zero :: Identifier where
  "Identifier_init_zero = \<lparr>id_package = None, id_module = None, id_entity = None\<rparr>"

record Node_Create =
  cr_lf_version :: cstring
  cr_contract_id :: cstring
  cr_package_name :: cstring
  cr_has_template_id :: bool
  cr_template_id :: Identifier
  cr_signatories :: "string list"
  cr_stakeholders :: "string list"

definition Node_Create_init_zero :: Node_Create where
  "Node_Create_init_zero = \<lparr>cr_lf_version = None, cr_contract_id = None, cr_package_name = None,
     cr_has_template_id = False, cr_template_id = Identifier_init_zero,
     cr_signatories = [], cr_stakeholders = []\<rparr>"

record Node_Exercise =
  ex_lf_version :: cstring
  ex_contract_id :: cstring
  ex_package_name :: cstring
  ex_has_template_id :: bool
  ex_template_id :: Identifier
  ex_signatories :: "string list"
  ex_stakeholders :: "string list"
  ex_acting_parties :: "string list"
  ex_interface_id :: "Identifier option"
  ex_choice_id :: cstring
  ex_consuming :: bool
  ex_children :: "string list"
  ex_choice_observers :: "string list"

definition Node_Exercise_init_zero :: Node_Exercise where
  "Node_Exercise_init_zero = \<lparr>ex_lf_version = None, ex_contract_id = None, ex_package_name = None,
     ex_has_template_id = False, ex_template_id = Identifier_init_zero,
     ex_signatories = [], ex_stakeholders = [], ex_acting_parties = [], ex_interface_id = None,
     ex_choice_id = None, ex_consuming = False, ex_children = [], ex_choice_observers = []\<rparr>"

record Node_Fetch =
  fe_lf_version :: cstring
  fe_contract_id :: cstring
  fe_package_name :: cstring
  fe_has_template_id :: bool
  fe_template_id :: Identifier
  fe_signatories :: "string list"
  fe_stakeholders :: "string list"
  fe_acting_parties :: "string list"
  fe_interface_id :: "Identifier option"

definition Node_Fetch_init_zero :: Node_Fetch where
  "Node_Fetch_init_zero = \<lparr>fe_lf_version = None, fe_contract_id = None, fe_package_name = None,
     fe_has_template_id = False, fe_template_id = Identifier_init_zero,
     fe_signatories = [], fe_stakeholders = [], fe_acting_parties = [], fe_interface_id = None\<rparr>"

record Node_Rollback =
  ro_children :: "string list"

record NodeSeed =
  ns_node_id :: int
  ns_seed :: "byte list option"

record DamlTransaction =
  tx_version :: cstring
  tx_roots :: "string list"
  tx_nodes_count :: int
  tx_node_seeds :: "NodeSeed list"

definition DamlTransaction_init_zero :: DamlTransaction where
  "DamlTransaction_init_zero = \<lparr>tx_version = None, tx_roots = [], tx_nodes_count = 0, tx_node_seeds = []\<rparr>"

record SubmitterInfo =
  si_act_as :: "string list"
  si_command_id :: cstring

record Metadata =
  md_submitter_info :: SubmitterInfo
  md_synchronizer_id :: cstring
  md_mediator_group :: u32
  md_transaction_uuid :: cstring
  md_preparation_time :: u64
  md_input_contracts_count :: int
  md_min_ledger_effective_time :: "u64 option"
  md_max_ledger_effective_time :: "u64 option"

definition Metadata_init_zero :: Metadata where
  "Metadata_init_zero = \<lparr>md_submitter_info = \<lparr>si_act_as = [], si_command_id = None\<rparr>,
     md_synchronizer_id = None, md_mediator_group = 0, md_transaction_uuid = None,
     md_preparation_time = 0, md_input_contracts_count = 0,
     md_min_ledger_effective_time = None, md_max_ledger_effective_time = None\<rparr>"

section \<open>Presence checks on a decoded node (pb_hashing_parser.c)\<close>

definition require_present :: "'a option \<Rightarrow> bool" where
  "require_present p \<longleftrightarrow> p \<noteq> None"

definition require_strings :: "string list \<Rightarrow> bool" where
  "require_strings values \<longleftrightarrow> list_all (\<lambda>v. require_present (Some v)) values"

definition require_identifier :: "bool \<Rightarrow> Identifier \<Rightarrow> bool" where
  "require_identifier has_id ident \<longleftrightarrow>
     has_id \<and> require_present (id_package ident) \<and> require_present (id_module ident) \<and>
     require_present (id_entity ident)"

definition create_is_complete :: "Node_Create \<Rightarrow> bool" where
  "create_is_complete c \<longleftrightarrow>
     require_present (cr_lf_version c) \<and> require_present (cr_contract_id c) \<and>
     require_present (cr_package_name c) \<and> require_identifier (cr_has_template_id c) (cr_template_id c) \<and>
     require_strings (cr_signatories c) \<and> require_strings (cr_stakeholders c)"

definition exercise_is_complete :: "Node_Exercise \<Rightarrow> bool" where
  "exercise_is_complete e \<longleftrightarrow>
     require_present (ex_lf_version e) \<and> require_present (ex_contract_id e) \<and>
     require_present (ex_package_name e) \<and> require_present (ex_choice_id e) \<and>
     require_identifier (ex_has_template_id e) (ex_template_id e) \<and>
     require_strings (ex_signatories e) \<and> require_strings (ex_stakeholders e) \<and>
     require_strings (ex_acting_parties e) \<and> require_strings (ex_choice_observers e) \<and>
     require_strings (ex_children e)"

definition fetch_is_complete :: "Node_Fetch \<Rightarrow> bool" where
  "fetch_is_complete f \<longleftrightarrow>
     require_present (fe_lf_version f) \<and> require_present (fe_contract_id f) \<and>
     require_present (fe_package_name f) \<and> require_identifier (fe_has_template_id f) (fe_template_id f) \<and>
     require_strings (fe_signatories f) \<and> require_strings (fe_stakeholders f) \<and>
     require_strings (fe_acting_parties f)"

definition optional_interface_is_complete :: "Identifier option \<Rightarrow> bool" where
  "optional_interface_is_complete interface_id \<longleftrightarrow>
     (case interface_id of None \<Rightarrow> True | Some ident \<Rightarrow> require_identifier True ident)"

lemma require_present_Some [simp]: "require_present (Some x)"
  by (simp add: require_present_def)

lemma require_strings_True [simp]: "require_strings xs"
  by (simp add: require_strings_def list_all_iff)

lemma require_presentE [elim]: "require_present p \<Longrightarrow> (\<And>x. p = Some x \<Longrightarrow> R) \<Longrightarrow> R"
  by (cases p) (auto simp: require_present_def)

end
