(* ===== verification/Canonical_Hash.thy ===== *)
theory Canonical_Hash
  imports Utils Messages
begin

text \<open>
  \<^verbatim>\<open>canonical_hash.c\<close>: the HashWriter, the sticky hash error, the ring of recent node
  hashes and the encoders that write the canonical serialisation of a prepared transaction into the
  hash. A \<^verbatim>\<open>HashWriter\<close> is the list of bytes given to it since \<^verbatim>\<open>hw_init\<close>;
  \<^verbatim>\<open>hw_finalize\<close> applies the SDK's SHA-256 to that list. The record
  \<^verbatim>\<open>hash_ctx\<close> is the writer an encoder works on together with the module's statics
  (\<^verbatim>\<open>HASH_ERR_INFO.err_code\<close>, \<^verbatim>\<open>G_hashed_nodes_store\<close> and its index). The error
  text is only printed in debug builds and is left out.
\<close>

section \<open>State\<close>

datatype HashError =
    HASH_OK
  | HASH_ERROR_BUFFER_OVERFLOW
  | HASH_ERROR_INVALID_HASH_STRING
  | HASH_ERROR_UNSUPPORTED_VALUE
  | HASH_ERROR_UNKNOWN_NODE_VERSION
  | HASH_ERROR_UNKNOWN_NODE_TYPE
  | HASH_ERROR_FAILED_TO_STORE_NODE_HASH
  | HASH_ERROR_FAILED_TO_LOAD_NODE_HASH
  | HASH_ERROR_MAX_NODE_CHILDREN_EXCEEDED
  | HASH_ERROR_MISSING_FIELD

type_synonym HashWriter = "byte list"

record hash_ctx =
  hw :: HashWriter
  err_code :: HashError
  hashed_nodes_store :: "(int \<times> byte list) list"
  hashed_nodes_store_count :: nat

definition clear_hash_error :: "hash_ctx \<Rightarrow> hash_ctx" where
  "clear_hash_error h = h\<lparr>err_code := HASH_OK\<rparr>"

definition get_hash_error :: "hash_ctx \<Rightarrow> HashError" where
  "get_hash_error h = err_code h"

definition set_hash_error :: "HashError \<Rightarrow> hash_ctx \<Rightarrow> hash_ctx" where
  "set_hash_error err h = (if err_code h \<noteq> HASH_OK then h else h\<lparr>err_code := err\<rparr>)"

section \<open>Node hash store\<close>

definition init_node_hash_store :: "hash_ctx \<Rightarrow> hash_ctx" where
  "init_node_hash_store h = h\<lparr>hashed_nodes_store := replicate MAX_NODE_CHILDREN (-1, replicate SHA256_HASH_LEN 0)\<rparr>"

definition set_node_hash :: "int \<Rightarrow> byte list \<Rightarrow> hash_ctx \<Rightarrow> hash_ctx" where
  "set_node_hash node_id hash h =
     h\<lparr>hashed_nodes_store := (hashed_nodes_store h)[hashed_nodes_store_count h := (node_id, hash)],
       hashed_nodes_store_count := (hashed_nodes_store_count h + 1) mod MAX_NODE_CHILDREN\<rparr>"

definition get_node_hash :: "cstring \<Rightarrow> hash_ctx \<Rightarrow> byte list option" where
  "get_node_hash node_id h =
     (case node_id of
        None \<Rightarrow> None
      | Some s \<Rightarrow> map_option snd (find (\<lambda>e. fst e = atoint s) (take MAX_NODE_CHILDREN (hashed_nodes_store h))))"

section \<open>HashWriter\<close>

definition hw_init :: "hash_ctx \<Rightarrow> hash_ctx" where
  "hw_init h = h\<lparr>hw := []\<rparr>"

definition hw_put :: "byte list \<Rightarrow> hash_ctx \<Rightarrow> hash_ctx" where
  "hw_put p h = h\<lparr>hw := hw h @ p\<rparr>"

definition hw_finalize :: "sha256 \<Rightarrow> hash_ctx \<Rightarrow> byte list" where
  "hw_finalize sha h = sha (hw h)"

definition hw_put_byte :: "byte \<Rightarrow> hash_ctx \<Rightarrow> hash_ctx" where
  "hw_put_byte b = hw_put [b]"

definition hw_put_u32_be :: "u32 \<Rightarrow> hash_ctx \<Rightarrow> hash_ctx" where
  "hw_put_u32_be v = hw_put (u32_be v)"

definition hw_put_u64_be :: "u64 \<Rightarrow> hash_ctx \<Rightarrow> hash_ctx" where
  "hw_put_u64_be v = hw_put (u64_be v)"

section \<open>Encoders\<close>

definition encode_bool :: "bool \<Rightarrow> hash_ctx \<Rightarrow> hash_ctx" where
  "encode_bool v = hw_put_byte (if v then 1 else 0)"

definition encode_int32 :: "int \<Rightarrow> hash_ctx \<Rightarrow> hash_ctx" where
  "encode_int32 v = hw_put_u32_be (word_of_int v)"

definition encode_int64 :: "u64 \<Rightarrow> hash_ctx \<Rightarrow> hash_ctx" where
  "encode_int64 v = hw_put_u64_be v"

definition encode_bytes :: "byte list \<Rightarrow> hash_ctx \<Rightarrow> hash_ctx" where
  "encode_bytes data h = hw_put data (encode_int32 (int (length data)) h)"

definition encode_string :: "cstring \<Rightarrow> hash_ctx \<Rightarrow> hash_ctx" where
  "encode_string s h =
     (case s of None \<Rightarrow> set_hash_error HASH_ERROR_MISSING_FIELD h
      | Some str \<Rightarrow> encode_bytes (str_bytes str) h)"

definition encode_hash :: "byte list option \<Rightarrow> hash_ctx \<Rightarrow> hash_ctx" where
  "encode_hash hash h =
     (case hash of None \<Rightarrow> set_hash_error HASH_ERROR_MISSING_FIELD h
      | Some bs \<Rightarrow> hw_put (take SHA256_HASH_LEN bs) h)"

definition hex_val :: "char \<Rightarrow> byte" where
  "hex_val c =
     (if 48 \<le> (of_char c :: nat) \<and> (of_char c :: nat) \<le> 57 then byte_of_char c - 48
      else if 97 \<le> (of_char c :: nat) \<and> (of_char c :: nat) \<le> 102 then 10 + byte_of_char c - 97
      else 10 + byte_of_char c - 65)"

fun hex_bytes :: "string \<Rightarrow> byte list" where
  "hex_bytes (a # b # cs) = ((push_bit 4 (hex_val a)) OR hex_val b) # hex_bytes cs"
| "hex_bytes _ = []"

definition encode_hex_string :: "cstring \<Rightarrow> hash_ctx \<Rightarrow> hash_ctx" where
  "encode_hex_string hex h =
     (case hex of None \<Rightarrow> set_hash_error HASH_ERROR_MISSING_FIELD h
      | Some s \<Rightarrow>
          (if length s mod 2 \<noteq> 0 then set_hash_error HASH_ERROR_INVALID_HASH_STRING h
           else fold hw_put_byte (hex_bytes s) (encode_int32 (int (length s div 2)) h)))"

definition encode_optional :: "bool \<Rightarrow> (hash_ctx \<Rightarrow> hash_ctx) \<Rightarrow> hash_ctx \<Rightarrow> hash_ctx" where
  "encode_optional present f h =
     (let h' = hw_put_byte (if present then 1 else 0) h in if present then f h' else h')"

definition encode_repeated :: "('a \<Rightarrow> hash_ctx \<Rightarrow> hash_ctx) \<Rightarrow> 'a list \<Rightarrow> hash_ctx \<Rightarrow> hash_ctx" where
  "encode_repeated f xs h = fold f xs (encode_int32 (int (length xs)) h)"

definition wrap_encode_string :: "string \<Rightarrow> hash_ctx \<Rightarrow> hash_ctx" where
  "wrap_encode_string s = encode_string (Some s)"

text \<open>\<^verbatim>\<open>strchr(start, '.')\<close>: the part before the dot is written, and the loop goes on after it.\<close>

function split_dot_loop :: "string \<Rightarrow> hash_ctx \<Rightarrow> hash_ctx" where
  "split_dot_loop start h =
     (let part = takeWhile (\<lambda>c. c \<noteq> CHR ''.'') start;
          h' = hw_put (str_bytes part) (encode_int32 (int (length part)) h)
      in (if CHR ''.'' \<in> set start then split_dot_loop (drop (length part + 1) start) h' else h'))"
  by pat_completeness auto
termination
proof (relation "measure (\<lambda>(start, h). length start)", goal_cases)
  case (2 start h part h')
  then have "0 < length start"
    by (cases start) auto
  then show ?case
    by simp
qed simp

definition split_dot_and_encode :: "cstring \<Rightarrow> hash_ctx \<Rightarrow> hash_ctx" where
  "split_dot_and_encode dotstr h =
     (case dotstr of None \<Rightarrow> set_hash_error HASH_ERROR_MISSING_FIELD h
      | Some s \<Rightarrow>
          (let parts = 1 + length (filter (\<lambda>c. c = CHR ''.'') s)
           in split_dot_loop s (encode_int32 (int parts) h)))"

definition encode_identifier :: "Identifier \<Rightarrow> hash_ctx \<Rightarrow> hash_ctx" where
  "encode_identifier ident h =
     split_dot_and_encode (id_entity ident)
       (split_dot_and_encode (id_module ident) (encode_string (id_package ident) h))"

fun encode_node_id_loop :: "string list \<Rightarrow> hash_ctx \<Rightarrow> hash_ctx" where
  "encode_node_id_loop [] h = h"
| "encode_node_id_loop (x # xs) h =
     (case get_node_hash (Some x) h of
        None \<Rightarrow> set_hash_error HASH_ERROR_FAILED_TO_LOAD_NODE_HASH h
      | Some hash \<Rightarrow> encode_node_id_loop xs (hw_put hash h))"

definition encode_repeated_node_ids :: "string list \<Rightarrow> hash_ctx \<Rightarrow> hash_ctx" where
  "encode_repeated_node_ids ids h = encode_node_id_loop ids (encode_int32 (int (length ids)) h)"

definition NODE_ENCODING_VERSION :: byte where "NODE_ENCODING_VERSION = 1"
definition HASHING_SCHEME_VERSION :: byte where "HASHING_SCHEME_VERSION = 2"
definition PREPARED_TRANSACTION_HASH_PURPOSE :: "byte list" where
  "PREPARED_TRANSACTION_HASH_PURPOSE = [0x00, 0x00, 0x00, 0x30]"

definition encode_create_start :: "Node_Create \<Rightarrow> byte list option \<Rightarrow> hash_ctx \<Rightarrow> hash_ctx" where
  "encode_create_start c seed h0 =
     (let h1 = hw_put_byte NODE_ENCODING_VERSION h0;
          h2 = encode_string (cr_lf_version c) h1;
          h3 = hw_put_byte 0x00 h2;
          h4 = encode_optional (seed \<noteq> None) (encode_hash seed) h3;
          h5 = encode_hex_string (cr_contract_id c) h4;
          h6 = encode_string (cr_package_name c) h5
      in encode_identifier (cr_template_id c) h6)"

definition encode_create_end :: "Node_Create \<Rightarrow> hash_ctx \<Rightarrow> hash_ctx" where
  "encode_create_end c h =
     encode_repeated wrap_encode_string (cr_stakeholders c)
       (encode_repeated wrap_encode_string (cr_signatories c) h)"

definition encode_exercise_start :: "Node_Exercise \<Rightarrow> byte list option \<Rightarrow> hash_ctx \<Rightarrow> hash_ctx" where
  "encode_exercise_start e seed h0 =
     (let h1 = hw_put_byte NODE_ENCODING_VERSION h0;
          h2 = encode_string (ex_lf_version e) h1;
          h3 = hw_put_byte 0x01 h2;
          h4 = encode_hash seed h3;
          h5 = encode_hex_string (ex_contract_id e) h4;
          h6 = encode_string (ex_package_name e) h5;
          h7 = encode_identifier (ex_template_id e) h6;
          h8 = encode_repeated wrap_encode_string (ex_signatories e) h7;
          h9 = encode_repeated wrap_encode_string (ex_stakeholders e) h8;
          h10 = encode_repeated wrap_encode_string (ex_acting_parties e) h9;
          h11 = encode_optional (ex_interface_id e \<noteq> None) (encode_identifier (the (ex_interface_id e))) h10
      in encode_string (ex_choice_id e) h11)"

definition encode_exercise_middle :: "Node_Exercise \<Rightarrow> hash_ctx \<Rightarrow> hash_ctx" where
  "encode_exercise_middle e = encode_bool (ex_consuming e)"

definition encode_exercise_end :: "Node_Exercise \<Rightarrow> hash_ctx \<Rightarrow> hash_ctx" where
  "encode_exercise_end e h =
     (let h1 = encode_repeated wrap_encode_string (ex_choice_observers e) h
      in if length (ex_children e) > MAX_NODE_CHILDREN
         then set_hash_error HASH_ERROR_MAX_NODE_CHILDREN_EXCEEDED h1
         else encode_repeated_node_ids (ex_children e) h1)"

definition encode_fetch :: "Node_Fetch \<Rightarrow> hash_ctx \<Rightarrow> hash_ctx" where
  "encode_fetch f h0 =
     (let h1 = hw_put_byte NODE_ENCODING_VERSION h0;
          h2 = encode_string (fe_lf_version f) h1;
          h3 = hw_put_byte 0x02 h2;
          h4 = encode_hex_string (fe_contract_id f) h3;
          h5 = encode_string (fe_package_name f) h4;
          h6 = encode_identifier (fe_template_id f) h5;
          h7 = encode_repeated wrap_encode_string (fe_signatories f) h6;
          h8 = encode_repeated wrap_encode_string (fe_stakeholders f) h7;
          h9 = encode_optional (fe_interface_id f \<noteq> None) (encode_identifier (the (fe_interface_id f))) h8
      in encode_repeated wrap_encode_string (fe_acting_parties f) h9)"

definition encode_rollback :: "Node_Rollback \<Rightarrow> hash_ctx \<Rightarrow> hash_ctx" where
  "encode_rollback r h =
     (let h1 = hw_put_byte 0x03 (hw_put_byte NODE_ENCODING_VERSION h)
      in if length (ro_children r) > MAX_NODE_CHILDREN
         then set_hash_error HASH_ERROR_MAX_NODE_CHILDREN_EXCEEDED h1
         else encode_repeated_node_ids (ro_children r) h1)"

definition encode_metadata :: "Metadata \<Rightarrow> hash_ctx \<Rightarrow> hash_ctx" where
  "encode_metadata m h0 =
     (let h1 = hw_put_byte 0x01 h0;
          h2 = encode_repeated wrap_encode_string (si_act_as (md_submitter_info m)) h1;
          h3 = encode_string (si_command_id (md_submitter_info m)) h2;
          h4 = encode_string (md_transaction_uuid m) h3;
          h5 = encode_int32 (uint (md_mediator_group m)) h4;
          h6 = encode_string (md_synchronizer_id m) h5;
          h7 = encode_optional (md_min_ledger_effective_time m \<noteq> None)
                 (encode_int64 (the (md_min_ledger_effective_time m))) h6;
          h8 = encode_optional (md_max_ledger_effective_time m \<noteq> None)
                 (encode_int64 (the (md_max_ledger_effective_time m))) h7;
          h9 = encode_int64 (md_preparation_time m) h8
      in encode_int32 (md_input_contracts_count m) h9)"

definition hash_transaction :: "DamlTransaction \<Rightarrow> hash_ctx \<Rightarrow> hash_ctx" where
  "hash_transaction tx h0 =
     (let h1 = init_node_hash_store (clear_hash_error h0);
          h2 = hw_put PREPARED_TRANSACTION_HASH_PURPOSE (hw_init h1);
          h3 = encode_string (tx_version tx) h2
      in encode_int32 (int (length (tx_roots tx))) h3)"

definition finalize_hash_transaction :: "sha256 \<Rightarrow> hash_ctx \<Rightarrow> byte list" where
  "finalize_hash_transaction sha h = hw_finalize sha h"

definition hash_metadata :: "Metadata \<Rightarrow> hash_ctx \<Rightarrow> hash_ctx" where
  "hash_metadata md h = encode_metadata md (hw_put PREPARED_TRANSACTION_HASH_PURPOSE (hw_init h))"

definition finalize_hash_metadata :: "sha256 \<Rightarrow> hash_ctx \<Rightarrow> byte list" where
  "finalize_hash_metadata sha h = hw_finalize sha h"

definition finalize_hash :: "sha256 \<Rightarrow> byte list \<Rightarrow> byte list \<Rightarrow> byte list" where
  "finalize_hash sha tx_hash md_hash =
     sha (PREPARED_TRANSACTION_HASH_PURPOSE @ [HASHING_SCHEME_VERSION] @ tx_hash @ md_hash)"

interpretation he: first_error HASH_OK err_code set_hash_error
  by unfold_locales (simp add: set_hash_error_def)

interpretation hwr: byte_sink hw_put hw "\<lambda>h. True"
  by unfold_locales (simp_all add: hw_put_def)

section \<open>The ring of recent node hashes\<close>

text \<open>Read from the oldest slot to the newest, the ring is a window over the hashes stored so far.\<close>

definition store_wf :: "hash_ctx \<Rightarrow> bool" where
  "store_wf h \<longleftrightarrow> length (hashed_nodes_store h) = MAX_NODE_CHILDREN \<and> hashed_nodes_store_count h < MAX_NODE_CHILDREN"

definition store_window :: "hash_ctx \<Rightarrow> (int \<times> byte list) list" where
  "store_window h = rotate (hashed_nodes_store_count h) (hashed_nodes_store h)"

lemma set_node_hash_wf: "store_wf h \<Longrightarrow> store_wf (set_node_hash i x h)"
  by (simp add: store_wf_def set_node_hash_def)

lemma init_store_wf: "hashed_nodes_store_count h < MAX_NODE_CHILDREN \<Longrightarrow> store_wf (init_node_hash_store h)"
  by (simp add: store_wf_def init_node_hash_store_def)

lemma init_store_window:
  "store_window (init_node_hash_store h) = replicate MAX_NODE_CHILDREN (-1, replicate SHA256_HASH_LEN 0)"
  unfolding store_window_def init_node_hash_store_def
  by (rule nth_equalityI) (simp_all add: nth_rotate)

lemma set_node_hash_window:
  assumes "store_wf h"
  shows "store_window (set_node_hash i x h) = tl (store_window h) @ [(i, x)]"
proof -
  let ?c = "hashed_nodes_store_count h" and ?s = "hashed_nodes_store h"
  have len: "length ?s = 32" "?c < 32" using assms by (auto simp: store_wf_def)
  then have old: "rotate ?c ?s = ?s ! ?c # drop (?c + 1) ?s @ take ?c ?s"
    by (simp add: rotate_drop_take Cons_nth_drop_Suc)
  have "rotate ((?c + 1) mod 32) (?s[?c := (i, x)]) = rotate (?c + 1) (?s[?c := (i, x)])"
    using len rotate_conv_mod [of "?c + 1" "?s[?c := (i, x)]"] by simp
  also have "\<dots> = rotate1 (rotate ?c (?s[?c := (i, x)]))"
    by (simp only: add.commute [of ?c 1] plus_1_eq_Suc rotate_Suc)
  also have "rotate ?c (?s[?c := (i, x)]) = (i, x) # drop (?c + 1) ?s @ take ?c ?s"
    using len Cons_nth_drop_Suc [of ?c "?s[?c := (i, x)]"] by (simp add: rotate_drop_take)
  finally show ?thesis
    using old by (simp add: store_window_def set_node_hash_def)
qed

text \<open>A store seen through its window: an insertion pushes the oldest entry out.\<close>

locale recent_store =
  fixes window :: "'s \<Rightarrow> 'e list" and ins :: "'e \<Rightarrow> 's \<Rightarrow> 's" and wf :: "'s \<Rightarrow> bool"
  assumes ins_window: "wf s \<Longrightarrow> window (ins e s) = tl (window s) @ [e]"
    and ins_wf: "wf s \<Longrightarrow> wf (ins e s)"
    and window_nonempty: "wf s \<Longrightarrow> window s \<noteq> []"
begin

lemma inserts_wf: "wf s \<Longrightarrow> wf (fold ins es s)"
  by (induction es arbitrary: s) (auto simp: ins_wf)

lemma inserts_window: "wf s \<Longrightarrow> window (fold ins es s) = drop (length es) (window s @ es)"
proof (induction es arbitrary: s)
  case (Cons e es)
  obtain w ws where w: "window s = w # ws"
    using window_nonempty [OF Cons.prems] by (cases "window s") auto
  have "window (fold ins (e # es) s) = drop (length es) ((ws @ [e]) @ es)"
    using Cons.IH [OF ins_wf [OF Cons.prems]] by (simp only: fold_simps ins_window [OF Cons.prems] w list.sel)
  then show ?case
    by (simp only: w append.assoc append.simps list.size drop_Suc_Cons add_Suc_right add_0_right)
qed simp

end

interpretation ring: recent_store store_window "\<lambda>e. set_node_hash (fst e) (snd e)" store_wf
proof
  show "store_window s \<noteq> []" if "store_wf s" for s
    using that by (auto simp: store_wf_def store_window_def)
qed (simp_all add: set_node_hash_window set_node_hash_wf)

lemma get_node_hash_in_window:
  assumes "store_wf h" "get_node_hash (Some s) h = Some x"
  shows "(atoint s, x) \<in> set (store_window h)"
proof -
  obtain e where e: "find (\<lambda>e. fst e = atoint s) (hashed_nodes_store h) = Some e" "snd e = x"
    using assms by (auto simp: get_node_hash_def store_wf_def)
  then have "e \<in> set (hashed_nodes_store h)" "fst e = atoint s"
    by (auto simp: find_Some_iff)
  with e have "(atoint s, x) = e" by (cases e) auto
  with \<open>e \<in> set (hashed_nodes_store h)\<close> show ?thesis
    by (simp add: store_window_def)
qed

lemma get_node_hash_found:
  assumes "store_wf h" "(atoint s, x) \<in> set (store_window h)"
    and unique: "\<And>y. (atoint s, y) \<in> set (store_window h) \<Longrightarrow> y = x"
  shows "get_node_hash (Some s) h = Some x"
proof -
  have mem: "(atoint s, x) \<in> set (hashed_nodes_store h)"
    using assms(2) by (simp add: store_window_def)
  then obtain e where e: "find (\<lambda>e. fst e = atoint s) (hashed_nodes_store h) = Some e"
    by (cases "find (\<lambda>e. fst e = atoint s) (hashed_nodes_store h)") (auto simp: find_None_iff)
  then have "e \<in> set (store_window h)" "fst e = atoint s"
    by (auto simp: find_Some_iff store_window_def)
  then have "e = (atoint s, x)"
    using unique [of "snd e"] by (metis prod.collapse)
  with e assms(1) show ?thesis
    by (simp add: get_node_hash_def store_wf_def)
qed

section \<open>What the encoders write\<close>

text \<open>The byte strings the encoders append when every field is present.\<close>

definition dot_parts_count :: "string \<Rightarrow> nat" where
  "dot_parts_count s = 1 + length (filter (\<lambda>c. c = CHR ''.'') s)"

function dot_parts :: "string \<Rightarrow> string list" where
  "dot_parts s =
     (let part = takeWhile (\<lambda>c. c \<noteq> CHR ''.'') s
      in part # (if CHR ''.'' \<in> set s then dot_parts (drop (length part + 1) s) else []))"
  by pat_completeness auto
termination
proof (relation "measure length", goal_cases)
  case (2 s part)
  then show ?case
    by (cases s) auto
qed simp

declare split_dot_loop.simps [simp del] dot_parts.simps [simp del]

definition enc_hex :: "string \<Rightarrow> byte list" where
  "enc_hex s = enc_bytes (hex_bytes s)"

definition enc_dotted :: "string \<Rightarrow> byte list" where
  "enc_dotted s = enc_list enc_str (dot_parts s)"

definition enc_identifier :: "Identifier \<Rightarrow> byte list" where
  "enc_identifier i = enc_str (the (id_package i)) @ enc_dotted (the (id_module i)) @ enc_dotted (the (id_entity i))"

definition enc_create_start :: "Node_Create \<Rightarrow> byte list option \<Rightarrow> byte list" where
  "enc_create_start c seed = [NODE_ENCODING_VERSION] @ enc_str (the (cr_lf_version c)) @ [0x00] @
     enc_opt (take SHA256_HASH_LEN) seed @ enc_hex (the (cr_contract_id c)) @
     enc_str (the (cr_package_name c)) @ enc_identifier (cr_template_id c)"

definition enc_create_end :: "Node_Create \<Rightarrow> byte list" where
  "enc_create_end c = enc_list enc_str (cr_signatories c) @ enc_list enc_str (cr_stakeholders c)"

definition enc_exercise_start :: "Node_Exercise \<Rightarrow> byte list \<Rightarrow> byte list" where
  "enc_exercise_start e seed = [NODE_ENCODING_VERSION] @ enc_str (the (ex_lf_version e)) @ [0x01] @
     take SHA256_HASH_LEN seed @ enc_hex (the (ex_contract_id e)) @
     enc_str (the (ex_package_name e)) @ enc_identifier (ex_template_id e) @
     enc_list enc_str (ex_signatories e) @ enc_list enc_str (ex_stakeholders e) @
     enc_list enc_str (ex_acting_parties e) @ enc_opt enc_identifier (ex_interface_id e) @
     enc_str (the (ex_choice_id e))"

definition enc_fetch :: "Node_Fetch \<Rightarrow> byte list" where
  "enc_fetch f = [NODE_ENCODING_VERSION] @ enc_str (the (fe_lf_version f)) @ [0x02] @
     enc_hex (the (fe_contract_id f)) @ enc_str (the (fe_package_name f)) @
     enc_identifier (fe_template_id f) @ enc_list enc_str (fe_signatories f) @
     enc_list enc_str (fe_stakeholders f) @ enc_opt enc_identifier (fe_interface_id f) @
     enc_list enc_str (fe_acting_parties f)"

lemma hw_put_hw_put [simp]: "hw_put q (hw_put p h) = hw_put (p @ q) h"
  by (simp add: hw_put_def)

lemma hw_put_Nil [simp]: "hw_put [] h = h"
  by (simp add: hw_put_def)

lemma encode_int32_len: "encode_int32 (int n) = hw_put (u32_be (of_nat n))"
  by (simp add: encode_int32_def hw_put_u32_be_def fun_eq_iff)

lemma encode_bytes_eq: "encode_bytes bs = hw_put (enc_bytes bs)"
  by (simp add: encode_bytes_def encode_int32_len enc_bytes_def fun_eq_iff)

lemma encode_string_Some [simp]: "encode_string (Some s) = hw_put (enc_str s)"
  by (simp add: encode_string_def encode_bytes_eq fun_eq_iff)

lemma encode_hash_Some [simp]: "encode_hash (Some x) = hw_put (take SHA256_HASH_LEN x)"
  by (simp add: encode_hash_def fun_eq_iff)

lemma length_hex_bytes [simp]: "length (hex_bytes s) = length s div 2"
  by (induction s rule: hex_bytes.induct) auto

lemma fold_hw_put_byte: "fold hw_put_byte bs h = hw_put bs h"
  by (induction bs arbitrary: h) (auto simp: hw_put_byte_def)

lemma encode_hex_string_Some:
  "even (length s) \<Longrightarrow> encode_hex_string (Some s) = hw_put (enc_hex s)"
  by (simp add: encode_hex_string_def encode_int32_len fold_hw_put_byte enc_hex_def enc_bytes_def
      fun_eq_iff even_iff_mod_2_eq_zero)

lemma fold_hw_put: "fold (\<lambda>x. hw_put (enc x)) xs h = hw_put (concat (map enc xs)) h"
  by (induction xs arbitrary: h) auto

lemma encode_repeated_eq:
  assumes "\<And>x. f x = hw_put (enc x)"
  shows "encode_repeated f xs = hw_put (enc_list enc xs)"
proof -
  have "f = (\<lambda>x. hw_put (enc x))" using assms by (simp add: fun_eq_iff)
  then show ?thesis
    by (intro ext) (simp add: encode_repeated_def encode_int32_len fold_hw_put enc_list_def)
qed

lemma encode_repeated_strings [simp]:
  "encode_repeated wrap_encode_string xs = hw_put (enc_list enc_str xs)"
  by (rule encode_repeated_eq) (simp add: wrap_encode_string_def)

lemma encode_optional_eq:
  "(\<And>x. v = Some x \<Longrightarrow> f = hw_put (enc x)) \<Longrightarrow>
   encode_optional (v \<noteq> None) f h = hw_put (enc_opt enc v) h"
  by (cases v) (auto simp: encode_optional_def enc_opt_def hw_put_byte_def)

lemma split_dot_loop_eq: "split_dot_loop s h = hw_put (concat (map enc_str (dot_parts s))) h"
proof (induction s h rule: split_dot_loop.induct)
  case (1 start h)
  then show ?case
    by (subst split_dot_loop.simps, subst dot_parts.simps)
       (auto simp: Let_def encode_int32_len enc_bytes_def)
qed

lemma count_after_takeWhile:
  "c \<in> set s \<Longrightarrow> length (filter (\<lambda>x. x = c) s) = Suc (length (filter (\<lambda>x. x = c) (drop (Suc (length (takeWhile (\<lambda>x. x \<noteq> c) s))) s)))"
  by (induction s) auto

lemma length_dot_parts: "length (dot_parts s) = dot_parts_count s"
proof (induction s rule: dot_parts.induct)
  case (1 s)
  then show ?case
    using count_after_takeWhile [of "CHR ''.''" s]
    by (subst dot_parts.simps) (auto simp: Let_def dot_parts_count_def filter_empty_conv)
qed

lemma split_dot_and_encode_Some [simp]: "split_dot_and_encode (Some s) = hw_put (enc_dotted s)"
  using length_dot_parts [of s]
  by (simp add: split_dot_and_encode_def split_dot_loop_eq encode_int32_len enc_dotted_def enc_list_def
      dot_parts_count_def fun_eq_iff Let_def del: of_nat_Suc of_nat_add flip: of_nat_Suc)

lemma encode_present [simp]:
  "require_present s \<Longrightarrow> encode_string s = hw_put (enc_str (the s))"
  "require_present s \<Longrightarrow> split_dot_and_encode s = hw_put (enc_dotted (the s))"
  "require_present s \<Longrightarrow> even (length (the s)) \<Longrightarrow> encode_hex_string s = hw_put (enc_hex (the s))"
  by (auto simp: encode_hex_string_Some)

lemma encode_identifier_complete:
  "require_identifier b i \<Longrightarrow> encode_identifier i = hw_put (enc_identifier i)"
  by (simp add: require_identifier_def encode_identifier_def enc_identifier_def fun_eq_iff)

lemma encode_interface:
  "optional_interface_is_complete v \<Longrightarrow>
   encode_optional (v \<noteq> None) (encode_identifier (the v)) h = hw_put (enc_opt enc_identifier v) h"
  by (rule encode_optional_eq)
     (auto simp: optional_interface_is_complete_def encode_identifier_complete)

lemmas encode_simps = encode_identifier_complete encode_interface hw_put_byte_def Let_def

lemma encode_create_start_complete:
  assumes "create_is_complete c" "even (length (the (cr_contract_id c)))"
  shows "encode_create_start c seed h = hw_put (enc_create_start c seed) h"
proof -
  have "encode_optional (seed \<noteq> None) (encode_hash seed) h = hw_put (enc_opt (take SHA256_HASH_LEN) seed) h" for h
    by (rule encode_optional_eq) auto
  then show ?thesis
    using assms
    by (auto simp: create_is_complete_def encode_create_start_def enc_create_start_def encode_simps
      simp del: not_None_eq)
qed

lemma encode_create_end_eq: "encode_create_end c h = hw_put (enc_create_end c) h"
  by (simp add: encode_create_end_def enc_create_end_def)

lemma encode_exercise_start_complete:
  assumes "exercise_is_complete e" "optional_interface_is_complete (ex_interface_id e)"
    "even (length (the (ex_contract_id e)))"
  shows "encode_exercise_start e (Some seed) h = hw_put (enc_exercise_start e seed) h"
  using assms
  by (auto simp: exercise_is_complete_def encode_exercise_start_def enc_exercise_start_def encode_simps
      simp del: not_None_eq)

lemma encode_fetch_complete:
  assumes "fetch_is_complete f" "optional_interface_is_complete (fe_interface_id f)"
    "even (length (the (fe_contract_id f)))"
  shows "encode_fetch f h = hw_put (enc_fetch f) h"
  using assms
  by (auto simp: fetch_is_complete_def encode_fetch_def enc_fetch_def encode_simps
      simp del: not_None_eq)

section \<open>The written bytes determine the fields\<close>

fun undot :: "string list \<Rightarrow> string" where
  "undot [] = []"
| "undot [p] = p"
| "undot (p # q # ps) = p @ CHR ''.'' # undot (q # ps)"

lemma takeWhile_split:
  "c \<in> set s \<Longrightarrow> s = takeWhile (\<lambda>x. x \<noteq> c) s @ c # drop (Suc (length (takeWhile (\<lambda>x. x \<noteq> c) s))) s"
  by (induction s) auto

lemma dot_parts_not_Nil [simp]: "dot_parts s \<noteq> []"
  by (subst dot_parts.simps) (simp add: Let_def)

lemma undot_dot_parts: "undot (dot_parts s) = s"
proof (induction s rule: dot_parts.induct)
  case (1 s)
  show ?case
  proof (cases "CHR ''.'' \<in> set s")
    case True
    obtain q qs where "dot_parts (drop (Suc (length (takeWhile (\<lambda>c. c \<noteq> CHR ''.'') s))) s) = q # qs"
      by (meson dot_parts_not_Nil neq_Nil_conv)
    with True 1 show ?thesis
      using takeWhile_split [OF True] by (subst dot_parts.simps) (simp add: Let_def)
  next
    case False
    then show ?thesis
      by (subst dot_parts.simps) (auto simp: Let_def takeWhile_eq_all_conv)
  qed
qed

lemma dot_parts_inject [simp]: "dot_parts s = dot_parts t \<longleftrightarrow> s = t"
  by (metis undot_dot_parts)

lemma length_dot_parts_le: "length (dot_parts s) \<le> Suc (length s)"
  by (simp add: length_dot_parts dot_parts_count_def)

lemma dot_part_length: "p \<in> set (dot_parts s) \<Longrightarrow> length p \<le> length s"
proof (induction s rule: dot_parts.induct)
  case (1 s)
  from 1(2) show ?case
    using 1(1) by (subst (asm) dot_parts.simps) (auto simp: Let_def length_takeWhile_le split: if_splits)
qed

abbreviation valid_name :: "string \<Rightarrow> bool" where
  "valid_name s \<equiv> length s < 2 ^ 31"

lemma valid_dot_parts: "valid_name s \<Longrightarrow> valid_list valid_str (dot_parts s)"
  using length_dot_parts_le [of s]
  by (auto simp: valid_list_def list_all_iff dest!: dot_part_length)

interpretation name_code: prefix_code valid_name enc_str
  by unfold_locales (rule str_code.prefix_free, auto)

interpretation names_code: prefix_code "valid_list valid_name" "enc_list enc_str"
  by unfold_locales (rule name_code.list_prefix_free)

interpretation dotted_code: prefix_code valid_name enc_dotted
proof
  fix x y :: string and xs ys :: "byte list"
  assume "valid_name x" "valid_name y" "enc_dotted x @ xs = enc_dotted y @ ys"
  then show "x = y \<and> xs = ys"
    using strs_code.prefix_free [of "dot_parts x" "dot_parts y" xs ys] valid_dot_parts
    by (simp add: enc_dotted_def)
qed

definition valid_cstring :: "cstring \<Rightarrow> bool" where
  "valid_cstring s \<longleftrightarrow> require_present s \<and> valid_name (the s)"

definition valid_identifier :: "Identifier \<Rightarrow> bool" where
  "valid_identifier i \<longleftrightarrow> valid_cstring (id_package i) \<and> valid_cstring (id_module i) \<and> valid_cstring (id_entity i)"

interpretation ident_code: prefix_code valid_identifier enc_identifier
proof
  fix x y :: Identifier and xs ys :: "byte list"
  assume valid: "valid_identifier x" "valid_identifier y" and eq: "enc_identifier x @ xs = enc_identifier y @ ys"
  have a: "the (id_package x) = the (id_package y) \<and>
      enc_dotted (the (id_module x)) @ enc_dotted (the (id_entity x)) @ xs =
      enc_dotted (the (id_module y)) @ enc_dotted (the (id_entity y)) @ ys"
    using valid eq by (intro name_code.prefix_free) (auto simp: valid_identifier_def valid_cstring_def enc_identifier_def)
  then have b: "the (id_module x) = the (id_module y) \<and>
      enc_dotted (the (id_entity x)) @ xs = enc_dotted (the (id_entity y)) @ ys"
    using valid by (intro dotted_code.prefix_free) (auto simp: valid_identifier_def valid_cstring_def)
  then have "the (id_entity x) = the (id_entity y) \<and> xs = ys"
    using valid by (intro dotted_code.prefix_free) (auto simp: valid_identifier_def valid_cstring_def)
  with a b valid show "x = y \<and> xs = ys"
    by (auto simp: valid_identifier_def valid_cstring_def require_present_def)
qed

interpretation ident_opt_code: prefix_code "valid_opt valid_identifier" "enc_opt enc_identifier"
  by unfold_locales (rule ident_code.opt_prefix_free)

text \<open>A fetch node that passed \<^verbatim>\<open>fetch_is_complete\<close>, with the even-length contract id the
  encoder demands and fields of a size that fits the 32-bit length prefix.\<close>

definition valid_fetch :: "Node_Fetch \<Rightarrow> bool" where
  "valid_fetch f \<longleftrightarrow> fetch_is_complete f \<and> optional_interface_is_complete (fe_interface_id f) \<and>
     even (length (the (fe_contract_id f))) \<and> valid_cstring (fe_lf_version f) \<and> valid_cstring (fe_contract_id f) \<and>
     valid_cstring (fe_package_name f) \<and> valid_identifier (fe_template_id f) \<and>
     valid_list valid_name (fe_signatories f) \<and> valid_list valid_name (fe_stakeholders f) \<and>
     valid_opt valid_identifier (fe_interface_id f) \<and> valid_list valid_name (fe_acting_parties f)"

definition valid_exercise :: "Node_Exercise \<Rightarrow> bool" where
  "valid_exercise e \<longleftrightarrow> exercise_is_complete e \<and> optional_interface_is_complete (ex_interface_id e) \<and>
     even (length (the (ex_contract_id e))) \<and> valid_cstring (ex_lf_version e) \<and> valid_cstring (ex_contract_id e) \<and>
     valid_cstring (ex_package_name e) \<and> valid_identifier (ex_template_id e) \<and>
     valid_list valid_name (ex_signatories e) \<and> valid_list valid_name (ex_stakeholders e) \<and>
     valid_opt valid_identifier (ex_interface_id e) \<and> valid_list valid_name (ex_acting_parties e) \<and>
     valid_cstring (ex_choice_id e)"

lemma valid_cstring_inject:
  "valid_cstring s \<Longrightarrow> valid_cstring t \<Longrightarrow> the s = the t \<longleftrightarrow> s = t"
  by (metis option.collapse require_present_def valid_cstring_def)

lemma hex_bytes_length_bound: "valid_name s \<Longrightarrow> length (hex_bytes s) < 2 ^ 32"
  by simp

lemma cstring_prefix_free:
  assumes "valid_cstring s" "valid_cstring t" "enc_str (the s) @ xs = enc_str (the t) @ ys"
  shows "s = t \<and> xs = ys"
proof -
  have "the s = the t \<and> xs = ys"
    using assms by (intro name_code.prefix_free) (auto simp: valid_cstring_def)
  with assms valid_cstring_inject show ?thesis by blast
qed

lemma hex_prefix_free:
  assumes "valid_cstring s" "valid_cstring t" "enc_hex (the s) @ xs = enc_hex (the t) @ ys"
  shows "hex_bytes (the s) = hex_bytes (the t) \<and> xs = ys"
  using assms by (intro bytes_code.prefix_free) (auto simp: enc_hex_def valid_cstring_def)

lemma enc_fetch_inject:
  assumes "valid_fetch f" "valid_fetch g" and eq: "enc_fetch f @ xs = enc_fetch g @ ys"
  shows "fe_lf_version f = fe_lf_version g \<and> hex_bytes (the (fe_contract_id f)) = hex_bytes (the (fe_contract_id g)) \<and>
    fe_package_name f = fe_package_name g \<and> fe_template_id f = fe_template_id g \<and>
    fe_signatories f = fe_signatories g \<and> fe_stakeholders f = fe_stakeholders g \<and>
    fe_interface_id f = fe_interface_id g \<and> fe_acting_parties f = fe_acting_parties g \<and> xs = ys"
proof -
  have v: "valid_cstring (fe_lf_version h)" "valid_cstring (fe_contract_id h)" "valid_cstring (fe_package_name h)"
    "valid_identifier (fe_template_id h)" "valid_list valid_name (fe_signatories h)"
    "valid_list valid_name (fe_stakeholders h)" "valid_opt valid_identifier (fe_interface_id h)"
    "valid_list valid_name (fe_acting_parties h)" if "valid_fetch h" for h
    using that by (simp_all add: valid_fetch_def)
  note vf = v [OF assms(1)] and vg = v [OF assms(2)]
  note e0 = eq [unfolded enc_fetch_def append_assoc append_Cons append_Nil list.inject, THEN conjunct2]
  note e1 = cstring_prefix_free [OF vf(1) vg(1) e0, unfolded list.inject]
  note e2 = hex_prefix_free [OF vf(2) vg(2) e1 [THEN conjunct2, THEN conjunct2]]
  note e3 = cstring_prefix_free [OF vf(3) vg(3) e2 [THEN conjunct2]]
  note e4 = ident_code.prefix_free [OF vf(4) vg(4) e3 [THEN conjunct2]]
  note e5 = names_code.prefix_free [OF vf(5) vg(5) e4 [THEN conjunct2]]
  note e6 = names_code.prefix_free [OF vf(6) vg(6) e5 [THEN conjunct2]]
  note e7 = ident_opt_code.prefix_free [OF vf(7) vg(7) e6 [THEN conjunct2]]
  note e8 = names_code.prefix_free [OF vf(8) vg(8) e7 [THEN conjunct2]]
  show ?thesis
    using e1 e2 e3 e4 e5 e6 e7 e8 by simp
qed

lemma enc_exercise_start_inject:
  assumes "valid_exercise e" "valid_exercise f" "length seed = SHA256_HASH_LEN" "length seed' = SHA256_HASH_LEN"
    and eq: "enc_exercise_start e seed @ xs = enc_exercise_start f seed' @ ys"
  shows "ex_lf_version e = ex_lf_version f \<and> seed = seed' \<and>
    hex_bytes (the (ex_contract_id e)) = hex_bytes (the (ex_contract_id f)) \<and>
    ex_package_name e = ex_package_name f \<and> ex_template_id e = ex_template_id f \<and>
    ex_signatories e = ex_signatories f \<and> ex_stakeholders e = ex_stakeholders f \<and>
    ex_acting_parties e = ex_acting_parties f \<and> ex_interface_id e = ex_interface_id f \<and>
    ex_choice_id e = ex_choice_id f \<and> xs = ys"
proof -
  have v: "valid_cstring (ex_lf_version h)" "valid_cstring (ex_contract_id h)" "valid_cstring (ex_package_name h)"
    "valid_identifier (ex_template_id h)" "valid_list valid_name (ex_signatories h)"
    "valid_list valid_name (ex_stakeholders h)" "valid_opt valid_identifier (ex_interface_id h)"
    "valid_list valid_name (ex_acting_parties h)" "valid_cstring (ex_choice_id h)" if "valid_exercise h" for h
    using that by (simp_all add: valid_exercise_def)
  note ve = v [OF assms(1)] and vf = v [OF assms(2)]
  note e0 = eq [unfolded enc_exercise_start_def append_assoc append_Cons append_Nil list.inject, THEN conjunct2]
  note e1 = cstring_prefix_free [OF ve(1) vf(1) e0, unfolded list.inject]
  have "length (take SHA256_HASH_LEN seed) = length (take SHA256_HASH_LEN seed')"
    using assms(3,4) by simp
  note e2 = e1 [THEN conjunct2, THEN conjunct2, unfolded append_eq_append_conv [OF disjI1, OF this]]
  note e3 = hex_prefix_free [OF ve(2) vf(2) e2 [THEN conjunct2]]
  note e4 = cstring_prefix_free [OF ve(3) vf(3) e3 [THEN conjunct2]]
  note e5 = ident_code.prefix_free [OF ve(4) vf(4) e4 [THEN conjunct2]]
  note e6 = names_code.prefix_free [OF ve(5) vf(5) e5 [THEN conjunct2]]
  note e7 = names_code.prefix_free [OF ve(6) vf(6) e6 [THEN conjunct2]]
  note e8 = names_code.prefix_free [OF ve(8) vf(8) e7 [THEN conjunct2]]
  note e9 = ident_opt_code.prefix_free [OF ve(7) vf(7) e8 [THEN conjunct2]]
  note e10 = cstring_prefix_free [OF ve(9) vf(9) e9 [THEN conjunct2]]
  show ?thesis
    using e1 e2 e3 e4 e5 e6 e7 e8 e9 e10 assms(3,4) by simp
qed

section \<open>When an encoder raises an error\<close>

lemma hw_put_err [frame_simps, simp]: "err_code (hw_put p h) = err_code h" "err_code (hw_put_byte b h) = err_code h"
  "err_code (encode_int32 v h) = err_code h" "err_code (encode_int64 w h) = err_code h" "err_code (encode_bool c h) = err_code h"
  by (simp_all add: hw_put_def hw_put_byte_def encode_int32_def encode_int64_def encode_bool_def
      hw_put_u32_be_def hw_put_u64_be_def)

lemma hw_put_store [frame_simps, simp]:
  "hashed_nodes_store (hw_put p h) = hashed_nodes_store h" "hashed_nodes_store (encode_int32 v h) = hashed_nodes_store h"
  by (simp_all add: hw_put_def encode_int32_def hw_put_u32_be_def)

lemma encode_string_err: "err_code (encode_string s h) = HASH_OK \<longleftrightarrow> err_code h = HASH_OK \<and> require_present s"
  by (cases s) (auto simp: encode_string_def set_hash_error_def encode_bytes_eq require_present_def)

lemma encode_hash_err: "err_code (encode_hash s h) = HASH_OK \<longleftrightarrow> err_code h = HASH_OK \<and> require_present s"
  by (cases s) (auto simp: encode_hash_def set_hash_error_def require_present_def)

lemma split_dot_err: "err_code (split_dot_and_encode s h) = HASH_OK \<longleftrightarrow> err_code h = HASH_OK \<and> require_present s"
  by (cases s) (auto simp: split_dot_and_encode_def set_hash_error_def require_present_def split_dot_loop_eq Let_def)

lemma encode_hex_err:
  "err_code (encode_hex_string s h) = HASH_OK \<longleftrightarrow> err_code h = HASH_OK \<and> require_present s \<and> even (length (the s))"
  by (cases s) (auto simp: encode_hex_string_def set_hash_error_def require_present_def fold_hw_put_byte
      even_iff_mod_2_eq_zero)

lemma encode_identifier_err:
  "err_code (encode_identifier i h) = HASH_OK \<longleftrightarrow> err_code h = HASH_OK \<and> require_identifier True i"
  by (auto simp: encode_identifier_def encode_string_err split_dot_err require_identifier_def)

lemma encode_interface_err:
  "err_code (encode_optional (v \<noteq> None) (encode_identifier (the v)) h) = HASH_OK \<longleftrightarrow>
   err_code h = HASH_OK \<and> optional_interface_is_complete v"
  by (cases v) (auto simp: encode_optional_def encode_identifier_err optional_interface_is_complete_def)

lemmas encode_err_simps = encode_string_err encode_hash_err split_dot_err encode_hex_err encode_identifier_err
  encode_interface_err

lemma get_node_hash_put [frame_simps, simp]:
  "get_node_hash y (hw_put p h) = get_node_hash y h" "get_node_hash y (encode_int32 v h) = get_node_hash y h"
  by (simp_all add: get_node_hash_def split: option.split)

lemma encode_node_id_loop_err:
  "err_code (encode_node_id_loop xs h) = HASH_OK \<longleftrightarrow>
   err_code h = HASH_OK \<and> list_all (\<lambda>x. get_node_hash (Some x) h \<noteq> None) xs"
proof (induction xs arbitrary: h)
  case (Cons x xs)
  show ?case
    by (auto simp: Cons set_hash_error_def split: option.split)
qed simp

lemma encode_repeated_node_ids_err:
  "err_code (encode_repeated_node_ids xs h) = HASH_OK \<longleftrightarrow>
   err_code h = HASH_OK \<and> list_all (\<lambda>x. get_node_hash (Some x) h \<noteq> None) xs"
  by (simp add: encode_repeated_node_ids_def encode_node_id_loop_err)

section \<open>Properties\<close>

definition sample_identifier :: Identifier where
  "sample_identifier = \<lparr>id_package = Some ''pkg'', id_module = Some ''A.B'', id_entity = Some ''T''\<rparr>"

definition sample_fetch :: Node_Fetch where
  "sample_fetch = \<lparr>fe_lf_version = Some ''2.1'', fe_contract_id = Some ''00aF'', fe_package_name = Some ''p'',
     fe_has_template_id = True, fe_template_id = sample_identifier,
     fe_signatories = [''alice''], fe_stakeholders = [''alice'', ''bob''], fe_acting_parties = [''bob''],
     fe_interface_id = None\<rparr>"

definition sample_exercise :: Node_Exercise where
  "sample_exercise = \<lparr>ex_lf_version = Some ''2.1'', ex_contract_id = Some ''00aF'', ex_package_name = Some ''p'',
     ex_has_template_id = True, ex_template_id = sample_identifier,
     ex_signatories = [''alice''], ex_stakeholders = [], ex_acting_parties = [], ex_interface_id = None,
     ex_choice_id = Some ''Accept'', ex_consuming = True, ex_children = [''1''], ex_choice_observers = []\<rparr>"

definition empty_hash_ctx :: hash_ctx where
  "empty_hash_ctx = init_node_hash_store
     \<lparr>hw = [], err_code = HASH_OK, hashed_nodes_store = [], hashed_nodes_store_count = 0\<rparr>"

lemma valid_samples: "valid_fetch sample_fetch" "valid_exercise sample_exercise"
  by (simp_all add: valid_fetch_def valid_exercise_def sample_fetch_def sample_exercise_def sample_identifier_def
      fetch_is_complete_def exercise_is_complete_def require_identifier_def optional_interface_is_complete_def
      valid_cstring_def valid_identifier_def valid_list_def valid_opt_def)

text \<open>The canonical serialisation of a fetch node is injective: two complete fetch nodes that make
  the hash writer receive the same bytes agree in every field, the contract id up to the hexadecimal
  decoding the serialisation applies to it. So a node hash commits to each of these fields.\<close>

theorem encode_fetch_injective:
  assumes "valid_fetch f" "valid_fetch g" "hw (encode_fetch f h) = hw (encode_fetch g h)"
  shows "fe_lf_version f = fe_lf_version g \<and> hex_bytes (the (fe_contract_id f)) = hex_bytes (the (fe_contract_id g)) \<and>
    fe_package_name f = fe_package_name g \<and> fe_template_id f = fe_template_id g \<and>
    fe_signatories f = fe_signatories g \<and> fe_stakeholders f = fe_stakeholders g \<and>
    fe_interface_id f = fe_interface_id g \<and> fe_acting_parties f = fe_acting_parties g"
proof -
  have "encode_fetch x h = hw_put (enc_fetch x) h" if "valid_fetch x" for x
    using that by (intro encode_fetch_complete) (auto simp: valid_fetch_def)
  with assms have "enc_fetch f @ [] = enc_fetch g @ []"
    by (simp add: hw_put_def)
  then show ?thesis
    using enc_fetch_inject [OF assms(1,2)] by blast
qed

theorem encode_fetch_injective_witness:
  "fe_signatories sample_fetch = fe_signatories sample_fetch \<and>
   hw (encode_fetch sample_fetch empty_hash_ctx) \<noteq> hw (encode_fetch (sample_fetch\<lparr>fe_package_name := Some ''q''\<rparr>) empty_hash_ctx)"
proof -
  have v: "valid_fetch (sample_fetch\<lparr>fe_package_name := Some ''q''\<rparr>)"
    using valid_samples by (simp add: valid_fetch_def sample_fetch_def fetch_is_complete_def valid_cstring_def)
  show ?thesis
    using encode_fetch_injective [OF valid_samples(1) v, of empty_hash_ctx]
      encode_fetch_injective [OF valid_samples(1) valid_samples(1), of empty_hash_ctx]
    by (auto simp: sample_fetch_def)
qed

text \<open>The bytes written for an exercise node up to its choice argument are a prefix code: whatever
  follows them, they determine the seed, the template, the choice, the parties and the interface. No
  two different exercise headers can be confused, and the argument bytes start at a definite place.\<close>

theorem encode_exercise_start_injective:
  assumes "valid_exercise e" "valid_exercise f" "length seed = SHA256_HASH_LEN" "length seed' = SHA256_HASH_LEN"
    and "hw (hw_put xs (encode_exercise_start e (Some seed) h)) = hw (hw_put ys (encode_exercise_start f (Some seed') h))"
  shows "ex_lf_version e = ex_lf_version f \<and> seed = seed' \<and>
    hex_bytes (the (ex_contract_id e)) = hex_bytes (the (ex_contract_id f)) \<and>
    ex_package_name e = ex_package_name f \<and> ex_template_id e = ex_template_id f \<and>
    ex_signatories e = ex_signatories f \<and> ex_stakeholders e = ex_stakeholders f \<and>
    ex_acting_parties e = ex_acting_parties f \<and> ex_interface_id e = ex_interface_id f \<and>
    ex_choice_id e = ex_choice_id f \<and> xs = ys"
proof -
  have "encode_exercise_start x (Some s) h = hw_put (enc_exercise_start x s) h" if "valid_exercise x" for x s
    using that by (intro encode_exercise_start_complete) (auto simp: valid_exercise_def)
  with assms have "enc_exercise_start e seed @ xs = enc_exercise_start f seed' @ ys"
    by (simp add: hw_put_def)
  then show ?thesis
    using enc_exercise_start_inject [OF assms(1-4)] by blast
qed

theorem encode_exercise_start_injective_witness:
  "hw (hw_put [] (encode_exercise_start sample_exercise (Some (replicate 32 0)) empty_hash_ctx)) \<noteq>
   hw (hw_put [] (encode_exercise_start sample_exercise (Some (replicate 32 1)) empty_hash_ctx))"
  using encode_exercise_start_injective [OF valid_samples(2) valid_samples(2), of "replicate 32 0" "replicate 32 1" "[]" empty_hash_ctx "[]"]
  by auto

text \<open>C24. The node hash store is a window over the last 32 stored hashes, whatever its index was when
  the transaction started. After the hashes \<open>es\<close> have been stored, a child id is found only if its
  hash is among the most recent 32 of them, and the hash found is one stored under that very id; a
  child that was pushed out, or never stored, is refused. (A negative number can only come from a
  string the tree check rejects.)\<close>

theorem node_hash_store_lookup:
  assumes "hashed_nodes_store_count h < MAX_NODE_CHILDREN" "0 \<le> atoint s"
    and "get_node_hash (Some s) (fold (\<lambda>e. set_node_hash (fst e) (snd e)) es (init_node_hash_store h)) = Some x"
  shows "(atoint s, x) \<in> set (drop (length es - MAX_NODE_CHILDREN) es)"
proof -
  note wf = init_store_wf [OF assms(1)]
  have "(atoint s, x) \<in> set (drop (length es) (store_window (init_node_hash_store h) @ es))"
    using get_node_hash_in_window [OF ring.inserts_wf [OF wf] assms(3)] ring.inserts_window [OF wf] by simp
  then have "(atoint s, x) \<in> set (drop (length es) (replicate 32 (-1, replicate 32 0)) @ drop (length es - 32) es)"
    by (simp add: init_store_window)
  with assms(2) show ?thesis
    by (auto dest: in_set_dropD)
qed

theorem node_hash_store_lookup_witness:
  "(atoint ''7'', [9]) \<in> set (drop (length [(7 :: int, [9 :: byte])] - MAX_NODE_CHILDREN) [(7, [9 :: byte])])"
proof -
  have "hashed_nodes_store_count empty_hash_ctx < MAX_NODE_CHILDREN" "0 \<le> atoint ''7''"
    "get_node_hash (Some ''7'') (fold (\<lambda>e. set_node_hash (fst e) (snd e)) [(7, [9])] (init_node_hash_store empty_hash_ctx)) = Some [9]"
    by code_simp+
  from node_hash_store_lookup [OF this] show ?thesis .
qed

text \<open>C25. And the store does its work: as long as a transaction stores each node id once, the hash of
  any of the last 32 nodes is found again, so a parent whose children are recent is always hashed.\<close>

theorem node_hash_store_found:
  assumes "hashed_nodes_store_count h < MAX_NODE_CHILDREN" "0 \<le> atoint s" "distinct (map fst es)"
    and "(atoint s, x) \<in> set (drop (length es - MAX_NODE_CHILDREN) es)"
  shows "get_node_hash (Some s) (fold (\<lambda>e. set_node_hash (fst e) (snd e)) es (init_node_hash_store h)) = Some x"
proof (rule get_node_hash_found)
  note wf = init_store_wf [OF assms(1)]
  let ?st = "fold (\<lambda>e. set_node_hash (fst e) (snd e)) es (init_node_hash_store h)"
  show "store_wf ?st" by (rule ring.inserts_wf [OF wf])
  have window: "store_window ?st = drop (length es) (replicate 32 (-1, replicate 32 0)) @ drop (length es - 32) es"
    using ring.inserts_window [OF wf] by (simp add: init_store_window)
  then show "(atoint s, x) \<in> set (store_window ?st)"
    using assms(4) by simp
  fix y
  assume "(atoint s, y) \<in> set (store_window ?st)"
  then have "(atoint s, y) \<in> set es"
    using window assms(2) by (auto dest: in_set_dropD)
  moreover have "(atoint s, x) \<in> set es"
    using assms(4) by (auto dest: in_set_dropD)
  ultimately show "y = x"
    using assms(3) by (metis eq_key_imp_eq_value)
qed

theorem node_hash_store_found_witness:
  "get_node_hash (Some ''7'') (fold (\<lambda>e. set_node_hash (fst e) (snd e)) [(7, [9]), (8, [3])] (init_node_hash_store empty_hash_ctx)) = Some [9]"
proof (rule node_hash_store_found)
  show "hashed_nodes_store_count empty_hash_ctx < MAX_NODE_CHILDREN" "0 \<le> atoint ''7''"
    "distinct (map fst [(7 :: int, [9 :: byte]), (8, [3])])"
    "(atoint ''7'', [9]) \<in> set (drop (length [(7 :: int, [9 :: byte]), (8, [3])] - MAX_NODE_CHILDREN) [(7, [9 :: byte]), (8, [3])])"
    by code_simp+
qed

text \<open>A field the host left out is never hashed silently. Encoding a fetch node ends without a hash
  error exactly when there was none before, the node passes \<^verbatim>\<open>fetch_is_complete\<close> (but for the
  presence flag the encoder cannot see), its interface id is complete and its contract id has an
  even number of hexadecimal digits.\<close>

theorem encode_fetch_error_iff:
  "get_hash_error (encode_fetch f h) = HASH_OK \<longleftrightarrow>
     get_hash_error h = HASH_OK \<and> fetch_is_complete (f\<lparr>fe_has_template_id := True\<rparr>) \<and>
     optional_interface_is_complete (fe_interface_id f) \<and> even (length (the (fe_contract_id f)))"
  by (auto simp: get_hash_error_def encode_fetch_def Let_def encode_err_simps fetch_is_complete_def
      simp del: not_None_eq)

text \<open>C28. An exercise node declares its children through hashes that are already in the store: its
  final part is encoded without error exactly when it has at most 32 children and every child id is
  found there.\<close>

theorem encode_exercise_end_error_iff:
  "get_hash_error (encode_exercise_end e h) = HASH_OK \<longleftrightarrow>
     get_hash_error h = HASH_OK \<and> length (ex_children e) \<le> MAX_NODE_CHILDREN \<and>
     list_all (\<lambda>x. get_node_hash (Some x) h \<noteq> None) (ex_children e)"
  by (auto simp: get_hash_error_def encode_exercise_end_def Let_def encode_repeated_node_ids_err set_hash_error_def)

end
