(* ===== verification/Nanopb.thy ===== *)
theory Nanopb
  imports Messages
begin

text \<open>
  The protobuf decoder the app links, \<^verbatim>\<open>vendor/nanopb/pb_decode.c\<close>, at the level of bytes. A
  message is first cut into its fields (tag and wire value), as \<^verbatim>\<open>pb_decode_inner\<close> reads
  them; the fields are then given one after the other to a handler that stands for the message's field
  descriptors. A failing handler makes the whole decode fail, so cutting first and handling
  afterwards has the same result as doing both in one pass. Heap exhaustion inside nanopb is not
  modelled: it only turns a decode into a failure.

  Varints keep nanopb's exact overflow rules. A string field is cut at the first NUL when it is read
  as a C string; a repeated field appends; a static submessage is merged into the value it already
  has; a pointer submessage replaces it.
\<close>

section \<open>Varints and tags\<close>

text \<open>\<^verbatim>\<open>pb_decode_varint32_eof\<close> after the first byte.\<close>

fun varint32_loop :: "nat \<Rightarrow> u32 \<Rightarrow> byte list \<Rightarrow> (u32 \<times> byte list) option" where
  "varint32_loop bitpos result [] = None"
| "varint32_loop bitpos result (b # bs) =
     (let next = (\<lambda>r. if b AND 0x80 \<noteq> 0 then varint32_loop (bitpos + 7) r bs else Some (r, bs)) in
      if bitpos \<ge> 32 then
        (let sign_extension = (if bitpos < 63 then 0xFF else 0x01);
             valid_extension = (b AND 0x7F = 0 \<or> drop_bit 31 result \<noteq> 0 \<and> b = sign_extension)
         in if bitpos \<ge> 64 \<or> \<not> valid_extension then None else next result)
      else if bitpos = 28 then
        (if b AND 0x70 \<noteq> 0 \<and> b AND 0x78 \<noteq> 0x78 then None
         else next (result OR push_bit bitpos (ucast (b AND 0x0F))))
      else next (result OR push_bit bitpos (ucast (b AND 0x7F))))"

fun pb_decode_varint32 :: "byte list \<Rightarrow> (u32 \<times> byte list) option" where
  "pb_decode_varint32 [] = None"
| "pb_decode_varint32 (b # bs) =
     (if b AND 0x80 = 0 then Some (ucast b, bs) else varint32_loop 7 (ucast (b AND 0x7F)) bs)"

fun varint_loop :: "nat \<Rightarrow> u64 \<Rightarrow> byte list \<Rightarrow> (u64 \<times> byte list) option" where
  "varint_loop bitpos result [] = None"
| "varint_loop bitpos result (b # bs) =
     (if bitpos \<ge> 63 \<and> b AND 0xFE \<noteq> 0 then None
      else (let r = result OR push_bit bitpos (ucast (b AND 0x7F))
            in if b AND 0x80 \<noteq> 0 then varint_loop (bitpos + 7) r bs else Some (r, bs)))"

definition pb_decode_varint :: "byte list \<Rightarrow> (u64 \<times> byte list) option" where
  "pb_decode_varint bs = varint_loop 0 0 bs"

text \<open>\<^verbatim>\<open>pb_skip_varint\<close>: the bytes of a varint of any length, up to the first without the
  continuation bit.\<close>

fun pb_raw_varint :: "byte list \<Rightarrow> (byte list \<times> byte list) option" where
  "pb_raw_varint [] = None"
| "pb_raw_varint (b # bs) =
     (if b AND 0x80 \<noteq> 0 then map_option (\<lambda>(v, r). (b # v, r)) (pb_raw_varint bs) else Some ([b], bs))"

definition pb_decode_tag :: "byte list \<Rightarrow> (nat \<times> nat \<times> byte list) option" where
  "pb_decode_tag bs =
     (case pb_decode_varint32 bs of
        None \<Rightarrow> None
      | Some (temp, rest) \<Rightarrow> Some (unat (drop_bit 3 temp), unat (temp AND 7), rest))"

section \<open>Fields\<close>

datatype wire = WVarint "byte list" | W64 "byte list" | WLen "byte list" | W32 "byte list"

definition pb_read :: "nat \<Rightarrow> byte list \<Rightarrow> (byte list \<times> byte list) option" where
  "pb_read n bs = (if length bs < n then None else Some (take n bs, drop n bs))"

definition pb_string_payload :: "byte list \<Rightarrow> (byte list \<times> byte list) option" where
  "pb_string_payload bs =
     (case pb_decode_varint32 bs of None \<Rightarrow> None | Some (sz, rest) \<Rightarrow> pb_read (unat sz) rest)"

definition pb_wire :: "nat \<Rightarrow> byte list \<Rightarrow> (wire \<times> byte list) option" where
  "pb_wire wire_type bs =
     (if wire_type = 0 then map_option (\<lambda>(v, r). (WVarint v, r)) (pb_raw_varint bs)
      else if wire_type = 1 then map_option (\<lambda>(v, r). (W64 v, r)) (pb_read 8 bs)
      else if wire_type = 2 then map_option (\<lambda>(v, r). (WLen v, r)) (pb_string_payload bs)
      else if wire_type = 5 then map_option (\<lambda>(v, r). (W32 v, r)) (pb_read 4 bs)
      else None)"

definition pb_next_field :: "byte list \<Rightarrow> ((nat \<times> wire) \<times> byte list) option" where
  "pb_next_field bs =
     (case pb_decode_tag bs of
        None \<Rightarrow> None
      | Some (tag, wire_type, rest) \<Rightarrow>
          if tag = 0 then None
          else map_option (\<lambda>(w, r). ((tag, w), r)) (pb_wire wire_type rest))"

lemma varint32_loop_rest: "varint32_loop n r bs = Some (v, rest) \<Longrightarrow> length rest < length bs"
  by (induction n r bs rule: varint32_loop.induct)
     (auto simp: Let_def split: if_splits intro: less_SucI)

lemma pb_decode_varint32_rest: "pb_decode_varint32 bs = Some (v, rest) \<Longrightarrow> length rest < length bs"
  by (cases bs) (auto split: if_splits dest: varint32_loop_rest)

lemma pb_raw_varint_rest: "pb_raw_varint bs = Some (v, rest) \<Longrightarrow> length rest < length bs"
  by (induction bs arbitrary: v) (auto split: if_splits intro: less_SucI)

lemma pb_wire_rest: "pb_wire t bs = Some (w, rest) \<Longrightarrow> length rest \<le> length bs"
  by (auto simp: pb_wire_def pb_read_def pb_string_payload_def split: if_splits option.splits
      dest!: pb_raw_varint_rest pb_decode_varint32_rest)

lemma pb_next_field_rest: "pb_next_field bs = Some (fw, rest) \<Longrightarrow> length rest < length bs"
  by (auto simp: pb_next_field_def pb_decode_tag_def split: option.splits if_splits
      dest!: pb_decode_varint32_rest pb_wire_rest)

text \<open>\<^verbatim>\<open>pb_decode_inner\<close>: the loop over the fields of a message.\<close>

function pb_fields :: "byte list \<Rightarrow> (nat \<times> wire) list option" where
  "pb_fields bs =
     (if bs = [] then Some []
      else (case pb_next_field bs of
              None \<Rightarrow> None
            | Some (fw, rest) \<Rightarrow> map_option (Cons fw) (pb_fields rest)))"
  by pat_completeness auto
termination
  by (relation "measure length") (auto dest: pb_next_field_rest)

declare pb_fields.simps [simp del]

fun fold_opt :: "('a \<Rightarrow> 's \<Rightarrow> 's option) \<Rightarrow> 'a list \<Rightarrow> 's \<Rightarrow> 's option" where
  "fold_opt f [] s = Some s"
| "fold_opt f (x # xs) s = (case f x s of None \<Rightarrow> None | Some s' \<Rightarrow> fold_opt f xs s')"

definition pb_decode :: "(nat \<times> wire \<Rightarrow> 's \<Rightarrow> 's option) \<Rightarrow> byte list \<Rightarrow> 's \<Rightarrow> 's option" where
  "pb_decode f bs s = (case pb_fields bs of None \<Rightarrow> None | Some fs \<Rightarrow> fold_opt f fs s)"

section \<open>Basic field types\<close>

definition pb_dec_string :: "wire \<Rightarrow> string option" where
  "pb_dec_string w = (case w of WLen p \<Rightarrow> Some (cstr p) | _ \<Rightarrow> None)"

definition pb_dec_bytes :: "wire \<Rightarrow> byte list option" where
  "pb_dec_bytes w = (case w of WLen p \<Rightarrow> Some p | _ \<Rightarrow> None)"

definition pb_dec_uint64 :: "wire \<Rightarrow> u64 option" where
  "pb_dec_uint64 w = (case w of WVarint v \<Rightarrow> map_option fst (pb_decode_varint v) | _ \<Rightarrow> None)"

definition pb_dec_uint32 :: "wire \<Rightarrow> u32 option" where
  "pb_dec_uint32 w =
     (case pb_dec_uint64 w of
        None \<Rightarrow> None
      | Some v \<Rightarrow> if ucast (ucast v :: u32) = v then Some (ucast v) else None)"

definition pb_dec_int32 :: "wire \<Rightarrow> int option" where
  "pb_dec_int32 w = map_option (\<lambda>v. sint (ucast v :: u32)) (pb_dec_uint64 w)"

definition pb_dec_sint64 :: "wire \<Rightarrow> u64 option" where
  "pb_dec_sint64 w =
     map_option (\<lambda>v. if v AND 1 \<noteq> 0 then NOT (drop_bit 1 v) else drop_bit 1 v) (pb_dec_uint64 w)"

definition pb_dec_bool :: "wire \<Rightarrow> bool option" where
  "pb_dec_bool w =
     (case w of WVarint v \<Rightarrow> map_option (\<lambda>(x, r). x \<noteq> 0) (pb_decode_varint32 v) | _ \<Rightarrow> None)"

definition pb_dec_fixed64 :: "wire \<Rightarrow> u64 option" where
  "pb_dec_fixed64 w = (case w of W64 v \<Rightarrow> Some (be_word (rev v)) | _ \<Rightarrow> None)"

text \<open>A field with a callback that is not set: \<^verbatim>\<open>decode_callback_field\<close> still reads the value, a
  scalar into a ten byte buffer.\<close>

definition pb_callback_payload :: "wire \<Rightarrow> byte list option" where
  "pb_callback_payload w =
     (case w of
        WLen p \<Rightarrow> Some p
      | WVarint v \<Rightarrow> if length v \<le> 10 then Some v else None
      | W64 v \<Rightarrow> Some v
      | W32 v \<Rightarrow> Some v)"

definition pb_null_callback :: "wire \<Rightarrow> 's \<Rightarrow> 's option" where
  "pb_null_callback w s = map_option (\<lambda>_. s) (pb_callback_payload w)"

abbreviation put_string :: "wire \<Rightarrow> (string \<Rightarrow> 's) \<Rightarrow> 's option" where
  "put_string w upd \<equiv> map_option upd (pb_dec_string w)"

section \<open>Messages\<close>

definition Identifier_field :: "nat \<times> wire \<Rightarrow> Identifier \<Rightarrow> Identifier option" where
  "Identifier_field fw i =
     (let w = snd fw in
      if fst fw = 1 then put_string w (\<lambda>s. i\<lparr>id_package := Some s\<rparr>)
      else if fst fw = 2 then put_string w (\<lambda>s. i\<lparr>id_module := Some s\<rparr>)
      else if fst fw = 3 then put_string w (\<lambda>s. i\<lparr>id_entity := Some s\<rparr>)
      else Some i)"

definition decode_Identifier :: "byte list \<Rightarrow> Identifier \<Rightarrow> Identifier option" where
  "decode_Identifier bs i = pb_decode Identifier_field bs i"

text \<open>A submessage field: the payload is decoded into the value the static field already has.\<close>

definition pb_dec_submessage :: "(byte list \<Rightarrow> 'm \<Rightarrow> 'm option) \<Rightarrow> wire \<Rightarrow> 'm \<Rightarrow> 'm option" where
  "pb_dec_submessage dec w m = (case w of WLen p \<Rightarrow> dec p m | _ \<Rightarrow> None)"

definition Create_field :: "nat \<times> wire \<Rightarrow> Node_Create \<Rightarrow> Node_Create option" where
  "Create_field fw c =
     (let t = fst fw; w = snd fw in
      if t = 1 then put_string w (\<lambda>s. c\<lparr>cr_lf_version := Some s\<rparr>)
      else if t = 2 then put_string w (\<lambda>s. c\<lparr>cr_contract_id := Some s\<rparr>)
      else if t = 3 then put_string w (\<lambda>s. c\<lparr>cr_package_name := Some s\<rparr>)
      else if t = 4 then map_option (\<lambda>i. c\<lparr>cr_has_template_id := True, cr_template_id := i\<rparr>)
                           (pb_dec_submessage decode_Identifier w (cr_template_id c))
      else if t = 5 then pb_null_callback w c
      else if t = 6 then put_string w (\<lambda>s. c\<lparr>cr_signatories := cr_signatories c @ [s]\<rparr>)
      else if t = 7 then put_string w (\<lambda>s. c\<lparr>cr_stakeholders := cr_stakeholders c @ [s]\<rparr>)
      else Some c)"

definition Exercise_field :: "nat \<times> wire \<Rightarrow> Node_Exercise \<Rightarrow> Node_Exercise option" where
  "Exercise_field fw e =
     (let t = fst fw; w = snd fw in
      if t = 1 then put_string w (\<lambda>s. e\<lparr>ex_lf_version := Some s\<rparr>)
      else if t = 2 then put_string w (\<lambda>s. e\<lparr>ex_contract_id := Some s\<rparr>)
      else if t = 3 then put_string w (\<lambda>s. e\<lparr>ex_package_name := Some s\<rparr>)
      else if t = 4 then map_option (\<lambda>i. e\<lparr>ex_has_template_id := True, ex_template_id := i\<rparr>)
                           (pb_dec_submessage decode_Identifier w (ex_template_id e))
      else if t = 5 then put_string w (\<lambda>s. e\<lparr>ex_signatories := ex_signatories e @ [s]\<rparr>)
      else if t = 6 then put_string w (\<lambda>s. e\<lparr>ex_stakeholders := ex_stakeholders e @ [s]\<rparr>)
      else if t = 7 then put_string w (\<lambda>s. e\<lparr>ex_acting_parties := ex_acting_parties e @ [s]\<rparr>)
      else if t = 8 then map_option (\<lambda>i. e\<lparr>ex_interface_id := Some i\<rparr>)
                           (pb_dec_submessage decode_Identifier w Identifier_init_zero)
      else if t = 9 then put_string w (\<lambda>s. e\<lparr>ex_choice_id := Some s\<rparr>)
      else if t = 10 then pb_null_callback w e
      else if t = 11 then map_option (\<lambda>b. e\<lparr>ex_consuming := b\<rparr>) (pb_dec_bool w)
      else if t = 12 then put_string w (\<lambda>s. e\<lparr>ex_children := ex_children e @ [s]\<rparr>)
      else if t = 13 then pb_null_callback w e
      else if t = 14 then put_string w (\<lambda>s. e\<lparr>ex_choice_observers := ex_choice_observers e @ [s]\<rparr>)
      else Some e)"

definition decode_Create :: "byte list \<Rightarrow> Node_Create \<Rightarrow> Node_Create option" where
  "decode_Create bs c = pb_decode Create_field bs c"

definition decode_Exercise :: "byte list \<Rightarrow> Node_Exercise \<Rightarrow> Node_Exercise option" where
  "decode_Exercise bs e = pb_decode Exercise_field bs e"

definition decode_Rollback :: "byte list \<Rightarrow> Node_Rollback \<Rightarrow> Node_Rollback option" where
  "decode_Rollback bs r =
     pb_decode (\<lambda>fw r. if fst fw = 1 then put_string (snd fw) (\<lambda>s. r\<lparr>ro_children := ro_children r @ [s]\<rparr>) else Some r) bs r"

text \<open>The plain (callback-free) \<^verbatim>\<open>Value\<close> message, which only the contract key of a fetch node
  uses and whose contents nothing reads: whether it decodes at all. Every nested payload is shorter
  than the message around it, so the length of the message is enough fuel.\<close>

definition all_fields :: "(nat \<times> wire \<Rightarrow> bool) \<Rightarrow> byte list \<Rightarrow> bool" where
  "all_fields P bs = (case pb_fields bs of None \<Rightarrow> False | Some fs \<Rightarrow> list_all P fs)"

definition len_ok :: "(byte list \<Rightarrow> bool) \<Rightarrow> wire \<Rightarrow> bool" where
  "len_ok P w = (case w of WLen p \<Rightarrow> P p | _ \<Rightarrow> False)"

definition identifier_ok :: "byte list \<Rightarrow> bool" where
  "identifier_ok bs \<longleftrightarrow> decode_Identifier bs Identifier_init_zero \<noteq> None"

primrec plain_value_ok :: "nat \<Rightarrow> byte list \<Rightarrow> bool" where
  "plain_value_ok 0 bs = (bs = [])"
| "plain_value_ok (Suc n) bs =
     all_fields (\<lambda>(t, w).
       if t = 1 then len_ok (all_fields (\<lambda>_. True)) w
       else if t = 2 then pb_dec_bool w \<noteq> None
       else if t = 3 then pb_dec_sint64 w \<noteq> None
       else if t = 4 then pb_dec_int32 w \<noteq> None
       else if t = 5 then pb_dec_fixed64 w \<noteq> None
       else if t \<in> {6, 7, 8, 9} then pb_dec_string w \<noteq> None
       else if t \<in> {10, 11} then
         len_ok (all_fields (\<lambda>(u, v). if u = 1 then len_ok (plain_value_ok n) v else True)) w
       else if t = 12 then
         len_ok (all_fields (\<lambda>(u, v). if u = 1 then len_ok (all_fields (\<lambda>(x, y).
           if x = 1 then pb_dec_string y \<noteq> None else if x = 2 then len_ok (plain_value_ok n) y else True)) v else True)) w
       else if t = 13 then
         len_ok (all_fields (\<lambda>(u, v). if u = 1 then len_ok (all_fields (\<lambda>(x, y).
           if x \<in> {1, 2} then len_ok (plain_value_ok n) y else True)) v else True)) w
       else if t = 14 then
         len_ok (all_fields (\<lambda>(u, v). if u = 1 then len_ok identifier_ok v
           else if u = 2 then len_ok (all_fields (\<lambda>(x, y).
             if x = 1 then pb_dec_string y \<noteq> None else if x = 2 then len_ok (plain_value_ok n) y else True)) v else True)) w
       else if t = 15 then
         len_ok (all_fields (\<lambda>(u, v). if u = 1 then len_ok identifier_ok v
           else if u = 2 then pb_dec_string v \<noteq> None else if u = 3 then len_ok (plain_value_ok n) v else True)) w
       else if t = 16 then
         len_ok (all_fields (\<lambda>(u, v). if u = 1 then len_ok identifier_ok v
           else if u = 2 then pb_dec_string v \<noteq> None else True)) w
       else True) bs"

definition global_key_ok :: "byte list \<Rightarrow> bool" where
  "global_key_ok bs = all_fields (\<lambda>(t, w).
     if t = 1 then len_ok identifier_ok w
     else if t = 2 then pb_dec_string w \<noteq> None
     else if t = 3 then len_ok (\<lambda>p. plain_value_ok (length p) p) w
     else if t = 4 then pb_dec_bytes w \<noteq> None
     else True) bs"

definition key_with_maintainers_ok :: "byte list \<Rightarrow> bool" where
  "key_with_maintainers_ok bs = all_fields (\<lambda>(t, w).
     if t = 1 then len_ok global_key_ok w
     else if t = 2 then pb_callback_payload w \<noteq> None
     else True) bs"

definition Fetch_field :: "nat \<times> wire \<Rightarrow> Node_Fetch \<Rightarrow> Node_Fetch option" where
  "Fetch_field fw f =
     (let t = fst fw; w = snd fw in
      if t = 1 then put_string w (\<lambda>s. f\<lparr>fe_lf_version := Some s\<rparr>)
      else if t = 2 then put_string w (\<lambda>s. f\<lparr>fe_contract_id := Some s\<rparr>)
      else if t = 3 then put_string w (\<lambda>s. f\<lparr>fe_package_name := Some s\<rparr>)
      else if t = 4 then map_option (\<lambda>i. f\<lparr>fe_has_template_id := True, fe_template_id := i\<rparr>)
                           (pb_dec_submessage decode_Identifier w (fe_template_id f))
      else if t = 5 then put_string w (\<lambda>s. f\<lparr>fe_signatories := fe_signatories f @ [s]\<rparr>)
      else if t = 6 then put_string w (\<lambda>s. f\<lparr>fe_stakeholders := fe_stakeholders f @ [s]\<rparr>)
      else if t = 7 then put_string w (\<lambda>s. f\<lparr>fe_acting_parties := fe_acting_parties f @ [s]\<rparr>)
      else if t = 8 then map_option (\<lambda>i. f\<lparr>fe_interface_id := Some i\<rparr>)
                           (pb_dec_submessage decode_Identifier w Identifier_init_zero)
      else if t = 9 then (if len_ok key_with_maintainers_ok w then Some f else None)
      else if t = 10 then map_option (\<lambda>_. f) (pb_dec_bool w)
      else Some f)"

definition decode_Fetch :: "byte list \<Rightarrow> Node_Fetch \<Rightarrow> Node_Fetch option" where
  "decode_Fetch bs f = pb_decode Fetch_field bs f"

definition decode_NodeSeed :: "byte list \<Rightarrow> NodeSeed \<Rightarrow> NodeSeed option" where
  "decode_NodeSeed bs n =
     pb_decode (\<lambda>fw n.
       if fst fw = 1 then map_option (\<lambda>v. n\<lparr>ns_node_id := v\<rparr>) (pb_dec_int32 (snd fw))
       else if fst fw = 2 then map_option (\<lambda>v. n\<lparr>ns_seed := Some v\<rparr>) (pb_dec_bytes (snd fw))
       else Some n) bs n"

definition DamlTransaction_field :: "nat \<times> wire \<Rightarrow> DamlTransaction \<Rightarrow> DamlTransaction option" where
  "DamlTransaction_field fw tx =
     (let t = fst fw; w = snd fw in
      if t = 1 then put_string w (\<lambda>s. tx\<lparr>tx_version := Some s\<rparr>)
      else if t = 2 then put_string w (\<lambda>s. tx\<lparr>tx_roots := tx_roots tx @ [s]\<rparr>)
      else if t = 3 then map_option (\<lambda>v. tx\<lparr>tx_nodes_count := v\<rparr>) (pb_dec_int32 w)
      else if t = 4 then map_option (\<lambda>n. tx\<lparr>tx_node_seeds := tx_node_seeds tx @ [n]\<rparr>)
                           (pb_dec_submessage decode_NodeSeed w \<lparr>ns_node_id = 0, ns_seed = None\<rparr>)
      else Some tx)"

definition proto_deserialize_daml_tx :: "byte list \<Rightarrow> DamlTransaction option" where
  "proto_deserialize_daml_tx buf = pb_decode DamlTransaction_field buf DamlTransaction_init_zero"

definition SubmitterInfo_field :: "nat \<times> wire \<Rightarrow> SubmitterInfo \<Rightarrow> SubmitterInfo option" where
  "SubmitterInfo_field fw si =
     (if fst fw = 1 then put_string (snd fw) (\<lambda>s. si\<lparr>si_act_as := si_act_as si @ [s]\<rparr>)
      else if fst fw = 2 then put_string (snd fw) (\<lambda>s. si\<lparr>si_command_id := Some s\<rparr>)
      else Some si)"

definition Metadata_field :: "nat \<times> wire \<Rightarrow> Metadata \<Rightarrow> Metadata option" where
  "Metadata_field fw m =
     (let t = fst fw; w = snd fw in
      if t = 2 then map_option (\<lambda>si. m\<lparr>md_submitter_info := si\<rparr>)
                      (pb_dec_submessage (pb_decode SubmitterInfo_field) w (md_submitter_info m))
      else if t = 3 then put_string w (\<lambda>s. m\<lparr>md_synchronizer_id := Some s\<rparr>)
      else if t = 4 then map_option (\<lambda>v. m\<lparr>md_mediator_group := v\<rparr>) (pb_dec_uint32 w)
      else if t = 5 then put_string w (\<lambda>s. m\<lparr>md_transaction_uuid := Some s\<rparr>)
      else if t = 6 then map_option (\<lambda>v. m\<lparr>md_preparation_time := v\<rparr>) (pb_dec_uint64 w)
      else if t = 7 then map_option (\<lambda>v. m\<lparr>md_input_contracts_count := v\<rparr>) (pb_dec_int32 w)
      else if t = 9 then map_option (\<lambda>v. m\<lparr>md_min_ledger_effective_time := Some v\<rparr>) (pb_dec_uint64 w)
      else if t = 10 then map_option (\<lambda>v. m\<lparr>md_max_ledger_effective_time := Some v\<rparr>) (pb_dec_uint64 w)
      else Some m)"

definition proto_deserialize_metadata :: "byte list \<Rightarrow> Metadata option" where
  "proto_deserialize_metadata buf = pb_decode Metadata_field buf Metadata_init_zero"

end
