(* ===== verification/Node_Tree.thy ===== *)
theory Node_Tree
  imports Utils
begin

text \<open>
  \<^verbatim>\<open>node_tree_check.c\<close>: while node parts arrive, the app records which node ids it has
  seen and which ids a parent (or the header) claimed; the first inconsistency is kept. The static
  \<^verbatim>\<open>check_ctx\<close> is the record below, passed explicitly. The tracking array is a list;
  \<^verbatim>\<open>nodes == NULL\<close> is the empty list, which is exactly the case
  \<^verbatim>\<open>nodes_count == 0\<close>. The allocation in \<^verbatim>\<open>tree_check_init\<close> may fail: its
  outcome is the argument \<^term>\<open>mem_ok\<close>.
\<close>

section \<open>State and operations\<close>

datatype tree_error =
    TREE_OK
  | TREE_ERR_NODE_ID_OUT_OF_RANGE
  | TREE_ERR_DUPLICATE_NODE
  | TREE_ERR_CHILD_OUT_OF_RANGE
  | TREE_ERR_SELF_CHILD
  | TREE_ERR_ROOT_CLAIMED
  | TREE_ERR_DUPLICATE_CLAIM
  | TREE_ERR_ROOT_COUNT
  | TREE_ERR_ORPHAN_NODE
  | TREE_ERR_MISSING_CHILD
  | TREE_ERR_TOO_MANY_NODES
  | TREE_ERR_NO_MEMORY

record node_check =
  seen :: bool
  claimed :: bool

record tree_check_context =
  nodes :: "node_check list"
  root_id :: int
  nodes_count :: int
  tree_err :: tree_error

definition set_tree_error :: "tree_error \<Rightarrow> tree_check_context \<Rightarrow> tree_check_context" where
  "set_tree_error err c = (if tree_err c = TREE_OK then c\<lparr>tree_err := err\<rparr> else c)"

definition node_id_from_str :: "string \<Rightarrow> int" where
  "node_id_from_str str =
     (if str = [] \<or> length str > 3 then -1
      else if \<not> list_all is_digit str then -1
      else atoint str)"

definition tree_check_reset :: tree_check_context where
  "tree_check_reset = \<lparr>nodes = [], root_id = -1, nodes_count = 0, tree_err = TREE_OK\<rparr>"

definition tree_check_init ::
  "bool \<Rightarrow> string list \<Rightarrow> int \<Rightarrow> bool \<times> tree_check_context" where
  "tree_check_init mem_ok roots count =
     (let c0 = tree_check_reset in
      if count < 0 \<or> count > MAX_TX_NODES then (False, set_tree_error TREE_ERR_TOO_MANY_NODES c0)
      else if length roots \<noteq> 1 then (False, set_tree_error TREE_ERR_ROOT_COUNT c0)
      else if \<not> mem_ok then (False, set_tree_error TREE_ERR_NO_MEMORY c0)
      else
        (let c1 = c0\<lparr>nodes := replicate (nat count) \<lparr>seen = False, claimed = False\<rparr>, nodes_count := count\<rparr>;
             root = node_id_from_str (hd roots)
         in if root < 0 \<or> root \<ge> count
            then (False, set_tree_error TREE_ERR_NODE_ID_OUT_OF_RANGE c1)
            else (True, c1\<lparr>root_id := root,
                           nodes := (nodes c1)[nat root := (nodes c1 ! nat root)\<lparr>claimed := True\<rparr>]\<rparr>)))"

definition tree_mark_seen :: "int \<Rightarrow> tree_check_context \<Rightarrow> tree_check_context" where
  "tree_mark_seen node_id c =
     (if node_id < 0 \<or> node_id \<ge> nodes_count c then set_tree_error TREE_ERR_NODE_ID_OUT_OF_RANGE c
      else if seen (nodes c ! nat node_id) then set_tree_error TREE_ERR_DUPLICATE_NODE c
      else c\<lparr>nodes := (nodes c)[nat node_id := (nodes c ! nat node_id)\<lparr>seen := True\<rparr>]\<rparr>)"

fun tree_claim_children :: "int \<Rightarrow> string list \<Rightarrow> tree_check_context \<Rightarrow> tree_check_context" where
  "tree_claim_children parent_id [] c = c"
| "tree_claim_children parent_id (child # children) c =
     (let child_id = node_id_from_str child in
      if child_id < 0 \<or> child_id \<ge> nodes_count c then set_tree_error TREE_ERR_CHILD_OUT_OF_RANGE c
      else if child_id = parent_id then set_tree_error TREE_ERR_SELF_CHILD c
      else if child_id = root_id c then set_tree_error TREE_ERR_ROOT_CLAIMED c
      else if claimed (nodes c ! nat child_id) then set_tree_error TREE_ERR_DUPLICATE_CLAIM c
      else tree_claim_children parent_id children
             (c\<lparr>nodes := (nodes c)[nat child_id := (nodes c ! nat child_id)\<lparr>claimed := True\<rparr>]\<rparr>))"

fun tree_sweep :: "node_check list \<Rightarrow> tree_check_context \<Rightarrow> tree_check_context" where
  "tree_sweep [] c = c"
| "tree_sweep (n # ns) c =
     (if seen n \<and> \<not> claimed n then set_tree_error TREE_ERR_ORPHAN_NODE c
      else if \<not> seen n \<and> claimed n then set_tree_error TREE_ERR_MISSING_CHILD c
      else tree_sweep ns c)"

definition tree_verify_complete :: "tree_check_context \<Rightarrow> tree_error \<times> tree_check_context" where
  "tree_verify_complete c =
     (let c' = tree_sweep (nodes c) c
      in (tree_err c', c'\<lparr>nodes := [], nodes_count := 0\<rparr>))"

definition tree_can_clear_sign :: "tree_check_context \<Rightarrow> bool" where
  "tree_can_clear_sign c \<longleftrightarrow> tree_err c = TREE_OK"

fun tree_error_is_impossible :: "tree_error \<Rightarrow> bool" where
  "tree_error_is_impossible TREE_ERR_NODE_ID_OUT_OF_RANGE = True"
| "tree_error_is_impossible TREE_ERR_DUPLICATE_NODE = True"
| "tree_error_is_impossible TREE_ERR_CHILD_OUT_OF_RANGE = True"
| "tree_error_is_impossible TREE_ERR_SELF_CHILD = True"
| "tree_error_is_impossible TREE_ERR_ROOT_CLAIMED = True"
| "tree_error_is_impossible TREE_ERR_DUPLICATE_CLAIM = True"
| "tree_error_is_impossible _ = False"

interpretation te: first_error TREE_OK tree_err set_tree_error
  by unfold_locales (simp add: set_tree_error_def)

section \<open>Well-formedness\<close>

definition tree_wf :: "tree_check_context \<Rightarrow> bool" where
  "tree_wf c \<longleftrightarrow> 0 \<le> nodes_count c \<and> nodes_count c \<le> MAX_TX_NODES \<and> length (nodes c) = nat (nodes_count c)"

text \<open>The two sets the tracking array stands for.\<close>

definition seen_ids :: "tree_check_context \<Rightarrow> int set" where
  "seen_ids c = {i. 0 \<le> i \<and> i < nodes_count c \<and> seen (nodes c ! nat i)}"

definition claimed_ids :: "tree_check_context \<Rightarrow> int set" where
  "claimed_ids c = {i. 0 \<le> i \<and> i < nodes_count c \<and> claimed (nodes c ! nat i)}"

definition in_range :: "tree_check_context \<Rightarrow> int \<Rightarrow> bool" where
  "in_range c i \<longleftrightarrow> 0 \<le> i \<and> i < nodes_count c"

lemma set_tree_error_frame [frame_simps, simp]:
  "nodes (set_tree_error e c) = nodes c" "nodes_count (set_tree_error e c) = nodes_count c"
  "root_id (set_tree_error e c) = root_id c"
  by (simp_all add: set_tree_error_def)

lemma set_tree_error_eq_OK [simp]:
  "e \<noteq> TREE_OK \<Longrightarrow> tree_err (set_tree_error e c) \<noteq> TREE_OK"
  by (rule te.raise_sets)

lemma node_id_from_str_range: "node_id_from_str s = -1 \<or> 0 \<le> node_id_from_str s \<and> node_id_from_str s \<le> 999"
proof (cases "s = [] \<or> length s > 3 \<or> \<not> list_all is_digit s")
  case True
  then show ?thesis by (auto simp: node_id_from_str_def)
next
  case False
  then have "list_all is_digit s" "length s \<le> 3" by auto
  then have "0 \<le> dec_val s" "dec_val s < 10 ^ length s" "(10::int) ^ length s \<le> 10 ^ 3"
    using dec_val_range [of s] power_increasing [of "length s" 3 "10::int"] by auto
  then have "0 \<le> dec_val s \<and> dec_val s \<le> 999" by simp
  then show ?thesis
    using False by (auto simp: node_id_from_str_def atoint_eq_dec_val)
qed

lemma tree_init_wf: "tree_wf (snd (tree_check_init mem_ok roots n))"
  by (auto simp: tree_wf_def tree_check_init_def tree_check_reset_def Let_def)

lemma tree_mark_seen_wf: "tree_wf c \<Longrightarrow> tree_wf (tree_mark_seen i c)"
  by (auto simp: tree_wf_def tree_mark_seen_def)

lemma tree_claim_children_wf: "tree_wf c \<Longrightarrow> tree_wf (tree_claim_children p cs c)"
  by (induction p cs c rule: tree_claim_children.induct) (auto simp: tree_wf_def Let_def)

lemma tree_claim_children_frame [frame_simps, simp]:
  "nodes_count (tree_claim_children p cs c) = nodes_count c"
  "root_id (tree_claim_children p cs c) = root_id c"
  by (induction p cs c rule: tree_claim_children.induct) (auto simp: Let_def)

lemma tree_mark_seen_frame [frame_simps, simp]:
  "nodes_count (tree_mark_seen i c) = nodes_count c" "root_id (tree_mark_seen i c) = root_id c"
  by (auto simp: tree_mark_seen_def)

section \<open>The operations on the two sets\<close>

lemma nth_update_int:
  assumes "length xs = nat n" "0 \<le> i" "i < n" "0 \<le> j" "j < n"
  shows "xs[nat i := x] ! nat j = (if i = j then x else xs ! nat j)"
  using assms by (auto simp: nth_list_update)

lemma mark_seen_sets:
  assumes "tree_wf c" "in_range c i" "i \<notin> seen_ids c"
  shows "seen_ids (tree_mark_seen i c) = insert i (seen_ids c)"
    and "claimed_ids (tree_mark_seen i c) = claimed_ids c"
    and "tree_err (tree_mark_seen i c) = tree_err c"
  using assms
  by (auto simp: tree_mark_seen_def seen_ids_def claimed_ids_def in_range_def tree_wf_def
      nth_update_int split: if_splits)

lemma mark_seen_err:
  assumes "\<not> in_range c i \<or> i \<in> seen_ids c"
  shows "tree_err (tree_mark_seen i c) \<noteq> TREE_OK"
  using assms by (auto simp: tree_mark_seen_def seen_ids_def in_range_def)

lemma mark_seen_sticky: "tree_err c \<noteq> TREE_OK \<Longrightarrow> tree_err (tree_mark_seen i c) = tree_err c"
  by (simp add: tree_mark_seen_def te.raise_sticky)

lemma claim_children_sticky:
  "tree_err c \<noteq> TREE_OK \<Longrightarrow> tree_err (tree_claim_children p cs c) = tree_err c"
  by (induction p cs c rule: tree_claim_children.induct) (simp_all add: te.raise_sticky Let_def)

text \<open>When a claim list is acceptable: in range, not the parent, not the root, not claimed before and
  without repetition.\<close>

definition claims_ok :: "int \<Rightarrow> int list \<Rightarrow> tree_check_context \<Rightarrow> bool" where
  "claims_ok p ids c \<longleftrightarrow>
     set ids \<subseteq> Collect (in_range c) - insert p (insert (root_id c) (claimed_ids c)) \<and> distinct ids"

lemma claim_one:
  assumes "tree_wf c" "in_range c i"
  defines "c' \<equiv> c\<lparr>nodes := (nodes c)[nat i := (nodes c ! nat i)\<lparr>claimed := True\<rparr>]\<rparr>"
  shows "seen_ids c' = seen_ids c" "claimed_ids c' = insert i (claimed_ids c)" "tree_wf c'"
    "in_range c' = in_range c" "root_id c' = root_id c" "tree_err c' = tree_err c"
  using assms
  by (auto simp: seen_ids_def claimed_ids_def in_range_def tree_wf_def nth_update_int fun_eq_iff
      split: if_splits)

lemma claim_children_step:
  assumes "in_range c (node_id_from_str x)" "node_id_from_str x \<noteq> p" "node_id_from_str x \<noteq> root_id c"
    "node_id_from_str x \<notin> claimed_ids c"
  shows "tree_claim_children p (x # xs) c = tree_claim_children p xs
     (c\<lparr>nodes := (nodes c)[nat (node_id_from_str x) := (nodes c ! nat (node_id_from_str x))\<lparr>claimed := True\<rparr>]\<rparr>)"
  using assms by (simp add: Let_def in_range_def claimed_ids_def)

lemma claim_children_bad:
  assumes "\<not> (in_range c (node_id_from_str x) \<and> node_id_from_str x \<noteq> p \<and> node_id_from_str x \<noteq> root_id c \<and>
    node_id_from_str x \<notin> claimed_ids c)"
  shows "tree_err (tree_claim_children p (x # xs) c) \<noteq> TREE_OK"
  using assms by (auto simp: Let_def in_range_def claimed_ids_def)

lemma claim_children_iff:
  assumes "tree_wf c" "tree_err c = TREE_OK"
  shows "tree_err (tree_claim_children p cs c) = TREE_OK \<longleftrightarrow> claims_ok p (map node_id_from_str cs) c"
  using assms
proof (induction cs arbitrary: c)
  case Nil
  then show ?case by (simp add: claims_ok_def)
next
  case (Cons x xs)
  let ?i = "node_id_from_str x"
  let ?good = "in_range c ?i \<and> ?i \<noteq> p \<and> ?i \<noteq> root_id c \<and> ?i \<notin> claimed_ids c"
  show ?case
  proof (cases ?good)
    case True
    define c' where "c' = c\<lparr>nodes := (nodes c)[nat ?i := (nodes c ! nat ?i)\<lparr>claimed := True\<rparr>]\<rparr>"
    note one = claim_one [OF Cons.prems(1), of ?i, folded c'_def]
    have "tree_err (tree_claim_children p (x # xs) c) = TREE_OK \<longleftrightarrow> claims_ok p (map node_id_from_str xs) c'"
      using Cons.IH [of c'] Cons.prems one True claim_children_step [of c x p xs]
      by (simp add: c'_def)
    also have "\<dots> \<longleftrightarrow> claims_ok p (map node_id_from_str (x # xs)) c"
      using True one by (auto simp: claims_ok_def image_iff)
    finally show ?thesis .
  next
    case False
    then show ?thesis
      using claim_children_bad [of c x p xs] by (auto simp: claims_ok_def simp del: tree_claim_children.simps)
  qed
qed

lemma claim_children_sets:
  assumes "tree_wf c" "claims_ok p (map node_id_from_str cs) c"
  shows "claimed_ids (tree_claim_children p cs c) = claimed_ids c \<union> node_id_from_str ` set cs \<and>
    seen_ids (tree_claim_children p cs c) = seen_ids c"
  using assms
proof (induction cs arbitrary: c)
  case (Cons x xs)
  let ?i = "node_id_from_str x"
  define c' where "c' = c\<lparr>nodes := (nodes c)[nat ?i := (nodes c ! nat ?i)\<lparr>claimed := True\<rparr>]\<rparr>"
  have good: "in_range c ?i" "?i \<noteq> p" "?i \<noteq> root_id c" "?i \<notin> claimed_ids c"
    using Cons.prems by (auto simp: claims_ok_def)
  note one = claim_one [OF Cons.prems(1) good(1), folded c'_def]
  have ok: "claims_ok p (map node_id_from_str xs) c'"
    using Cons.prems one by (auto simp: claims_ok_def image_iff)
  have step: "tree_claim_children p (x # xs) c = tree_claim_children p xs c'"
    using claim_children_step [OF good] by (simp add: c'_def)
  show ?case
    using Cons.IH [OF one(3) ok] one(1,2) step by auto
qed auto

lemma tree_sweep_err:
  assumes "tree_err c = TREE_OK"
  shows "tree_err (tree_sweep ns c) = TREE_OK \<longleftrightarrow> list_all (\<lambda>n. seen n = claimed n) ns"
  using assms by (induction ns) auto

lemma tree_sweep_sticky: "tree_err c \<noteq> TREE_OK \<Longrightarrow> tree_err (tree_sweep ns c) = tree_err c"
  by (induction ns) (auto simp: te.raise_sticky)

lemma tree_verify_complete_iff:
  assumes "tree_wf c"
  shows "fst (tree_verify_complete c) = TREE_OK \<longleftrightarrow> tree_err c = TREE_OK \<and> seen_ids c = claimed_ids c"
proof -
  have "list_all (\<lambda>n. seen n = claimed n) (nodes c) \<longleftrightarrow>
      (\<forall>i. 0 \<le> i \<longrightarrow> i < nodes_count c \<longrightarrow> seen (nodes c ! nat i) = claimed (nodes c ! nat i))"
    (is "?l \<longleftrightarrow> ?r")
  proof
    assume ?l
    then show ?r
      using assms by (simp add: list_all_length tree_wf_def)
  next
    assume r: ?r
    have "seen (nodes c ! k) = claimed (nodes c ! k)" if "k < length (nodes c)" for k
      using that assms r [rule_format, of "int k"] by (simp add: tree_wf_def)
    then show ?l
      by (simp add: list_all_length)
  qed
  also have "\<dots> \<longleftrightarrow> seen_ids c = claimed_ids c"
    unfolding seen_ids_def claimed_ids_def set_eq_iff by blast
  finally have "list_all (\<lambda>n. seen n = claimed n) (nodes c) \<longleftrightarrow> seen_ids c = claimed_ids c" .
  then show ?thesis
    by (cases "tree_err c = TREE_OK")
       (auto simp: tree_verify_complete_def Let_def tree_sweep_err tree_sweep_sticky)
qed

section \<open>A whole transaction\<close>

text \<open>One node part, in the order \<^verbatim>\<open>proto_deserialize_node\<close> performs the calls: the
  children are claimed while the node is decoded, the node itself is marked once it is decoded.\<close>

definition tree_part :: "int \<times> string list \<Rightarrow> tree_check_context \<Rightarrow> tree_check_context" where
  "tree_part part c = tree_mark_seen (fst part) (tree_claim_children (fst part) (snd part) c)"

definition tree_run :: "(int \<times> string list) list \<Rightarrow> tree_check_context \<Rightarrow> tree_check_context" where
  "tree_run parts c = fold tree_part parts c"

text \<open>The specification: node ids are distinct and in range, every id except the root is the child of
  exactly one part, nothing is its own child, and every child arrives.\<close>

definition part_children :: "int \<times> string list \<Rightarrow> int list" where
  "part_children part = map node_id_from_str (snd part)"

definition all_children :: "(int \<times> string list) list \<Rightarrow> int list" where
  "all_children parts = concat (map part_children parts)"

definition tree_spec :: "int \<Rightarrow> int \<Rightarrow> (int \<times> string list) list \<Rightarrow> bool" where
  "tree_spec root n parts \<longleftrightarrow>
     distinct (map fst parts) \<and> list_all (\<lambda>i. 0 \<le> i \<and> i < n) (map fst parts) \<and>
     distinct (root # all_children parts) \<and>
     list_all (\<lambda>part. fst part \<notin> set (part_children part)) parts \<and>
     set (map fst parts) = set (root # all_children parts)"

text \<open>What one part needs of the state, and what it does to the two sets.\<close>

definition part_ok :: "tree_check_context \<Rightarrow> int \<times> string list \<Rightarrow> bool" where
  "part_ok c part \<longleftrightarrow> claims_ok (fst part) (part_children part) c \<and> in_range c (fst part) \<and> fst part \<notin> seen_ids c"

lemma tree_part_wf: "tree_wf c \<Longrightarrow> tree_wf (tree_part part c)"
  by (simp add: tree_part_def tree_mark_seen_wf tree_claim_children_wf)

lemma tree_part_frame [frame_simps, simp]:
  "nodes_count (tree_part part c) = nodes_count c" "root_id (tree_part part c) = root_id c"
  by (simp_all add: tree_part_def)

lemma tree_part_sticky: "tree_err c \<noteq> TREE_OK \<Longrightarrow> tree_err (tree_part part c) = tree_err c"
  by (simp add: tree_part_def mark_seen_sticky claim_children_sticky)

lemma tree_run_sticky: "tree_err c \<noteq> TREE_OK \<Longrightarrow> tree_err (tree_run parts c) = tree_err c"
  by (induction parts arbitrary: c) (auto simp: tree_run_def tree_part_sticky)

lemma tree_part_iff:
  assumes "tree_wf c" "tree_err c = TREE_OK"
  shows "tree_err (tree_part part c) = TREE_OK \<longleftrightarrow> part_ok c part"
proof -
  let ?c = "tree_claim_children (fst part) (snd part) c"
  have claim: "tree_err ?c = TREE_OK \<longleftrightarrow> claims_ok (fst part) (part_children part) c"
    using claim_children_iff [OF assms] by (simp add: part_children_def)
  show ?thesis
  proof (cases "claims_ok (fst part) (part_children part) c")
    case True
    have wf: "tree_wf ?c" using assms by (simp add: tree_claim_children_wf)
    have sets: "seen_ids ?c = seen_ids c" "in_range ?c = in_range c"
      using claim_children_sets [OF assms(1)] True
      by (auto simp: part_children_def in_range_def fun_eq_iff)
    show ?thesis
      using True claim wf sets mark_seen_sets(3) [OF wf] mark_seen_err [of ?c "fst part"]
      by (auto simp: tree_part_def part_ok_def)
  next
    case False
    then show ?thesis
      using claim by (auto simp: tree_part_def part_ok_def mark_seen_sticky)
  qed
qed

lemma tree_part_sets:
  assumes "tree_wf c" "part_ok c part"
  shows "seen_ids (tree_part part c) = insert (fst part) (seen_ids c)"
    and "claimed_ids (tree_part part c) = claimed_ids c \<union> set (part_children part)"
proof -
  let ?c = "tree_claim_children (fst part) (snd part) c"
  have sets: "seen_ids ?c = seen_ids c" "in_range ?c = in_range c"
      "claimed_ids ?c = claimed_ids c \<union> set (part_children part)"
    using claim_children_sets [OF assms(1)] assms(2)
    by (auto simp: part_children_def in_range_def fun_eq_iff part_ok_def)
  with mark_seen_sets [of ?c "fst part"] assms
  show "seen_ids (tree_part part c) = insert (fst part) (seen_ids c)"
    "claimed_ids (tree_part part c) = claimed_ids c \<union> set (part_children part)"
    by (auto simp: tree_part_def part_ok_def tree_claim_children_wf)
qed

text \<open>Running all parts: the error stays clear exactly when the remaining parts are consistent with
  what was seen and claimed before.\<close>

definition run_ok :: "tree_check_context \<Rightarrow> (int \<times> string list) list \<Rightarrow> bool" where
  "run_ok c parts \<longleftrightarrow>
     distinct (map fst parts) \<and> set (map fst parts) \<subseteq> Collect (in_range c) - seen_ids c \<and>
     distinct (all_children parts) \<and>
     set (all_children parts) \<subseteq> Collect (in_range c) - insert (root_id c) (claimed_ids c) \<and>
     list_all (\<lambda>part. fst part \<notin> set (part_children part)) parts"

lemma all_children_simps [simp]:
  "all_children [] = []" "all_children (part # parts) = part_children part @ all_children parts"
  by (simp_all add: all_children_def)

lemma run_ok_Cons:
  assumes "tree_wf c"
  shows "run_ok c (part # parts) \<longleftrightarrow> part_ok c part \<and> run_ok (tree_part part c) parts"
proof (cases "part_ok c part")
  case True
  have "in_range (tree_part part c) = in_range c" by (simp add: in_range_def fun_eq_iff)
  with True show ?thesis
    unfolding run_ok_def part_ok_def claims_ok_def
    by (simp add: tree_part_sets [OF assms True] subset_Diff_insert subset_Diff_Un_iff Un_subset_iff)
       blast
next
  case False
  then show ?thesis
    unfolding run_ok_def part_ok_def claims_ok_def
    by (simp add: subset_Diff_insert) blast
qed

lemma tree_run_iff:
  assumes "tree_wf c" "tree_err c = TREE_OK"
  shows "tree_err (tree_run parts c) = TREE_OK \<longleftrightarrow> run_ok c parts"
  using assms
proof (induction parts arbitrary: c)
  case Nil
  then show ?case by (simp add: tree_run_def run_ok_def)
next
  case (Cons part parts)
  have run: "tree_run (part # parts) c = tree_run parts (tree_part part c)"
    by (simp add: tree_run_def)
  show ?case
  proof (cases "part_ok c part")
    case True
    then show ?thesis
      using Cons run_ok_Cons [of c part parts] tree_part_iff [of c part]
      by (simp add: run tree_part_wf)
  next
    case False
    then have "tree_err (tree_part part c) \<noteq> TREE_OK"
      using Cons.prems tree_part_iff by blast
    then show ?thesis
      using False Cons.prems run_ok_Cons [of c part parts] by (simp add: run tree_run_sticky)
  qed
qed

lemma tree_run_sets:
  assumes "tree_wf c" "run_ok c parts"
  shows "seen_ids (tree_run parts c) = seen_ids c \<union> set (map fst parts) \<and>
    claimed_ids (tree_run parts c) = claimed_ids c \<union> set (all_children parts) \<and> tree_wf (tree_run parts c)"
  using assms
proof (induction parts arbitrary: c)
  case (Cons part parts)
  then have "part_ok c part" "run_ok (tree_part part c) parts"
    using run_ok_Cons by blast+
  with Cons show ?case
    by (auto simp: tree_run_def tree_part_sets tree_part_wf all_children_def)
qed (auto simp: tree_run_def all_children_def)

lemma tree_spec_child_range:
  assumes "tree_spec root n parts" "i \<in> set (all_children parts)"
  shows "0 \<le> i \<and> i < n"
proof -
  have "i \<in> set (map fst parts)"
    using assms by (simp add: tree_spec_def)
  then show ?thesis
    using assms unfolding tree_spec_def list_all_iff by blast
qed

lemma tree_init_OK:
  assumes "tree_check_init mem_ok roots n = (True, c)"
  shows "tree_wf c" "tree_err c = TREE_OK" "seen_ids c = {}" "claimed_ids c = {node_id_from_str (hd roots)}"
    "root_id c = node_id_from_str (hd roots)" "nodes_count c = n" "0 \<le> root_id c" "root_id c < n"
  using assms
  by (auto simp: tree_check_init_def tree_check_reset_def Let_def tree_wf_def seen_ids_def claimed_ids_def
      nth_list_update set_tree_error_def split: if_splits)

lemma run_ok_init_spec:
  assumes "tree_check_init mem_ok roots n = (True, c)"
  shows "run_ok c parts \<and> set (map fst parts) = set (root_id c # all_children parts) \<longleftrightarrow> tree_spec (root_id c) n parts"
proof -
  have range: "Collect (in_range c) = {i. 0 \<le> i \<and> i < n}" "seen_ids c = {}" "claimed_ids c = {root_id c}"
    using tree_init_OK [OF assms] by (auto simp: in_range_def)
  have ids: "set (map fst parts) \<subseteq> {i. 0 \<le> i \<and> i < n} \<longleftrightarrow> list_all (\<lambda>i. 0 \<le> i \<and> i < n) (map fst parts)"
    by (auto simp: list_all_iff)
  have kids: "set (all_children parts) \<subseteq> {i. 0 \<le> i \<and> i < n} - {root_id c} \<longleftrightarrow> root_id c \<notin> set (all_children parts)"
    if "set (map fst parts) \<subseteq> {i. 0 \<le> i \<and> i < n}" "set (map fst parts) = set (root_id c # all_children parts)"
    using that by (auto simp: subset_iff)
  show ?thesis
    unfolding run_ok_def tree_spec_def range using ids kids
    by (simp only: insert_absorb2 Diff_empty distinct.simps) blast
qed

lemma tree_verdict_iff_spec:
  assumes "tree_check_init mem_ok roots n = (True, c)"
  shows "fst (tree_verify_complete (tree_run parts c)) = TREE_OK \<longleftrightarrow> tree_spec (node_id_from_str (hd roots)) n parts"
proof -
  note init = tree_init_OK [OF assms]
  note spec = run_ok_init_spec [OF assms, of parts]
  show ?thesis
  proof (cases "run_ok c parts")
    case True
    then show ?thesis
      using tree_run_sets [OF init(1) True] tree_run_iff [OF init(1,2), of parts] spec init(3-5)
      by (simp add: tree_verify_complete_iff)
  next
    case False
    then have "tree_err (tree_run parts c) \<noteq> TREE_OK"
      using tree_run_iff [OF init(1,2)] by blast
    then have "fst (tree_verify_complete (tree_run parts c)) \<noteq> TREE_OK"
      by (simp add: tree_verify_complete_def Let_def tree_sweep_sticky)
    then show ?thesis
      using False spec init(5) by simp
  qed
qed

section \<open>Reachability from the root\<close>

definition child_rel :: "(int \<times> string list) list \<Rightarrow> (int \<times> int) set" where
  "child_rel parts = {(fst part, i) | part i. part \<in> set parts \<and> i \<in> set (part_children part)}"

text \<open>Children arrive before the part that claims them.\<close>

definition children_first :: "(int \<times> string list) list \<Rightarrow> bool" where
  "children_first parts \<longleftrightarrow>
     list_all (\<lambda>k. set (part_children (parts ! k)) \<subseteq> set (map fst (take k parts))) [0..<length parts]"

lemma tree_spec_parent:
  assumes "tree_spec root n parts" "children_first parts" "j < length parts" "fst (parts ! j) \<noteq> root"
  shows "\<exists>k < length parts. j < k \<and> (fst (parts ! k), fst (parts ! j)) \<in> child_rel parts"
proof -
  have "fst (parts ! j) \<in> set (map fst parts)"
    using assms(3) by simp
  then have "fst (parts ! j) \<in> set (all_children parts)"
    using assms(1,4) unfolding tree_spec_def by auto
  then obtain part where part: "part \<in> set parts" "fst (parts ! j) \<in> set (part_children part)"
    by (auto simp: all_children_def)
  then obtain k where k: "k < length parts" "part = parts ! k"
    by (auto simp: in_set_conv_nth)
  with part assms(2) have "fst (parts ! j) \<in> set (map fst (take k parts))"
    by (auto simp: children_first_def list_all_iff)
  then obtain i where i: "i < k" "fst (parts ! i) = fst (parts ! j)"
    using k by (auto simp: in_set_conv_nth)
  have "distinct (map fst parts)"
    using assms(1) by (simp add: tree_spec_def)
  then have "i = j"
    using nth_eq_iff_index_eq [of "map fst parts" i j] i k assms(3) by simp
  moreover have "(fst (parts ! k), fst (parts ! j)) \<in> child_rel parts"
    using k part unfolding child_rel_def by blast
  ultimately show ?thesis
    using i(1) k(1) by blast
qed

lemma tree_spec_reachable:
  assumes "tree_spec root n parts" "children_first parts" "i \<in> set (map fst parts)"
  shows "(root, i) \<in> (child_rel parts)\<^sup>*"
proof -
  have "(root, fst (parts ! j)) \<in> (child_rel parts)\<^sup>*" if "j < length parts" for j
    using that
  proof (induction "length parts - j" arbitrary: j rule: less_induct)
    case less
    show ?case
    proof (cases "fst (parts ! j) = root")
      case False
      then obtain k where "k < length parts" "j < k" "(fst (parts ! k), fst (parts ! j)) \<in> child_rel parts"
        using tree_spec_parent [OF assms(1,2) less.prems] by blast
      then show ?thesis
        using less.hyps [of k] less.prems by (meson diff_less_mono2 rtrancl.rtrancl_into_rtrancl)
    qed simp
  qed
  moreover obtain part where "part \<in> set parts" "i = fst part"
    using assms(3) by auto
  moreover from this obtain j where "j < length parts" "part = parts ! j"
    by (metis in_set_conv_nth)
  ultimately show ?thesis by simp
qed

lemma tree_spec_unique_parent:
  assumes "tree_spec root n parts" "(p, i) \<in> child_rel parts" "(q, i) \<in> child_rel parts"
  shows "p = q"
proof -
  obtain a b where ab: "a \<in> set parts" "b \<in> set parts" "fst a = p" "fst b = q"
    "i \<in> set (part_children a)" "i \<in> set (part_children b)"
    using assms by (auto simp: child_rel_def)
  then obtain j k where jk: "j < length parts" "a = parts ! j" "k < length parts" "b = parts ! k"
    by (auto simp: in_set_conv_nth)
  have "distinct (concat (map part_children parts))"
    using assms by (simp add: tree_spec_def all_children_def)
  then have "j = k"
    using distinct_concat_unique [of "map part_children parts" j k i] jk ab by simp
  with jk ab show ?thesis by simp
qed

section \<open>Properties\<close>

text \<open>C12. After a successful \<^verbatim>\<open>tree_check_init\<close>, the final verdict is
  \<^verbatim>\<open>TREE_OK\<close> exactly when the node parts have distinct ids in range, every id but the root's
  is claimed by exactly one part, no part claims itself or the root, and the ids that arrived are
  exactly the ids that were claimed. Nothing else is accepted and nothing of that shape is refused.\<close>

theorem tree_verdict_exact:
  assumes "tree_check_init mem_ok roots n = (True, c)"
  shows "fst (tree_verify_complete (tree_run parts c)) = TREE_OK \<longleftrightarrow>
    tree_spec (node_id_from_str (hd roots)) n parts"
  by (rule tree_verdict_iff_spec [OF assms])

theorem tree_verdict_exact_witness:
  "fst (tree_verify_complete (tree_run [(2, []), (1, [''2'']), (0, [''1''])]
     (snd (tree_check_init True [''0''] 3)))) = TREE_OK \<longleftrightarrow> tree_spec 0 3 [(2, []), (1, [''2'']), (0, [''1''])]"
proof -
  have "tree_check_init True [''0''] 3 = (True, snd (tree_check_init True [''0''] 3))" "node_id_from_str ''0'' = 0"
    by code_simp+
  then show ?thesis
    using tree_verdict_exact [of True "[''0'']" 3 _ "[(2, []), (1, [''2'']), (0, [''1''])]"] by simp
qed

text \<open>C11. When the verdict is \<^verbatim>\<open>TREE_OK\<close> and every part arrived after the children it
  claims (the order the node hash store forces), the payload really is one tree: every node that
  arrived is reachable from the root along the declared children, and has only one parent.\<close>

theorem tree_ok_is_one_tree:
  assumes "tree_check_init mem_ok roots n = (True, c)"
    and "fst (tree_verify_complete (tree_run parts c)) = TREE_OK"
    and "children_first parts"
    and "i \<in> set (map fst parts)"
  shows "(node_id_from_str (hd roots), i) \<in> (child_rel parts)\<^sup>* \<and>
    (\<forall>p q. (p, i) \<in> child_rel parts \<longrightarrow> (q, i) \<in> child_rel parts \<longrightarrow> p = q)"
  using assms tree_verdict_iff_spec [OF assms(1)] tree_spec_reachable tree_spec_unique_parent by blast

theorem tree_ok_is_one_tree_witness:
  "(0, 2) \<in> (child_rel [(2, []), (1, [''2'']), (0, [''1''])])\<^sup>*"
proof -
  have "tree_check_init True [''0''] 3 = (True, snd (tree_check_init True [''0''] 3))" "node_id_from_str ''0'' = 0"
    "fst (tree_verify_complete (tree_run [(2, []), (1, [''2'']), (0, [''1''])]
       (snd (tree_check_init True [''0''] 3)))) = TREE_OK"
    "children_first [(2, []), (1, [''2'']), (0, [''1''])]"
    by code_simp+
  then show ?thesis
    using tree_ok_is_one_tree [of True "[''0'']" 3 "snd (tree_check_init True [''0''] 3)"
        "[(2, []), (1, [''2'']), (0, [''1''])]" 2] by simp
qed


text \<open>The first error is the one reported: once an error is cached, no later node part and no
  final sweep changes it, so an impossible tree can never be downgraded to a merely unexpected one.\<close>

theorem tree_first_error_kept:
  assumes "tree_err c \<noteq> TREE_OK"
  shows "fst (tree_verify_complete (tree_run parts c)) = tree_err c"
  using assms by (simp add: tree_verify_complete_def Let_def tree_sweep_sticky tree_run_sticky)

theorem tree_first_error_kept_witness:
  "fst (tree_verify_complete (tree_run [(0, [])] (snd (tree_check_init True [''7''] 3)))) = TREE_ERR_NODE_ID_OUT_OF_RANGE"
proof -
  have "tree_err (snd (tree_check_init True [''7''] 3)) = TREE_ERR_NODE_ID_OUT_OF_RANGE"
    by code_simp
  then show ?thesis
    using tree_first_error_kept [of "snd (tree_check_init True [''7''] 3)" "[(0, [])]"] by simp
qed

end
