(* ===== verification/Display_Config.thy ===== *)
theory Display_Config
  imports Prelude
begin

text \<open>
  \<^verbatim>\<open>pb_node_display_definitions.h\<close> and \<^verbatim>\<open>pb_node_display_config.c\<close>: the
  types of the display configuration and the configuration itself, one entry per screen the app can
  show. A format callback is its name; \<^verbatim>\<open>NULL\<close> is \<^verbatim>\<open>NO_FORMAT\<close>.
\<close>

section \<open>Types\<close>

record instrument_to_ticker_mapping =
  itm_admin :: string
  itm_id :: string
  itm_ticker :: string

record identifier_config =
  ic_module :: string
  ic_entity :: string

datatype shown_as =
    SHOWN_AS_OTHER
  | SHOWN_AS_SENDER
  | SHOWN_AS_RECEIVER
  | SHOWN_AS_AMOUNT
  | SHOWN_AS_ADMIN
  | SHOWN_AS_INSTRUMENT

datatype destination = DEST_NONE | DEST_SENDER | DEST_RECEIVER

datatype amount_check = AMOUNT_NOT_COMPARABLE | AMOUNT_COMPARABLE

datatype format_callback = NO_FORMAT | FORMAT_TOKEN_AMOUNT | FORMAT_NATIVE_AMOUNT | FORMAT_TIMESTAMP

record field_config =
  fc_path :: string
  fc_item_name :: cstring
  fc_format :: format_callback
  fc_mandatory :: bool
  fc_shown_as :: shown_as

text \<open>A field value is text, except for a timestamp, which is kept as eight raw bytes until it is
  formatted; both are kept as the bytes of the C buffer.\<close>

record tx_field =
  tf_value :: "byte list option"
  tf_config :: "field_config option"
  tf_matched :: bool
  tf_display :: bool
  tf_store_failed :: bool

record display_config =
  dc_identifier :: identifier_config
  dc_node_identifiers :: "identifier_config list"
  dc_fields :: "field_config list"
  dc_review_title :: string
  dc_review_finish :: string
  dc_metadata_identifiers :: "identifier_config list"
  dc_destination :: destination
  dc_amount_check :: amount_check

section \<open>Constants\<close>

abbreviation "MAX_DISPLAY_FIELDS_NB \<equiv> 10 :: nat"
abbreviation "MAX_FIELD_PATH_LEN \<equiv> 128 :: nat"
abbreviation "MAX_FIELD_VALUE_LEN \<equiv> 1000 :: nat"
abbreviation "PREAPPROVAL_ASSET_FIELD_INDEX \<equiv> 1 :: nat"

definition NATIVE_COIN_TICKER :: string where "NATIVE_COIN_TICKER = ''CC''"
definition PREAPPROVAL_ASSET_FIELD_VALUE :: string where "PREAPPROVAL_ASSET_FIELD_VALUE = ''Canton Coin (CC)''"

definition TOKEN_TRANSFER_REVIEW_TITLE :: string where
  "TOKEN_TRANSFER_REVIEW_TITLE = ''Review transaction to send tokens''"
definition TOKEN_TRANSFER_REVIEW_FINISH :: string where
  "TOKEN_TRANSFER_REVIEW_FINISH = ''Sign transaction to send tokens?''"
definition TOKEN_TRANSFER_ACCEPT_REVIEW_TITLE :: string where
  "TOKEN_TRANSFER_ACCEPT_REVIEW_TITLE = ''Review transaction to accept incoming transfer''"
definition TOKEN_TRANSFER_ACCEPT_REVIEW_FINISH :: string where
  "TOKEN_TRANSFER_ACCEPT_REVIEW_FINISH = ''Sign transaction to accept incoming transfer?''"
definition TOKEN_TRANSFER_REJECT_REVIEW_TITLE :: string where
  "TOKEN_TRANSFER_REJECT_REVIEW_TITLE = ''Review transaction to reject incoming transfer''"
definition TOKEN_TRANSFER_REJECT_REVIEW_FINISH :: string where
  "TOKEN_TRANSFER_REJECT_REVIEW_FINISH = ''Sign transaction to reject incoming transfer?''"
definition TOKEN_TRANSFER_WITHDRAW_REVIEW_TITLE :: string where
  "TOKEN_TRANSFER_WITHDRAW_REVIEW_TITLE = ''Review transaction to withdraw transfer offer''"
definition TOKEN_TRANSFER_WITHDRAW_REVIEW_FINISH :: string where
  "TOKEN_TRANSFER_WITHDRAW_REVIEW_FINISH = ''Sign transaction to withdraw transfer offer?''"
definition NATIVE_COIN_TRANSFER_REVIEW_TITLE :: string where
  "NATIVE_COIN_TRANSFER_REVIEW_TITLE = ''Review transaction to send Canton Coin''"
definition NATIVE_COIN_TRANSFER_REVIEW_FINISH :: string where
  "NATIVE_COIN_TRANSFER_REVIEW_FINISH = ''Sign transaction to send Canton Coin?''"
definition PREAPPROVAL_PROPOSAL_REVIEW_TITLE :: string where
  "PREAPPROVAL_PROPOSAL_REVIEW_TITLE = ''Review transaction to pre-approve incoming transfers''"
definition PREAPPROVAL_PROPOSAL_REVIEW_FINISH :: string where
  "PREAPPROVAL_PROPOSAL_REVIEW_FINISH = ''Sign transaction to pre-approve incoming transfers?''"

section \<open>The configuration\<close>

definition FLD :: "string \<Rightarrow> cstring \<Rightarrow> format_callback \<Rightarrow> bool \<Rightarrow> shown_as \<Rightarrow> field_config" where
  "FLD p n f m s = \<lparr>fc_path = p, fc_item_name = n, fc_format = f, fc_mandatory = m, fc_shown_as = s\<rparr>"

definition IDC :: "string \<Rightarrow> string \<Rightarrow> identifier_config" where
  "IDC m e = \<lparr>ic_module = m, ic_entity = e\<rparr>"

definition TCK :: "string \<Rightarrow> string \<Rightarrow> string \<Rightarrow> instrument_to_ticker_mapping" where
  "TCK a i t = \<lparr>itm_admin = a, itm_id = i, itm_ticker = t\<rparr>"

definition INSTRUMENT_TO_TICKER_MAPPINGS :: "instrument_to_ticker_mapping list" where
  "INSTRUMENT_TO_TICKER_MAPPINGS =
    [TCK ''DSO::1220be58c29e65de40bf273be1dc2b266d43a9a002ea5b18955aeef7aac881bb471a'' ''Amulet'' NATIVE_COIN_TICKER,
     TCK ''DSO::1220be58c29e65de40bf273be1dc2b266d43a9a002ea5b18955aeef7aac881bb471a'' ''amulet'' NATIVE_COIN_TICKER,
     TCK ''cbtc-network::12202a83c6f4082217c175e29bc53da5f2703ba2675778ab99217a5a881a949203ff'' ''CBTC'' ''CBTC'',
     TCK ''DSO::1220f22a8b8f2d813c25b9a684dc4dd52b532a0174d8e73a13cdf2baabfff7518337'' ''Amulet'' NATIVE_COIN_TICKER,
     TCK ''DSO::1220f22a8b8f2d813c25b9a684dc4dd52b532a0174d8e73a13cdf2baabfff7518337'' ''amulet'' NATIVE_COIN_TICKER,
     TCK ''cbtc-network::12201b1741b63e2494e4214cf0bedc3d5a224da53b3bf4d76dba468f8e97eb15508f'' ''CBTC'' ''CBTC'',
     TCK ''DSO::1220b1431ef217342db44d516bb9befde802be7d8899637d290895fa58880f19accc'' ''Amulet'' NATIVE_COIN_TICKER,
     TCK ''DSO::1220b1431ef217342db44d516bb9befde802be7d8899637d290895fa58880f19accc'' ''amulet'' NATIVE_COIN_TICKER,
     TCK ''cbtc-network::12205af3b949a04776fc48cdcc05a060f6bda2e470632935f375d1049a8546a3b262'' ''CBTC'' ''CBTC'',
     TCK ''party-28dc4516-b5ca-44ff-86c7-2107e90a6807::1220b8301e18aa8a401d6e34e6c20f8b0243183c514373bca8f1b6b9270246341a9e''
       ''f29bdd7a-1469-498a-ba2a-796bf5387b31'' ''SBC'',
     TCK ''decentralized-usdc-interchain-rep::122049e2af8a725bd19759320fc83c638e7718973eac189d8f201309c512d1ffec61''
       ''USDCx'' ''USDCx'',
     TCK ''decentralized-usdc-interchain-rep::12208115f1e168dd7e792320be9c4ca720c751a02a3053c7606e1c1cd3dad9bf60ef''
       ''USDCx'' ''USDCx'',
     TCK ''party-28dc4516-b5ca-44ff-86c7-2107e90a6807::1220b8301e18aa8a401d6e34e6c20f8b0243183c514373bca8f1b6b9270246341a9e''
       ''481871d4-ca56-42a8-b2d3-4b7d28742946'' ''CUSD'']"

definition INSTRUMENT_ID_FIELD :: field_config where
  "INSTRUMENT_ID_FIELD = FLD ''transfer.instrumentId.id'' (Some ''Token'') NO_FORMAT True SHOWN_AS_INSTRUMENT"
definition PROXY_INSTRUMENT_ID_FIELD :: field_config where
  "PROXY_INSTRUMENT_ID_FIELD =
     FLD ''proxyArg.choiceArg.transfer.instrumentId.id'' (Some ''Token'') NO_FORMAT True SHOWN_AS_INSTRUMENT"
definition INSTRUMENT_ID_ADMIN_FIELD :: field_config where
  "INSTRUMENT_ID_ADMIN_FIELD = FLD ''transfer.instrumentId.admin'' None NO_FORMAT True SHOWN_AS_ADMIN"
definition INSTRUMENT_ID_PROXY_ADMIN_FIELD :: field_config where
  "INSTRUMENT_ID_PROXY_ADMIN_FIELD =
     FLD ''proxyArg.choiceArg.transfer.instrumentId.admin'' None NO_FORMAT True SHOWN_AS_ADMIN"
definition PREAPPROVAL_ASSET_FIELD :: field_config where
  "PREAPPROVAL_ASSET_FIELD = FLD ''asset'' (Some ''For asset'') NO_FORMAT True SHOWN_AS_OTHER"

definition MEMO_FIELD :: field_config where
  "MEMO_FIELD = FLD (''transfer.meta.values.splice'' @ [CHR 92] @ ''.lfdecentralizedtrust'' @ [CHR 92] @ ''.org/reason'')
     (Some ''Memo'') NO_FORMAT False SHOWN_AS_OTHER"

definition TOKEN_TRANSFER_FIELDS :: "field_config list" where
  "TOKEN_TRANSFER_FIELDS =
    [FLD ''transfer.sender'' (Some ''From'') NO_FORMAT True SHOWN_AS_SENDER,
     FLD ''transfer.amount'' (Some ''Amount'') FORMAT_TOKEN_AMOUNT True SHOWN_AS_AMOUNT,
     FLD ''transfer.receiver'' (Some ''To'') NO_FORMAT True SHOWN_AS_RECEIVER,
     FLD ''transfer.instrumentId.id'' (Some ''Token'') NO_FORMAT True SHOWN_AS_INSTRUMENT,
     FLD ''transfer.instrumentId.admin'' None NO_FORMAT True SHOWN_AS_ADMIN,
     MEMO_FIELD]"

definition TOKEN_TRANSFER_V2_FIELDS :: "field_config list" where
  "TOKEN_TRANSFER_V2_FIELDS =
    [FLD ''transfer.sender.owner'' (Some ''From'') NO_FORMAT True SHOWN_AS_SENDER,
     FLD ''transfer.amount'' (Some ''Amount'') FORMAT_TOKEN_AMOUNT True SHOWN_AS_AMOUNT,
     FLD ''transfer.receiver.owner'' (Some ''To'') NO_FORMAT True SHOWN_AS_RECEIVER,
     FLD ''transfer.instrumentId.id'' (Some ''Token'') NO_FORMAT True SHOWN_AS_INSTRUMENT,
     FLD ''transfer.instrumentId.admin'' None NO_FORMAT True SHOWN_AS_ADMIN,
     MEMO_FIELD]"

definition TOKEN_TRANSFER_ACCEPT_FIELDS :: "field_config list" where
  "TOKEN_TRANSFER_ACCEPT_FIELDS =
    [FLD ''transfer.sender'' (Some ''From'') NO_FORMAT True SHOWN_AS_SENDER,
     FLD ''transfer.amount'' (Some ''Amount'') FORMAT_TOKEN_AMOUNT True SHOWN_AS_AMOUNT,
     FLD ''transfer.receiver'' (Some ''To'') NO_FORMAT True SHOWN_AS_RECEIVER,
     FLD ''transfer.instrumentId.id'' (Some ''Token'') NO_FORMAT True SHOWN_AS_INSTRUMENT,
     FLD ''transfer.instrumentId.admin'' None NO_FORMAT True SHOWN_AS_ADMIN,
     FLD ''transfer.executeBefore'' (Some ''Expiration time'') FORMAT_TIMESTAMP True SHOWN_AS_OTHER,
     MEMO_FIELD]"

definition TOKEN_TRANSFER_WITHDRAW_FIELDS :: "field_config list" where
  "TOKEN_TRANSFER_WITHDRAW_FIELDS =
    [FLD ''transfer.sender'' (Some ''Withdraw to'') NO_FORMAT True SHOWN_AS_SENDER,
     FLD ''transfer.amount'' (Some ''Amount'') FORMAT_TOKEN_AMOUNT True SHOWN_AS_AMOUNT,
     FLD ''transfer.instrumentId.id'' (Some ''Token'') NO_FORMAT True SHOWN_AS_INSTRUMENT,
     FLD ''transfer.instrumentId.admin'' None NO_FORMAT True SHOWN_AS_ADMIN]"

definition NATIVE_COIN_TRANSFER_FIELDS :: "field_config list" where
  "NATIVE_COIN_TRANSFER_FIELDS =
    [FLD ''sender'' (Some ''From'') NO_FORMAT True SHOWN_AS_SENDER,
     FLD ''amount'' (Some ''Amount'') FORMAT_NATIVE_AMOUNT True SHOWN_AS_AMOUNT,
     FLD ''receiver'' (Some ''To'') NO_FORMAT True SHOWN_AS_RECEIVER,
     FLD ''description'' (Some ''Memo'') NO_FORMAT False SHOWN_AS_OTHER]"

definition PREAPPROVAL_PROPOSAL_FIELDS :: "field_config list" where
  "PREAPPROVAL_PROPOSAL_FIELDS =
    [FLD ''receiver'' (Some ''Pre-approve for account'') NO_FORMAT True SHOWN_AS_RECEIVER,
     FLD ''asset'' (Some ''For asset'') NO_FORMAT True SHOWN_AS_OTHER,
     FLD ''provider'' (Some ''By validator'') NO_FORMAT True SHOWN_AS_OTHER]"

definition TRANSFER_OFFER_META_ID_LIST :: "identifier_config list" where
  "TRANSFER_OFFER_META_ID_LIST =
    [IDC ''Splice.AmuletTransferInstruction'' ''AmuletTransferInstruction'',
     IDC ''Utility.Registry.App.V0.Model.Transfer'' ''TransferOffer'']"

definition AMULET_RULES_NODE_ID_LIST :: "identifier_config list" where
  "AMULET_RULES_NODE_ID_LIST = [IDC ''Splice.ExternalPartyAmuletRules'' ''ExternalPartyAmuletRules'']"

definition TRANSFER_FACTORY_NODE_ID_LIST :: "identifier_config list" where
  "TRANSFER_FACTORY_NODE_ID_LIST =
    [IDC ''Splice.ExternalPartyAmuletRules'' ''ExternalPartyAmuletRules'',
     IDC ''Utility.Registry.App.V0.Service.AllocationFactory'' ''AllocationFactory'']"

definition CFG_ENTRY ::
  "identifier_config \<Rightarrow> identifier_config list \<Rightarrow> field_config list \<Rightarrow> string \<Rightarrow> string \<Rightarrow>
   identifier_config list \<Rightarrow> destination \<Rightarrow> amount_check \<Rightarrow> display_config" where
  "CFG_ENTRY i nodes flds title finish meta dest chk =
     \<lparr>dc_identifier = i, dc_node_identifiers = nodes, dc_fields = flds, dc_review_title = title,
      dc_review_finish = finish, dc_metadata_identifiers = meta, dc_destination = dest, dc_amount_check = chk\<rparr>"

definition DISPLAY_CONFIGS :: "display_config list" where
  "DISPLAY_CONFIGS =
    [CFG_ENTRY (IDC ''Splice.Api.Token.TransferInstructionV1'' ''TransferFactory_Transfer'')
       TRANSFER_FACTORY_NODE_ID_LIST TOKEN_TRANSFER_FIELDS TOKEN_TRANSFER_REVIEW_TITLE
       TOKEN_TRANSFER_REVIEW_FINISH [] DEST_RECEIVER AMOUNT_COMPARABLE,
     CFG_ENTRY (IDC ''Splice.Api.Token.TransferInstructionV2'' ''TransferFactory_Transfer'')
       TRANSFER_FACTORY_NODE_ID_LIST TOKEN_TRANSFER_V2_FIELDS TOKEN_TRANSFER_REVIEW_TITLE
       TOKEN_TRANSFER_REVIEW_FINISH [] DEST_RECEIVER AMOUNT_COMPARABLE,
     CFG_ENTRY (IDC ''Splice.ExternalPartyAmuletRules'' ''ExternalPartyAmuletRules_CreateTransferCommand'')
       AMULET_RULES_NODE_ID_LIST NATIVE_COIN_TRANSFER_FIELDS NATIVE_COIN_TRANSFER_REVIEW_TITLE
       NATIVE_COIN_TRANSFER_REVIEW_FINISH [] DEST_RECEIVER AMOUNT_COMPARABLE,
     CFG_ENTRY (IDC ''Splice.Wallet.TransferPreapproval'' ''TransferPreapprovalProposal'')
       [] PREAPPROVAL_PROPOSAL_FIELDS PREAPPROVAL_PROPOSAL_REVIEW_TITLE
       PREAPPROVAL_PROPOSAL_REVIEW_FINISH [] DEST_NONE AMOUNT_NOT_COMPARABLE,
     CFG_ENTRY (IDC ''Splice.Api.Token.TransferInstructionV1'' ''TransferInstruction_Accept'')
       TRANSFER_OFFER_META_ID_LIST TOKEN_TRANSFER_ACCEPT_FIELDS TOKEN_TRANSFER_ACCEPT_REVIEW_TITLE
       TOKEN_TRANSFER_ACCEPT_REVIEW_FINISH TRANSFER_OFFER_META_ID_LIST DEST_RECEIVER AMOUNT_COMPARABLE,
     CFG_ENTRY (IDC ''Splice.Api.Token.TransferInstructionV2'' ''TransferInstruction_Accept'')
       TRANSFER_OFFER_META_ID_LIST TOKEN_TRANSFER_ACCEPT_FIELDS TOKEN_TRANSFER_ACCEPT_REVIEW_TITLE
       TOKEN_TRANSFER_ACCEPT_REVIEW_FINISH TRANSFER_OFFER_META_ID_LIST DEST_RECEIVER AMOUNT_COMPARABLE,
     CFG_ENTRY (IDC ''Splice.Api.Token.TransferInstructionV1'' ''TransferInstruction_Reject'')
       TRANSFER_OFFER_META_ID_LIST TOKEN_TRANSFER_ACCEPT_FIELDS TOKEN_TRANSFER_REJECT_REVIEW_TITLE
       TOKEN_TRANSFER_REJECT_REVIEW_FINISH TRANSFER_OFFER_META_ID_LIST DEST_SENDER AMOUNT_NOT_COMPARABLE,
     CFG_ENTRY (IDC ''Splice.Api.Token.TransferInstructionV2'' ''TransferInstruction_Reject'')
       TRANSFER_OFFER_META_ID_LIST TOKEN_TRANSFER_ACCEPT_FIELDS TOKEN_TRANSFER_REJECT_REVIEW_TITLE
       TOKEN_TRANSFER_REJECT_REVIEW_FINISH TRANSFER_OFFER_META_ID_LIST DEST_SENDER AMOUNT_NOT_COMPARABLE,
     CFG_ENTRY (IDC ''Splice.Api.Token.TransferInstructionV1'' ''TransferInstruction_Withdraw'')
       TRANSFER_OFFER_META_ID_LIST TOKEN_TRANSFER_WITHDRAW_FIELDS TOKEN_TRANSFER_WITHDRAW_REVIEW_TITLE
       TOKEN_TRANSFER_WITHDRAW_REVIEW_FINISH TRANSFER_OFFER_META_ID_LIST DEST_SENDER AMOUNT_NOT_COMPARABLE,
     CFG_ENTRY (IDC ''Splice.Api.Token.TransferInstructionV2'' ''TransferInstruction_Withdraw'')
       TRANSFER_OFFER_META_ID_LIST TOKEN_TRANSFER_WITHDRAW_FIELDS TOKEN_TRANSFER_WITHDRAW_REVIEW_TITLE
       TOKEN_TRANSFER_WITHDRAW_REVIEW_FINISH TRANSFER_OFFER_META_ID_LIST DEST_SENDER AMOUNT_NOT_COMPARABLE]"

end
