(* ===== verification/Node_Values.thy ===== *)
theory Node_Values
  imports Display_Config
begin

text \<open>
  \<^verbatim>\<open>node_values_check.c\<close>: the holdings the create nodes write, the contracts the nodes act
  on, what the review screen shows, and the verdict that compares them. The static
  \<^verbatim>\<open>store\<close> is the record below. A digest with its \<^verbatim>\<open>has_\<close> flag is an option;
  the holdings array with its counter is a list, and so is the list of used contracts. SHA-256 and the
  outcome of the contract list allocation are arguments.
\<close>

section \<open>State and operations\<close>

type_synonym digest = "byte list"

record holding =
  ho_owner :: digest
  ho_amount :: digest
  ho_admin :: digest

record values_store =
  holdings :: "holding list"
  used_contracts :: "byte list list"
  st_destination :: "digest option"
  st_amount :: "digest option"
  st_admin :: "digest option"
  st_instrument :: "digest option"
  holdings_instrument :: "digest option"
  st_sender :: "digest option"
  st_bound :: bool
  bound_destination :: destination
  st_ok :: bool

definition give_up :: "values_store \<Rightarrow> values_store" where
  "give_up st = (if st_ok st then st\<lparr>st_ok := False\<rparr> else st)"

definition c_bytes :: "byte list \<Rightarrow> byte list" where
  "c_bytes v = takeWhile (\<lambda>b. b \<noteq> 0) v"

definition digest :: "sha256 \<Rightarrow> byte list \<Rightarrow> digest" where
  "digest sha txt = sha (c_bytes txt)"

definition values_release_used_contracts :: "values_store \<Rightarrow> values_store" where
  "values_release_used_contracts st = st\<lparr>used_contracts := []\<rparr>"

definition values_check_reset :: values_store where
  "values_check_reset = \<lparr>holdings = [], used_contracts = [], st_destination = None, st_amount = None,
     st_admin = None, st_instrument = None, holdings_instrument = None, st_sender = None,
     st_bound = False, bound_destination = DEST_NONE, st_ok = True\<rparr>"

definition contract_digest :: "sha256 \<Rightarrow> string \<Rightarrow> byte list" where
  "contract_digest sha contract_id = take USED_CONTRACT_LEN (sha (str_bytes contract_id))"

definition values_record_used_contract :: "sha256 \<Rightarrow> bool \<Rightarrow> cstring \<Rightarrow> values_store \<Rightarrow> values_store" where
  "values_record_used_contract sha mem_ok contract_id st =
     (case contract_id of
        None \<Rightarrow> st
      | Some cid \<Rightarrow>
          if \<not> st_ok st then st
          else if used_contracts st = [] \<and> \<not> mem_ok then give_up st
          else let d = contract_digest sha cid in
               if d \<in> set (used_contracts st) then st
               else if length (used_contracts st) \<ge> MAX_USED_CONTRACTS then give_up st
               else st\<lparr>used_contracts := used_contracts st @ [d]\<rparr>)"

definition values_check_disclosed_contract :: "sha256 \<Rightarrow> cstring \<Rightarrow> values_store \<Rightarrow> values_store" where
  "values_check_disclosed_contract sha contract_id st =
     (case contract_id of
        None \<Rightarrow> st
      | Some cid \<Rightarrow>
          if \<not> st_ok st then st
          else if contract_digest sha cid \<in> set (used_contracts st) then st
          else give_up st)"

definition values_still_collecting :: "values_store \<Rightarrow> bool" where
  "values_still_collecting st \<longleftrightarrow> st_ok st"

definition values_report_holding ::
  "digest \<Rightarrow> digest \<Rightarrow> digest \<Rightarrow> digest option \<Rightarrow> values_store \<Rightarrow> values_store" where
  "values_report_holding owner amount admin instrument st =
     (if length (holdings st) \<ge> MAX_HOLDINGS then give_up st
      else let st' = st\<lparr>holdings := holdings st @ [\<lparr>ho_owner = owner, ho_amount = amount, ho_admin = admin\<rparr>]\<rparr>
           in (case instrument of
                 None \<Rightarrow> st'
               | Some i \<Rightarrow>
                   (case holdings_instrument st' of
                      None \<Rightarrow> st'\<lparr>holdings_instrument := Some i\<rparr>
                    | Some j \<Rightarrow> if j \<noteq> i then give_up st' else st')))"

definition values_report_unknown_template :: "values_store \<Rightarrow> values_store" where
  "values_report_unknown_template st = give_up st"

definition values_report_unreadable_holding :: "values_store \<Rightarrow> values_store" where
  "values_report_unreadable_holding st = give_up st"

definition values_report_parse_failure :: "values_store \<Rightarrow> values_store" where
  "values_report_parse_failure st = give_up st"

record shown =
  shown_destination :: "byte list option"
  shown_amount :: "byte list option"
  shown_admin :: "byte list option"
  shown_sender :: "byte list option"
  shown_instrument :: "byte list option"

definition bind_field :: "destination \<Rightarrow> amount_check \<Rightarrow> tx_field \<Rightarrow> shown \<Rightarrow> shown" where
  "bind_field dest chk field s =
     (case (tf_value field, tf_config field) of
        (Some v, Some cfg) \<Rightarrow>
          (case fc_shown_as cfg of
             SHOWN_AS_SENDER \<Rightarrow>
               (let s' = s\<lparr>shown_sender := Some v\<rparr>
                in if dest = DEST_SENDER then s'\<lparr>shown_destination := Some v\<rparr> else s')
           | SHOWN_AS_RECEIVER \<Rightarrow> (if dest = DEST_RECEIVER then s\<lparr>shown_destination := Some v\<rparr> else s)
           | SHOWN_AS_AMOUNT \<Rightarrow> (if chk = AMOUNT_COMPARABLE then s\<lparr>shown_amount := Some v\<rparr> else s)
           | SHOWN_AS_ADMIN \<Rightarrow> s\<lparr>shown_admin := Some v\<rparr>
           | SHOWN_AS_INSTRUMENT \<Rightarrow> s\<lparr>shown_instrument := Some v\<rparr>
           | SHOWN_AS_OTHER \<Rightarrow> s)
      | _ \<Rightarrow> s)"

definition values_bind_from_display ::
  "sha256 \<Rightarrow> tx_field list \<Rightarrow> destination \<Rightarrow> amount_check \<Rightarrow> values_store \<Rightarrow> values_store" where
  "values_bind_from_display sha flds dest chk st =
     (let s = fold (bind_field dest chk) flds
                \<lparr>shown_destination = None, shown_amount = None, shown_admin = None, shown_sender = None,
                 shown_instrument = None\<rparr>
      in st\<lparr>st_destination := map_option (digest sha) (shown_destination s),
            st_amount := map_option (digest sha) (shown_amount s),
            st_admin := map_option (digest sha) (shown_admin s),
            st_sender := map_option (digest sha) (shown_sender s),
            st_instrument := map_option (digest sha) (shown_instrument s),
            st_bound := True,
            bound_destination := dest\<rparr>)"

definition is_transfer_to_self :: "values_store \<Rightarrow> bool" where
  "is_transfer_to_self st \<longleftrightarrow>
     bound_destination st = DEST_RECEIVER \<and> st_sender st \<noteq> None \<and> st_destination st \<noteq> None \<and>
     st_sender st = st_destination st"

text \<open>The loop over the holdings: \<^verbatim>\<open>None\<close> when a holding goes to an account the screen does not
  show, otherwise how many the destination owns and whether its amount was seen. The destination is
  compared whether or not it is bound; the caller only runs the loop once it is.\<close>

fun destination_loop :: "values_store \<Rightarrow> holding list \<Rightarrow> nat \<Rightarrow> bool \<Rightarrow> (nat \<times> bool) option" where
  "destination_loop st [] owned amount_seen = Some (owned, amount_seen)"
| "destination_loop st (h # hs) owned amount_seen =
     (if Some (ho_owner h) \<noteq> st_destination st
      then (if st_sender st = None \<or> Some (ho_owner h) \<noteq> st_sender st then None
            else destination_loop st hs owned amount_seen)
      else destination_loop st hs (owned + 1)
             (if st_amount st = None \<or> Some (ho_amount h) = st_amount st then True else amount_seen))"

definition destination_holds_value :: "values_store \<Rightarrow> bool \<times> values_store" where
  "destination_holds_value st =
     (case destination_loop st (holdings st) 0 False of
        None \<Rightarrow> (False, give_up st)
      | Some (owned, amount_seen) \<Rightarrow>
          if owned = 0 then (False, give_up st)
          else if owned > 1 \<and> \<not> is_transfer_to_self st then (False, give_up st)
          else if owned > 2 then (False, give_up st)
          else if \<not> amount_seen then (False, give_up st)
          else (True, st))"

definition holdings_match_displayed_instrument :: "values_store \<Rightarrow> bool \<times> values_store" where
  "holdings_match_displayed_instrument st =
     (if list_all (\<lambda>h. st_admin st = Some (ho_admin h)) (holdings st) then (True, st) else (False, give_up st))"

definition holdings_match_displayed_id :: "values_store \<Rightarrow> bool \<times> values_store" where
  "holdings_match_displayed_id st =
     (if holdings_instrument st \<noteq> None \<and> st_instrument st = None then (False, give_up st)
      else if st_instrument st \<noteq> None \<and> holdings_instrument st \<noteq> None \<and> holdings_instrument st \<noteq> st_instrument st
      then (False, give_up st)
      else (True, st))"

definition values_can_clear_sign :: "values_store \<Rightarrow> bool \<times> values_store" where
  "values_can_clear_sign st =
     (if \<not> st_ok st then (False, st)
      else if \<not> st_bound st then (False, st)
      else if bound_destination st = DEST_NONE then
        (if length (holdings st) > 0 then (False, give_up st) else (True, st))
      else if st_destination st = None then (False, give_up st)
      else (case destination_holds_value st of
              (False, st1) \<Rightarrow> (False, st1)
            | (True, st1) \<Rightarrow>
                (case (if st_admin st1 \<noteq> None then holdings_match_displayed_instrument st1 else (True, st1)) of
                   (False, st2) \<Rightarrow> (False, st2)
                 | (True, st2) \<Rightarrow> holdings_match_displayed_id st2)))"

text \<open>\<^verbatim>\<open>give_up\<close> is a first-error cell with a single error.\<close>

interpretation vg: first_error None "\<lambda>st. if st_ok st then None else Some ()"
    "\<lambda>e st. case e of None \<Rightarrow> st | Some _ \<Rightarrow> give_up st"
  by unfold_locales (auto simp: give_up_def split: option.split)

section \<open>The verdict, declaratively\<close>

definition owned_by :: "digest \<Rightarrow> holding list \<Rightarrow> holding list" where
  "owned_by d hs = filter (\<lambda>h. ho_owner h = d) hs"

definition values_agree :: "values_store \<Rightarrow> bool" where
  "values_agree st \<longleftrightarrow>
     st_ok st \<and> st_bound st \<and>
     (case bound_destination st of
        DEST_NONE \<Rightarrow> holdings st = []
      | _ \<Rightarrow>
          (case st_destination st of
             None \<Rightarrow> False
           | Some d \<Rightarrow>
               list_all (\<lambda>h. ho_owner h = d \<or> st_sender st = Some (ho_owner h)) (holdings st) \<and>
               (length (owned_by d (holdings st)) = 1 \<or>
                length (owned_by d (holdings st)) = 2 \<and> is_transfer_to_self st) \<and>
               list_ex (\<lambda>h. st_amount st = None \<or> st_amount st = Some (ho_amount h)) (owned_by d (holdings st)) \<and>
               (st_admin st = None \<or> list_all (\<lambda>h. st_admin st = Some (ho_admin h)) (holdings st)) \<and>
               (holdings_instrument st = None \<or> holdings_instrument st = st_instrument st)))"

lemma destination_loop_eq:
  assumes "st_destination st = Some d"
  shows "destination_loop st hs owned seen =
    (if list_all (\<lambda>h. ho_owner h = d \<or> st_sender st = Some (ho_owner h)) hs
     then Some (owned + length (owned_by d hs),
                seen \<or> list_ex (\<lambda>h. st_amount st = None \<or> st_amount st = Some (ho_amount h)) (owned_by d hs))
     else None)"
  using assms by (induction hs arbitrary: owned seen) (auto simp: owned_by_def)

lemma give_up_simps [simp]:
  "st_ok (give_up st) = False" "holdings (give_up st) = holdings st" "used_contracts (give_up st) = used_contracts st"
  "holdings_instrument (give_up st) = holdings_instrument st"
  by (simp_all add: give_up_def)

lemma destination_holds_value_eq:
  assumes "st_destination st = Some d"
  shows "destination_holds_value st =
    (if list_all (\<lambda>h. ho_owner h = d \<or> st_sender st = Some (ho_owner h)) (holdings st) \<and>
        (length (owned_by d (holdings st)) = 1 \<or> length (owned_by d (holdings st)) = 2 \<and> is_transfer_to_self st) \<and>
        list_ex (\<lambda>h. st_amount st = None \<or> st_amount st = Some (ho_amount h)) (owned_by d (holdings st))
     then (True, st) else (False, give_up st))"
proof -
  let ?n = "length (owned_by d (holdings st))"
  consider "?n = 0" | "?n = 1" | "?n = 2" | "?n > 2" by linarith
  then show ?thesis
    using assms by cases (auto simp: destination_holds_value_def destination_loop_eq)
qed

lemma values_can_clear_sign_fst: "fst (values_can_clear_sign st) \<longleftrightarrow> values_agree st"
  by (cases "st_destination st"; cases "bound_destination st")
     (auto simp: values_can_clear_sign_def values_agree_def destination_holds_value_eq
       holdings_match_displayed_instrument_def holdings_match_displayed_id_def)

lemma values_can_clear_sign_state:
  "snd (values_can_clear_sign st) = (if \<not> st_ok st \<or> \<not> st_bound st \<or> values_agree st then st else give_up st)"
  by (cases "st_destination st"; cases "bound_destination st")
     (auto simp: values_can_clear_sign_def values_agree_def destination_holds_value_eq
       holdings_match_displayed_instrument_def holdings_match_displayed_id_def)

section \<open>A whole transaction\<close>

text \<open>The calls the parsers make while a transaction arrives.\<close>

datatype value_event =
    Holding digest digest digest "digest option"
  | Unknown_template
  | Unreadable_holding
  | Parse_failure
  | Used bool cstring
  | Disclosed cstring
  | Bind "tx_field list" destination amount_check
  | Release

fun value_step :: "sha256 \<Rightarrow> value_event \<Rightarrow> values_store \<Rightarrow> values_store" where
  "value_step sha (Holding ow am ad ins) st = values_report_holding ow am ad ins st"
| "value_step sha Unknown_template st = values_report_unknown_template st"
| "value_step sha Unreadable_holding st = values_report_unreadable_holding st"
| "value_step sha Parse_failure st = values_report_parse_failure st"
| "value_step sha (Used mem_ok c) st = values_record_used_contract sha mem_ok c st"
| "value_step sha (Disclosed c) st = values_check_disclosed_contract sha c st"
| "value_step sha (Bind flds dest chk) st = values_bind_from_display sha flds dest chk st"
| "value_step sha Release st = values_release_used_contracts st"

definition value_run :: "sha256 \<Rightarrow> value_event list \<Rightarrow> values_store" where
  "value_run sha es = fold (value_step sha) es values_check_reset"

definition values_wf :: "values_store \<Rightarrow> bool" where
  "values_wf st \<longleftrightarrow> length (holdings st) \<le> MAX_HOLDINGS \<and> length (used_contracts st) \<le> MAX_USED_CONTRACTS \<and>
     distinct (used_contracts st)"

lemmas value_op_defs = values_report_holding_def values_report_unknown_template_def
  values_report_unreadable_holding_def values_report_parse_failure_def values_record_used_contract_def
  values_check_disclosed_contract_def values_bind_from_display_def values_release_used_contracts_def

lemma value_step_wf: "values_wf st \<Longrightarrow> values_wf (value_step sha e st)"
  by (cases e) (auto simp: values_wf_def value_op_defs Let_def split: option.splits)

lemma value_step_ok: "st_ok (value_step sha e st) \<Longrightarrow> st_ok st"
  by (cases e) (auto simp: value_op_defs Let_def split: option.splits if_splits)

lemma fold_value_step_ok: "st_ok (fold (value_step sha) es st) \<Longrightarrow> st_ok st"
  by (induction es arbitrary: st) (auto dest: value_step_ok)

fun event_holding :: "value_event \<Rightarrow> holding list" where
  "event_holding (Holding ow am ad ins) = [\<lparr>ho_owner = ow, ho_amount = am, ho_admin = ad\<rparr>]"
| "event_holding _ = []"

fun event_instrument :: "value_event \<Rightarrow> digest list" where
  "event_instrument (Holding ow am ad (Some i)) = [i]"
| "event_instrument _ = []"

fun event_refuses :: "value_event \<Rightarrow> bool" where
  "event_refuses Unknown_template = True"
| "event_refuses Unreadable_holding = True"
| "event_refuses Parse_failure = True"
| "event_refuses _ = False"

lemma value_step_collects:
  assumes "st_ok (value_step sha e st)"
  shows "holdings (value_step sha e st) = holdings st @ event_holding e" "\<not> event_refuses e"
    "list_all (\<lambda>i. holdings_instrument (value_step sha e st) = Some i) (event_instrument e)"
    "holdings_instrument st \<noteq> None \<Longrightarrow> holdings_instrument (value_step sha e st) = holdings_instrument st"
    "holdings_instrument st = None \<Longrightarrow> event_instrument e = [] \<Longrightarrow> holdings_instrument (value_step sha e st) = None"
  using assms
  by (cases e; auto simp: value_op_defs Let_def split: option.splits if_splits)+

lemma fold_collects:
  assumes "st_ok (fold (value_step sha) es st)"
  shows "holdings (fold (value_step sha) es st) = holdings st @ concat (map event_holding es) \<and>
    list_all (\<lambda>e. \<not> event_refuses e) es \<and>
    list_all (\<lambda>i. holdings_instrument (fold (value_step sha) es st) = Some i) (concat (map event_instrument es)) \<and>
    (holdings_instrument st \<noteq> None \<longrightarrow> holdings_instrument (fold (value_step sha) es st) = holdings_instrument st)"
  using assms
proof (induction es arbitrary: st)
  case (Cons e es)
  let ?st = "value_step sha e st"
  have "st_ok ?st"
    using Cons.prems by (auto dest: fold_value_step_ok)
  note step = value_step_collects [OF this]
  have IH: "holdings (fold (value_step sha) es ?st) = holdings ?st @ concat (map event_holding es) \<and>
    list_all (\<lambda>e. \<not> event_refuses e) es \<and>
    list_all (\<lambda>i. holdings_instrument (fold (value_step sha) es ?st) = Some i) (concat (map event_instrument es)) \<and>
    (holdings_instrument ?st \<noteq> None \<longrightarrow> holdings_instrument (fold (value_step sha) es ?st) = holdings_instrument ?st)"
    using Cons by simp
  have "list_all (\<lambda>i. holdings_instrument (fold (value_step sha) es ?st) = Some i) (event_instrument e)"
    using IH step(3) by (auto simp: list_all_iff)
  with IH step show ?case
    by simp
qed simp

fun event_used :: "sha256 \<Rightarrow> value_event \<Rightarrow> byte list list" where
  "event_used sha (Used mem_ok (Some c)) = [contract_digest sha c]"
| "event_used sha _ = []"

lemma value_step_used:
  "set (used_contracts (value_step sha e st)) \<subseteq> set (used_contracts st) \<union> set (event_used sha e)"
  by (cases e) (auto simp: value_op_defs Let_def split: option.splits)

lemma fold_used:
  "set (used_contracts (fold (value_step sha) es st)) \<subseteq> set (used_contracts st) \<union> set (concat (map (event_used sha) es))"
proof (induction es arbitrary: st)
  case (Cons e es)
  from Cons [of "value_step sha e st"] value_step_used [of sha e st] show ?case by auto
qed simp

section \<open>Properties\<close>

definition sample_fields :: "tx_field list" where
  "sample_fields = map (\<lambda>(cfg, v). \<lparr>tf_value = Some (str_bytes v), tf_config = Some cfg, tf_matched = True,
       tf_display = True, tf_store_failed = False\<rparr>)
     (zip NATIVE_COIN_TRANSFER_FIELDS [''al'', ''20.0'', ''bo'', ''hi''])"

text \<open>C13. The values verdict is exactly the documented comparison. Clear signing survives if and only
  if nothing gave up before, a screen is bound, and: a screen without destination goes with no
  holding at all; any other screen resolved its destination, every holding goes to the destination
  or back to the sender, the destination gets one holding (or two, when the screen shows a transfer
  to oneself), one of them carries the shown amount when that is comparable, every holding is issued
  by the shown admin, and any instrument the holdings name is the shown one.\<close>

theorem values_verdict_exact:
  "fst (values_can_clear_sign st) \<longleftrightarrow> values_agree st"
  by (rule values_can_clear_sign_fst)

text \<open>C14. Nothing is left out of that comparison. If a transaction's events end in a clear-signing
  verdict, the holdings it compared are all the holdings the creates reported, in order and at most
  four; no create had an unknown template, an unreadable holding or a parse failure; and all the
  instruments named by the holdings are one and the same.\<close>

theorem values_nothing_unchecked:
  assumes "fst (values_can_clear_sign (value_run sha es))"
  shows "holdings (value_run sha es) = concat (map event_holding es) \<and>
    length (concat (map event_holding es)) \<le> MAX_HOLDINGS \<and>
    list_all (\<lambda>e. \<not> event_refuses e) es \<and>
    list_all (\<lambda>i. holdings_instrument (value_run sha es) = Some i) (concat (map event_instrument es))"
proof -
  have ok: "st_ok (fold (value_step sha) es values_check_reset)"
    using assms by (simp add: values_can_clear_sign_fst values_agree_def value_run_def)
  have "values_wf (fold (value_step sha) es st)" if "values_wf st" for st
    using that by (induction es arbitrary: st) (auto simp: value_step_wf)
  then have "values_wf (value_run sha es)"
    by (simp add: value_run_def values_wf_def values_check_reset_def)
  with fold_collects [OF ok] show ?thesis
    by (auto simp: value_run_def values_check_reset_def values_wf_def)
qed

theorem values_nothing_unchecked_witness:
  "length (concat (map event_holding [Bind sample_fields DEST_RECEIVER AMOUNT_COMPARABLE,
     Holding (str_bytes ''bo'') (str_bytes ''20.0'') (str_bytes ''adm'') None])) \<le> MAX_HOLDINGS"
proof -
  have "fst (values_can_clear_sign (value_run (\<lambda>m. m) [Bind sample_fields DEST_RECEIVER AMOUNT_COMPARABLE,
     Holding (str_bytes ''bo'') (str_bytes ''20.0'') (str_bytes ''adm'') None]))"
    by code_simp
  from values_nothing_unchecked [OF this] show ?thesis by blast
qed



text \<open>C34. Giving up is final: once clear signing was dropped, no later event of the transaction brings
  it back.\<close>

theorem values_give_up_final:
  assumes "\<not> st_ok (value_run sha es)"
  shows "\<not> fst (values_can_clear_sign (value_run sha (es @ es')))"
  using assms fold_value_step_ok [of sha es' "fold (value_step sha) es values_check_reset"]
  by (auto simp: value_run_def values_can_clear_sign_fst values_agree_def)

theorem values_give_up_final_witness:
  "\<not> fst (values_can_clear_sign (value_run (\<lambda>m. m) ([Unknown_template] @ [Bind sample_fields DEST_RECEIVER AMOUNT_COMPARABLE,
      Holding (str_bytes ''bo'') (str_bytes ''20.0'') (str_bytes ''adm'') None])))"
proof (rule values_give_up_final)
  show "\<not> st_ok (value_run (\<lambda>m. m) [Unknown_template])"
    by code_simp
qed

text \<open>Two holdings for the destination are accepted in one case only, a screen whose sender and
  receiver are the same account; the header comment of the check speaks of exactly one.\<close>

theorem values_two_holdings_self_transfer:
  "fst (values_can_clear_sign (values_check_reset\<lparr>
      holdings := [\<lparr>ho_owner = [1], ho_amount = [2], ho_admin = [3]\<rparr>, \<lparr>ho_owner = [1], ho_amount = [9], ho_admin = [3]\<rparr>],
      st_destination := Some [1], st_sender := Some [1], st_amount := Some [2], st_admin := Some [3],
      st_bound := True, bound_destination := DEST_RECEIVER\<rparr>))"
  by code_simp

end
