(* ===== verification/Hashing_Parser.thy ===== *)
theory Hashing_Parser
  imports Canonical_Hash Nanopb Node_Tree Node_Values
begin

text \<open>
  \<^verbatim>\<open>pb_hashing_parser.c\<close>: a node part or an input contract is decoded with nanopb callbacks that
  write the canonical serialisation into the node hash while the message is read. The static
  \<^verbatim>\<open>ctx\<close> is the record \<^verbatim>\<open>parser_ctx\<close>, which also carries the module states the callbacks
  change (hash statics, node tree check, values check). \<^verbatim>\<open>parser_env\<close> holds what stays fixed:
  SHA-256, the transaction header, the outcome of the contract list allocation and the stack budget,
  the number of nested value levels for which \<^verbatim>\<open>stack_has_room\<close> answers true.
\<close>

section \<open>State\<close>

record parser_env =
  pe_sha :: sha256
  pe_tx :: DamlTransaction
  pe_mem_ok :: bool
  pe_budget :: nat

record parser_ctx =
  pc_node_id :: int
  pc_is_root_node :: bool
  pc_is_input_contract :: bool
  pc_tree_children_claimed :: bool
  pc_value_elem_count :: int
  pc_hash :: hash_ctx
  pc_tree :: tree_check_context
  pc_values :: values_store

definition VALUE_ELEM_COUNT_NONE :: int where "VALUE_ELEM_COUNT_NONE = -1"

definition hashing :: "(hash_ctx \<Rightarrow> hash_ctx) \<Rightarrow> parser_ctx \<Rightarrow> parser_ctx" where
  "hashing f c = c\<lparr>pc_hash := f (pc_hash c)\<rparr>"

section \<open>The decoded Value struct\<close>

text \<open>\<^verbatim>\<open>cbValue\<close> after a decode: the member of the oneof that came last.\<close>

datatype cbValue =
    V_none
  | V_unit
  | V_bool bool
  | V_int64 u64
  | V_date int
  | V_timestamp u64
  | V_numeric string
  | V_party string
  | V_text string
  | V_contract_id string
  | V_composite nat

text \<open>One field of a \<^verbatim>\<open>cb.Value\<close>: the scalars are stored; a member that is a message goes to the
  message callback together with the nested decode, both of which are the argument.\<close>

definition value_field ::
  "(nat \<Rightarrow> byte list \<Rightarrow> 's \<Rightarrow> 's option) \<Rightarrow> nat \<times> wire \<Rightarrow> cbValue \<times> 's \<Rightarrow> (cbValue \<times> 's) option" where
  "value_field sub fw vs =
     (let t = fst fw; w = snd fw; s = snd vs in
      if t = 1 then (case w of WLen p \<Rightarrow> map_option (\<lambda>s'. (V_unit, s')) (sub 1 p s) | _ \<Rightarrow> None)
      else if t = 2 then map_option (\<lambda>b. (V_bool b, s)) (pb_dec_bool w)
      else if t = 3 then map_option (\<lambda>x. (V_int64 x, s)) (pb_dec_sint64 w)
      else if t = 4 then map_option (\<lambda>x. (V_date x, s)) (pb_dec_int32 w)
      else if t = 5 then map_option (\<lambda>x. (V_timestamp x, s)) (pb_dec_fixed64 w)
      else if t = 6 then put_string w (\<lambda>x. (V_numeric x, s))
      else if t = 7 then put_string w (\<lambda>x. (V_party x, s))
      else if t = 8 then put_string w (\<lambda>x. (V_text x, s))
      else if t = 9 then put_string w (\<lambda>x. (V_contract_id x, s))
      else if 10 \<le> t \<and> t \<le> 16 then
        (case w of WLen p \<Rightarrow> map_option (\<lambda>s'. (V_composite t, s')) (sub t p s) | _ \<Rightarrow> None)
      else Some vs)"

definition decode_cbValue ::
  "(nat \<Rightarrow> byte list \<Rightarrow> 's \<Rightarrow> 's option) \<Rightarrow> byte list \<Rightarrow> cbValue \<times> 's \<Rightarrow> (cbValue \<times> 's) option" where
  "decode_cbValue sub bs vs = pb_decode (value_field sub) bs vs"

text \<open>A field with a callback of the app.\<close>

definition run_callback :: "(byte list \<Rightarrow> 's \<Rightarrow> 's option) \<Rightarrow> wire \<Rightarrow> 's \<Rightarrow> 's option" where
  "run_callback f w s = (case pb_callback_payload w of None \<Rightarrow> None | Some p \<Rightarrow> f p s)"

record cbEnum =
  en_has_id :: bool
  en_id :: Identifier
  en_constructor :: cstring

definition decode_cbEnum :: "byte list \<Rightarrow> cbEnum option" where
  "decode_cbEnum bs =
     pb_decode (\<lambda>fw e.
       if fst fw = 1 then map_option (\<lambda>i. e\<lparr>en_has_id := True, en_id := i\<rparr>)
                           (pb_dec_submessage decode_Identifier (snd fw) (en_id e))
       else if fst fw = 2 then put_string (snd fw) (\<lambda>s. e\<lparr>en_constructor := Some s\<rparr>)
       else Some e) bs \<lparr>en_has_id = False, en_id = Identifier_init_zero, en_constructor = None\<rparr>"

section \<open>Counting the elements of a value\<close>

text \<open>The nested decode of a composite value with no callback set: its callback fields are read and
  dropped, an enum is decoded.\<close>

definition comp_null :: "nat \<Rightarrow> byte list \<Rightarrow> 's \<Rightarrow> 's option" where
  "comp_null t p s =
     (if t = 1 then (if all_fields (\<lambda>_. True) p then Some s else None)
      else if t = 16 then (if decode_cbEnum p \<noteq> None then Some s else None)
      else (let callback_tags = (if t = 14 then {1, 2} else if t = 15 then {1, 2, 3} else {1})
            in if all_fields (\<lambda>(u, v). if u \<in> callback_tags then pb_callback_payload v \<noteq> None else True) p
               then Some s else None))"

definition value_plain_ok :: "byte list \<Rightarrow> bool" where
  "value_plain_ok q \<longleftrightarrow> decode_cbValue comp_null q (V_none, ()) \<noteq> None"

text \<open>The three messages that wrap a value: a record field, a text map entry (label or key, then value)
  and a general map entry (two values), with the counting callback on the value of the first two.\<close>

definition labelled_value_field ::
  "(byte list \<Rightarrow> 's \<Rightarrow> 's option) \<Rightarrow> (nat \<Rightarrow> byte list \<Rightarrow> 's \<Rightarrow> 's option) \<Rightarrow>
   nat \<times> wire \<Rightarrow> cbValue \<times> 's \<Rightarrow> (cbValue \<times> 's) option" where
  "labelled_value_field label sub fw vs =
     (if fst fw = 1 then map_option (\<lambda>s. (fst vs, s)) (run_callback label (snd fw) (snd vs))
      else if fst fw = 2 then (case snd fw of WLen p \<Rightarrow> decode_cbValue sub p vs | _ \<Rightarrow> None)
      else Some vs)"

definition gen_map_entry_field ::
  "(nat \<Rightarrow> byte list \<Rightarrow> 's \<Rightarrow> 's option) \<Rightarrow> (nat \<Rightarrow> byte list \<Rightarrow> 's \<Rightarrow> 's option) \<Rightarrow>
   nat \<times> wire \<Rightarrow> (cbValue \<times> cbValue) \<times> 's \<Rightarrow> ((cbValue \<times> cbValue) \<times> 's) option" where
  "gen_map_entry_field key_comp val_comp fw kvs =
     (let k = fst (fst kvs); v = snd (fst kvs); s = snd kvs in
      if fst fw = 1 then
        (case snd fw of WLen p \<Rightarrow> map_option (\<lambda>(k', s'). ((k', v), s')) (decode_cbValue key_comp p (k, s)) | _ \<Rightarrow> None)
      else if fst fw = 2 then
        (case snd fw of WLen p \<Rightarrow> map_option (\<lambda>(v', s'). ((k, v'), s')) (decode_cbValue val_comp p (v, s)) | _ \<Rightarrow> None)
      else Some kvs)"

definition null_label :: "byte list \<Rightarrow> 's \<Rightarrow> 's option" where
  "null_label p s = Some s"

definition count_list_elem :: "byte list \<Rightarrow> int \<Rightarrow> int option" where
  "count_list_elem q n = (if value_plain_ok q then Some (n + 1) else None)"

definition count_labelled :: "byte list \<Rightarrow> int \<Rightarrow> int option" where
  "count_labelled q n =
     map_option (\<lambda>_. n + 1) (pb_decode (labelled_value_field null_label comp_null) q (V_none, ()))"

definition count_gen_map_entry :: "byte list \<Rightarrow> int \<Rightarrow> int option" where
  "count_gen_map_entry q n =
     map_option (\<lambda>_. n + 1) (pb_decode (gen_map_entry_field comp_null comp_null) q ((V_none, V_none), ()))"

definition count_identifier :: "byte list \<Rightarrow> int \<Rightarrow> int option" where
  "count_identifier q n = (if identifier_ok q then Some (n + 1) else None)"

text \<open>\<^verbatim>\<open>count_value\<close> and the nested decode with the counting callback it installs.\<close>

definition count_value :: "nat \<Rightarrow> byte list \<Rightarrow> int \<Rightarrow> int option" where
  "count_value t p old =
     (let on_field = (\<lambda>tag cb null_tags. pb_decode (\<lambda>fw n.
            if fst fw = tag then run_callback cb (snd fw) n
            else if fst fw \<in> null_tags then pb_null_callback (snd fw) n
            else Some n) p 0)
      in if t = 10 \<or> t = 11 then on_field 1 count_list_elem {}
         else if t = 12 then on_field 1 count_labelled {}
         else if t = 13 then on_field 1 count_gen_map_entry {}
         else if t = 14 then on_field 2 count_labelled {1}
         else if t = 15 then on_field 1 count_identifier {2, 3}
         else comp_null t p 0)"

definition count_value_helper :: "byte list \<Rightarrow> int \<Rightarrow> int option" where
  "count_value_helper q n = map_option snd (decode_cbValue count_value q (V_none, n))"

definition count_record_field_helper :: "byte list \<Rightarrow> int \<Rightarrow> int option" where
  "count_record_field_helper q n =
     map_option snd (pb_decode (labelled_value_field null_label count_value) q (V_none, n))"

definition count_text_map_helper :: "byte list \<Rightarrow> int \<Rightarrow> int option" where
  "count_text_map_helper q n =
     map_option snd (pb_decode (labelled_value_field null_label count_value) q (V_none, n))"

definition count_gen_map_helper :: "byte list \<Rightarrow> int \<Rightarrow> int option" where
  "count_gen_map_helper q n =
     map_option snd (pb_decode (gen_map_entry_field comp_null count_value) q ((V_none, V_none), n))"

definition counting :: "(byte list \<Rightarrow> int \<Rightarrow> int option) \<Rightarrow> byte list \<Rightarrow> parser_ctx \<Rightarrow> parser_ctx option" where
  "counting helper q c = map_option (\<lambda>n. c\<lparr>pc_value_elem_count := n\<rparr>) (helper q (pc_value_elem_count c))"

section \<open>Hashing a value\<close>

fun decode_value_primitive_variants :: "cbValue \<Rightarrow> parser_ctx \<Rightarrow> parser_ctx" where
  "decode_value_primitive_variants V_unit c = hashing (hw_put_byte 0x00) c"
| "decode_value_primitive_variants (V_bool b) c = hashing (\<lambda>h. encode_bool b (hw_put_byte 0x01 h)) c"
| "decode_value_primitive_variants (V_int64 x) c = hashing (\<lambda>h. encode_int64 x (hw_put_byte 0x02 h)) c"
| "decode_value_primitive_variants (V_date x) c = hashing (\<lambda>h. encode_int32 x (hw_put_byte 0x05 h)) c"
| "decode_value_primitive_variants (V_timestamp x) c = hashing (\<lambda>h. encode_int64 x (hw_put_byte 0x04 h)) c"
| "decode_value_primitive_variants (V_numeric s) c = hashing (\<lambda>h. encode_string (Some s) (hw_put_byte 0x03 h)) c"
| "decode_value_primitive_variants (V_party s) c = hashing (\<lambda>h. encode_string (Some s) (hw_put_byte 0x06 h)) c"
| "decode_value_primitive_variants (V_text s) c = hashing (\<lambda>h. encode_string (Some s) (hw_put_byte 0x07 h)) c"
| "decode_value_primitive_variants (V_contract_id s) c = hashing (\<lambda>h. encode_hex_string (Some s) (hw_put_byte 0x08 h)) c"
| "decode_value_primitive_variants _ c = c"

text \<open>The string callbacks read into a 64 byte buffer and are called again while bytes are left, so a
  longer string is hashed in pieces of 63 bytes.\<close>

fun pieces63 :: "byte list \<Rightarrow> byte list list" where
  "pieces63 bs = (if length bs \<le> 63 then [bs] else take 63 bs # pieces63 (drop 63 bs))"

declare pieces63.simps [simp del]

definition decode_record_field_label :: "byte list \<Rightarrow> parser_ctx \<Rightarrow> parser_ctx option" where
  "decode_record_field_label p c =
     Some (fold (\<lambda>piece. hashing (\<lambda>h. encode_string (Some (cstr piece)) (hw_put_byte 0x01 h))) (pieces63 p) c)"

definition decode_variant_constructor :: "byte list \<Rightarrow> parser_ctx \<Rightarrow> parser_ctx option" where
  "decode_variant_constructor p c =
     Some (fold (\<lambda>piece. hashing (encode_string (Some (cstr piece)))) (pieces63 p) c)"

definition decode_textmap_key :: "byte list \<Rightarrow> parser_ctx \<Rightarrow> parser_ctx option" where
  "decode_textmap_key p c =
     Some (fold (\<lambda>piece. hashing (encode_string (Some (cstr piece)))) (pieces63 p) c)"

definition decode_identifier :: "byte list \<Rightarrow> parser_ctx \<Rightarrow> parser_ctx option" where
  "decode_identifier p c = map_option (\<lambda>i. hashing (encode_identifier i) c) (decode_Identifier p Identifier_init_zero)"

definition decode_record_id :: "byte list \<Rightarrow> parser_ctx \<Rightarrow> parser_ctx option" where
  "decode_record_id p c =
     map_option (\<lambda>c'.
       if pc_value_elem_count c' \<noteq> VALUE_ELEM_COUNT_NONE
       then (hashing (encode_int32 (pc_value_elem_count c')) c')\<lparr>pc_value_elem_count := VALUE_ELEM_COUNT_NONE\<rparr>
       else c')
     (decode_identifier p (hashing (hw_put_byte 0x01) c))"

definition decode_enum :: "byte list \<Rightarrow> parser_ctx \<Rightarrow> parser_ctx option" where
  "decode_enum p c =
     map_option (\<lambda>e.
       hashing (encode_string (en_constructor e))
         (if en_has_id e then hashing (encode_identifier (en_id e)) (hashing (hw_put_byte 0x01) c)
          else hashing (hw_put_byte 0x00) c))
     (decode_cbEnum p)"

type_synonym comp_fun = "nat \<Rightarrow> byte list \<Rightarrow> parser_ctx \<Rightarrow> parser_ctx option"

text \<open>\<^verbatim>\<open>decode_value\<close>, \<^verbatim>\<open>decode_list_elem\<close> and \<^verbatim>\<open>decode_value_field\<close> share this body;
  the first two run it only when the stack has room for one more level.\<close>

definition hash_value :: "comp_fun \<Rightarrow> byte list \<Rightarrow> parser_ctx \<Rightarrow> parser_ctx option" where
  "hash_value sub q c0 =
     (case counting count_value_helper q c0 of
        None \<Rightarrow> None
      | Some c1 \<Rightarrow>
          map_option (\<lambda>(v, c2). decode_value_primitive_variants v c2) (decode_cbValue sub q (V_none, c1)))"

definition decode_value :: "comp_fun option \<Rightarrow> byte list \<Rightarrow> parser_ctx \<Rightarrow> parser_ctx option" where
  "decode_value room q c = (case room of None \<Rightarrow> None | Some sub \<Rightarrow> hash_value sub q c)"

definition decode_list_elem :: "comp_fun option \<Rightarrow> byte list \<Rightarrow> parser_ctx \<Rightarrow> parser_ctx option" where
  "decode_list_elem room q c = (case room of None \<Rightarrow> None | Some sub \<Rightarrow> hash_value sub q c)"

definition decode_record_field :: "comp_fun option \<Rightarrow> byte list \<Rightarrow> parser_ctx \<Rightarrow> parser_ctx option" where
  "decode_record_field room q c =
     (case room of
        None \<Rightarrow> None
      | Some sub \<Rightarrow>
          (case counting count_record_field_helper q c of
             None \<Rightarrow> None
           | Some c1 \<Rightarrow>
               map_option (\<lambda>(v, c2). decode_value_primitive_variants v c2)
                 (pb_decode (labelled_value_field decode_record_field_label sub) q (V_none, c1))))"

definition decode_text_map_entry :: "comp_fun option \<Rightarrow> byte list \<Rightarrow> parser_ctx \<Rightarrow> parser_ctx option" where
  "decode_text_map_entry room q c =
     (case room of
        None \<Rightarrow> None
      | Some sub \<Rightarrow>
          (case counting count_text_map_helper q c of
             None \<Rightarrow> None
           | Some c1 \<Rightarrow>
               map_option (\<lambda>(v, c2). decode_value_primitive_variants v c2)
                 (pb_decode (labelled_value_field decode_textmap_key sub) q (V_none, c1))))"

text \<open>A general map entry is decoded twice, first for its key, then for its value.\<close>

definition decode_gen_map_entry :: "comp_fun option \<Rightarrow> byte list \<Rightarrow> parser_ctx \<Rightarrow> parser_ctx option" where
  "decode_gen_map_entry room q c =
     (case room of
        None \<Rightarrow> None
      | Some sub \<Rightarrow>
          (case counting count_gen_map_helper q c of
             None \<Rightarrow> None
           | Some c1 \<Rightarrow>
               (case pb_decode (gen_map_entry_field sub comp_null) q ((V_none, V_none), c1) of
                  None \<Rightarrow> None
                | Some ((k, _), c2) \<Rightarrow>
                    map_option (\<lambda>((_, v), c3). decode_value_primitive_variants v c3)
                      (pb_decode (gen_map_entry_field comp_null sub) q
                         ((V_none, V_none), decode_value_primitive_variants k c2)))))"

text \<open>\<^verbatim>\<open>decode_value_variant\<close> for a composite value, and the nested decode with the callbacks it
  installs.\<close>

definition put_count :: "parser_ctx \<Rightarrow> parser_ctx" where
  "put_count c = (hashing (encode_int32 (pc_value_elem_count c)) c)\<lparr>pc_value_elem_count := VALUE_ELEM_COUNT_NONE\<rparr>"

definition put_presence :: "parser_ctx \<Rightarrow> parser_ctx" where
  "put_presence c =
     (hashing (hw_put_byte (if pc_value_elem_count c = 0 then 0x00 else 0x01)) c)\<lparr>pc_value_elem_count := VALUE_ELEM_COUNT_NONE\<rparr>"

definition decode_value_variant :: "comp_fun option \<Rightarrow> comp_fun" where
  "decode_value_variant room t p c =
     (let only = (\<lambda>cb c'. pb_decode (\<lambda>fw c. if fst fw = 1 then run_callback cb (snd fw) c else Some c) p c')
      in if t = 10 then only (decode_value room) (put_presence (hashing (hw_put_byte 0x09) c))
         else if t = 11 then only (decode_list_elem room) (put_count (hashing (hw_put_byte 0x0A) c))
         else if t = 12 then only (decode_text_map_entry room) (put_count (hashing (hw_put_byte 0x0B) c))
         else if t = 13 then only (decode_gen_map_entry room) (put_count (hashing (hw_put_byte 0x0F) c))
         else if t = 14 then
           pb_decode (\<lambda>fw c.
             if fst fw = 1 then run_callback decode_record_id (snd fw) c
             else if fst fw = 2 then run_callback (decode_record_field room) (snd fw) c
             else Some c) p (hashing (hw_put_byte 0x0C) c)
         else if t = 15 then
           pb_decode (\<lambda>fw c.
             if fst fw = 1 then run_callback decode_identifier (snd fw) c
             else if fst fw = 2 then run_callback decode_variant_constructor (snd fw) c
             else if fst fw = 3 then run_callback (decode_value room) (snd fw) c
             else Some c) p (put_presence (hashing (hw_put_byte 0x0D) c))
         else if t = 16 then decode_enum p (hashing (hw_put_byte 0x0E) c)
         else comp_null t p c)"

primrec hash_comp :: "nat \<Rightarrow> comp_fun" where
  "hash_comp 0 = decode_value_variant None"
| "hash_comp (Suc n) = decode_value_variant (Some (hash_comp n))"

definition decode_value_field :: "parser_env \<Rightarrow> byte list \<Rightarrow> parser_ctx \<Rightarrow> parser_ctx option" where
  "decode_value_field env q c = hash_value (hash_comp (pe_budget env)) q c"

section \<open>Hashing a node\<close>

text \<open>The seed the header lists for this node: the first entry with its id decides, and an entry
  without exactly 32 bytes refuses the node.\<close>

definition find_seed :: "DamlTransaction \<Rightarrow> int \<Rightarrow> byte list option option" where
  "find_seed tx node_id =
     (if node_id < 0 then Some None
      else (case find (\<lambda>n. ns_node_id n = node_id) (tx_node_seeds tx) of
              None \<Rightarrow> Some None
            | Some n \<Rightarrow>
                (case ns_seed n of
                   None \<Rightarrow> None
                 | Some seed \<Rightarrow> if length seed \<noteq> SHA256_HASH_LEN then None else Some (Some seed))))"

definition with_values :: "(values_store \<Rightarrow> values_store) \<Rightarrow> parser_ctx \<Rightarrow> parser_ctx" where
  "with_values f c = c\<lparr>pc_values := f (pc_values c)\<rparr>"

definition claim_once :: "string list \<Rightarrow> parser_ctx \<Rightarrow> parser_ctx" where
  "claim_once children c =
     (if pc_tree_children_claimed c then c
      else c\<lparr>pc_tree := tree_claim_children (pc_node_id c) children (pc_tree c), pc_tree_children_claimed := True\<rparr>)"

text \<open>A second decode of the message with the callback of one field set.\<close>

definition decode_again ::
  "(nat \<times> wire \<Rightarrow> 'm \<Rightarrow> 'm option) \<Rightarrow> nat \<Rightarrow> (byte list \<Rightarrow> parser_ctx \<Rightarrow> parser_ctx option) \<Rightarrow>
   byte list \<Rightarrow> 'm \<times> parser_ctx \<Rightarrow> ('m \<times> parser_ctx) option" where
  "decode_again field tag cb bs mc =
     pb_decode (\<lambda>fw (m, c).
       if fst fw = tag then map_option (\<lambda>c'. (m, c')) (run_callback cb (snd fw) c)
       else map_option (\<lambda>m'. (m', c)) (field fw m)) bs mc"

definition decode_create :: "parser_env \<Rightarrow> byte list \<Rightarrow> parser_ctx \<Rightarrow> parser_ctx option" where
  "decode_create env p c0 =
     (case decode_Create p Node_Create_init_zero of
        None \<Rightarrow> None
      | Some cr \<Rightarrow>
          if \<not> create_is_complete cr then None
          else
            (let c1 = with_values
                  (if pc_is_input_contract c0
                   then values_check_disclosed_contract (pe_sha env) (cr_contract_id cr)
                   else values_record_used_contract (pe_sha env) (pe_mem_ok env) (cr_contract_id cr)) c0
             in (case find_seed (pe_tx env) (pc_node_id c1) of
                   None \<Rightarrow> None
                 | Some seed \<Rightarrow>
                     map_option (\<lambda>(cr2, c3). hashing (encode_create_end cr2) c3)
                       (decode_again Create_field 5 (decode_value_field env) p
                          (Node_Create_init_zero, hashing (encode_create_start cr seed) c1)))))"

definition decode_exercise :: "parser_env \<Rightarrow> byte list \<Rightarrow> parser_ctx \<Rightarrow> parser_ctx option" where
  "decode_exercise env p c0 =
     (case decode_Exercise p Node_Exercise_init_zero of
        None \<Rightarrow> None
      | Some e \<Rightarrow>
          if \<not> exercise_is_complete e \<or> \<not> optional_interface_is_complete (ex_interface_id e) then None
          else
            (let c1 = with_values (values_record_used_contract (pe_sha env) (pe_mem_ok env) (ex_contract_id e)) c0;
                 c2 = claim_once (ex_children e) c1
             in (case find_seed (pe_tx env) (pc_node_id c2) of
                   None \<Rightarrow> None
                 | Some None \<Rightarrow> None
                 | Some (Some seed) \<Rightarrow>
                     (case decode_again Exercise_field 10 (decode_value_field env) p
                             (Node_Exercise_init_zero, hashing (encode_exercise_start e (Some seed)) c2) of
                        None \<Rightarrow> None
                      | Some (e2, c3) \<Rightarrow>
                          map_option (\<lambda>(e3, c5). hashing (encode_exercise_end e3) c5)
                            (decode_again Exercise_field 13 (decode_value_field env) p
                               (Node_Exercise_init_zero,
                                hashing (\<lambda>h. hw_put_byte 0x01 (encode_exercise_middle e2 h)) c3))))))"

definition decode_fetch :: "parser_env \<Rightarrow> byte list \<Rightarrow> parser_ctx \<Rightarrow> parser_ctx option" where
  "decode_fetch env p c =
     (case decode_Fetch p Node_Fetch_init_zero of
        None \<Rightarrow> None
      | Some f \<Rightarrow>
          if \<not> fetch_is_complete f \<or> \<not> optional_interface_is_complete (fe_interface_id f) then None
          else Some (hashing (encode_fetch f)
                 (with_values (values_record_used_contract (pe_sha env) (pe_mem_ok env) (fe_contract_id f)) c)))"

definition decode_rollback :: "byte list \<Rightarrow> parser_ctx \<Rightarrow> parser_ctx option" where
  "decode_rollback p c =
     (case decode_Rollback p \<lparr>ro_children = []\<rparr> of
        None \<Rightarrow> None
      | Some r \<Rightarrow>
          if \<not> require_strings (ro_children r) then None
          else Some (hashing (encode_rollback r) (claim_once (ro_children r) c)))"

text \<open>\<^verbatim>\<open>node_decode_callback\<close>: create 1, fetch 2, exercise 3, rollback 4; any other member of the
  oneof (query by key, 5) is refused. Every branch consumes the message, so nanopb decodes no further.\<close>

definition node_decode_callback :: "parser_env \<Rightarrow> nat \<times> wire \<Rightarrow> parser_ctx \<Rightarrow> parser_ctx option" where
  "node_decode_callback env fw c =
     (if fst fw \<in> {1, 2, 3, 4, 5} then
        (case snd fw of
           WLen p \<Rightarrow>
             if fst fw = 3 then decode_exercise env p c
             else if fst fw = 1 then decode_create env p c
             else if fst fw = 2 then decode_fetch env p c
             else if fst fw = 4 then decode_rollback p c
             else None
         | _ \<Rightarrow> None)
      else Some c)"

definition decode_node_id_field :: "parser_env \<Rightarrow> byte list \<Rightarrow> parser_ctx \<Rightarrow> parser_ctx option" where
  "decode_node_id_field env p c =
     (if length p \<ge> 4 then None
      else (let node_id_str = cstr p;
                root = list_ex (\<lambda>r. r = node_id_str) (tx_roots (pe_tx env))
            in Some (c\<lparr>pc_is_root_node := (if root then True else pc_is_root_node c),
                       pc_node_id := atoint node_id_str\<rparr>)))"

definition init_parser_ctx :: "bool \<Rightarrow> hash_ctx \<Rightarrow> tree_check_context \<Rightarrow> values_store \<Rightarrow> parser_ctx" where
  "init_parser_ctx is_input h tree vals =
     \<lparr>pc_node_id = -1, pc_is_root_node = False, pc_is_input_contract = is_input,
      pc_tree_children_claimed = False, pc_value_elem_count = VALUE_ELEM_COUNT_NONE,
      pc_hash = hw_init h, pc_tree = tree, pc_values = vals\<rparr>"

definition node_message_field :: "parser_env \<Rightarrow> nat \<times> wire \<Rightarrow> parser_ctx \<Rightarrow> parser_ctx option" where
  "node_message_field env fw c =
     (if fst fw = 1 then run_callback (decode_node_id_field env) (snd fw) c
      else if fst fw = 1000 then
        (case snd fw of WLen p \<Rightarrow> pb_decode (node_decode_callback env) p c | _ \<Rightarrow> None)
      else Some c)"

text \<open>The hasher of the transaction is saved while the node hash is computed in a writer of its own.
  The result is the transaction's hash context and the two module states.\<close>

definition proto_deserialize_node ::
  "parser_env \<Rightarrow> byte list \<Rightarrow> hash_ctx \<times> tree_check_context \<times> values_store \<Rightarrow>
   (hash_ctx \<times> tree_check_context \<times> values_store) option" where
  "proto_deserialize_node env buf st =
     (case st of (hasher, tree, vals) \<Rightarrow>
      (case pb_decode (node_message_field env) buf (init_parser_ctx False hasher tree vals) of
         None \<Rightarrow> None
       | Some c \<Rightarrow>
           (let node_hash = hw_finalize (pe_sha env) (pc_hash c);
                tree' = tree_mark_seen (pc_node_id c) (pc_tree c);
                h = (pc_hash c)\<lparr>hw := hw hasher\<rparr>
            in Some (if pc_is_root_node c then encode_hash (Some node_hash) h
                     else set_node_hash (pc_node_id c) node_hash h, tree', pc_values c))))"

text \<open>An input contract: a oneof whose member 1 is a create, and the creation time (field 1000).\<close>

definition input_contract_field :: "parser_env \<Rightarrow> nat \<times> wire \<Rightarrow> u64 \<times> parser_ctx \<Rightarrow> (u64 \<times> parser_ctx) option" where
  "input_contract_field env fw tc =
     (if fst fw = 1 then
        (case snd fw of WLen p \<Rightarrow> map_option (\<lambda>c'. (fst tc, c')) (decode_create env p (snd tc)) | _ \<Rightarrow> None)
      else if fst fw = 1000 then map_option (\<lambda>t. (t, snd tc)) (pb_dec_uint64 (snd fw))
      else Some tc)"

definition proto_deserialize_input_contract ::
  "parser_env \<Rightarrow> byte list \<Rightarrow> hash_ctx \<times> tree_check_context \<times> values_store \<Rightarrow>
   (hash_ctx \<times> tree_check_context \<times> values_store) option" where
  "proto_deserialize_input_contract env buf st =
     (case st of (hasher, tree, vals) \<Rightarrow>
      (case pb_decode (input_contract_field env) buf (0, init_parser_ctx True hasher tree vals) of
         None \<Rightarrow> None
       | Some (created_at, c) \<Rightarrow>
           (let node_hash = hw_finalize (pe_sha env) (pc_hash c);
                h = (pc_hash c)\<lparr>hw := hw hasher\<rparr>
            in Some (encode_hash (Some node_hash) (encode_int64 created_at h), pc_tree c, pc_values c))))"

end
