(* ===== verification/Display_Parser.thy ===== *)
theory Display_Parser
  imports Hashing_Parser
begin

text \<open>
  \<^verbatim>\<open>pb_node_display_parser.c\<close>: the walk over a node, or over a disclosed contract, that
  chooses a review screen, collects the values of its fields by label path, formats them and fills the
  pairs of the screen. \<^verbatim>\<open>pb_callback_context_t\<close> is the record \<^verbatim>\<open>display_ctx\<close>; the
  static variables and the display members of \<^verbatim>\<open>G_context.tx_info\<close> are \<^verbatim>\<open>display_state\<close>.
  The static array \<^verbatim>\<open>tx_fields\<close> is cleared by \<^verbatim>\<open>reset_display_parser_state\<close> after every
  walk that filled it, so it lives in the context of the walk.

  \<^verbatim>\<open>display_env\<close> holds what the code does not decide: whether the n-th allocation of a walk
  succeeds, the stack budget, the screen size, and the heap bytes after a stored value.
\<close>

section \<open>State\<close>

record display_env =
  de_sha :: sha256
  de_mem :: "nat \<Rightarrow> bool"
  de_budget :: nat
  de_wallet_screen :: bool
  de_beyond :: "byte list"

record display_state =
  di_pairs :: "(string \<times> byte list) list"
  clear_signing_available :: bool
  display_failed :: bool
  di_review_title :: cstring
  di_review_finish :: cstring
  metadata_display_conf :: "display_config option"
  expected_contract_id :: cstring

record display_ctx =
  dx_field_path :: cstring
  dx_tx_fields :: "tx_field list option"
  dx_review_title :: cstring
  dx_review_finish :: cstring
  dx_unknown_token :: bool
  dx_unreadable :: bool
  dx_contract_id :: cstring
  dx_node_module :: cstring
  dx_node_entity :: cstring
  dx_node_choice_id :: cstring
  dx_record_depth :: byte
  dx_values_opened :: u32
  dx_destination :: destination
  dx_amount_check :: amount_check
  dx_allocs :: nat
  dx_state :: display_state

definition reset_display_parser_state :: "display_state \<Rightarrow> display_state" where
  "reset_display_parser_state s = s\<lparr>metadata_display_conf := None, expected_contract_id := None\<rparr>"

definition cleanup_display_items :: "display_state \<Rightarrow> display_state" where
  "cleanup_display_items s = s\<lparr>di_pairs := []\<rparr>"

definition app_mem_alloc :: "display_env \<Rightarrow> display_ctx \<Rightarrow> bool \<times> display_ctx" where
  "app_mem_alloc env c = (de_mem env (dx_allocs c), c\<lparr>dx_allocs := dx_allocs c + 1\<rparr>)"

definition fields_of :: "display_ctx \<Rightarrow> tx_field list" where
  "fields_of c = (case dx_tx_fields c of None \<Rightarrow> [] | Some fs \<Rightarrow> fs)"

definition upd_field :: "nat \<Rightarrow> (tx_field \<Rightarrow> tx_field) \<Rightarrow> display_ctx \<Rightarrow> display_ctx" where
  "upd_field i f c = c\<lparr>dx_tx_fields := map_option (\<lambda>fs. fs[i := f (fs ! i)]) (dx_tx_fields c)\<rparr>"

definition field_path_of :: "tx_field \<Rightarrow> string" where
  "field_path_of f = (case tf_config f of None \<Rightarrow> [] | Some cfg \<Rightarrow> fc_path cfg)"

section \<open>Formatting\<close>

text \<open>Trailing zeros of the fraction are cut, then the dot if nothing is left of it.\<close>

definition strip_zeros :: "byte list \<Rightarrow> byte list" where
  "strip_zeros v = rev (dropWhile (\<lambda>b. b = byte_of_char CHR ''0'') (rev v))"

definition format_amount_field :: "byte list \<Rightarrow> byte list" where
  "format_amount_field value =
     (let v = c_bytes value; dot = byte_of_char CHR ''.'' in
      if v = [] \<or> dot \<notin> set v then v
      else (let whole = takeWhile (\<lambda>b. b \<noteq> dot) v;
                frac = strip_zeros (tl (dropWhile (\<lambda>b. b \<noteq> dot) v))
            in if frac = [] then whole else whole @ dot # frac))"

definition last_field :: "(string \<Rightarrow> bool) \<Rightarrow> tx_field list \<Rightarrow> nat option" where
  "last_field P fs = (case filter (\<lambda>i. P (field_path_of (fs ! i))) [0..<length fs] of [] \<Rightarrow> None | is \<Rightarrow> Some (last is))"

definition field_value :: "tx_field list \<Rightarrow> nat option \<Rightarrow> byte list option" where
  "field_value fs oi = (case oi of None \<Rightarrow> None | Some i \<Rightarrow> tf_value (fs ! i))"

definition append_ticker :: "byte list \<Rightarrow> string \<Rightarrow> byte list" where
  "append_ticker v ticker = v @ str_bytes ('' '' @ ticker)"

definition format_token_amount_field :: "display_env \<Rightarrow> nat \<Rightarrow> display_ctx \<Rightarrow> display_ctx" where
  "format_token_amount_field env i c0 =
     (let c = upd_field i (\<lambda>f. f\<lparr>tf_value := map_option format_amount_field (tf_value f)\<rparr>) c0;
          fs = fields_of c;
          inst = last_field (\<lambda>p. p = fc_path INSTRUMENT_ID_FIELD \<or> p = fc_path PROXY_INSTRUMENT_ID_FIELD) fs;
          adm = last_field (\<lambda>p. p = fc_path INSTRUMENT_ID_ADMIN_FIELD \<or> p = fc_path INSTRUMENT_ID_PROXY_ADMIN_FIELD) fs
      in (case (field_value fs inst, field_value fs adm, inst, adm) of
            (Some iv, Some av, Some ii, Some ai) \<Rightarrow>
              (case find (\<lambda>m. c_bytes iv = str_bytes (itm_id m) \<and> c_bytes av = str_bytes (itm_admin m))
                      INSTRUMENT_TO_TICKER_MAPPINGS of
                 None \<Rightarrow> c\<lparr>dx_unknown_token := True\<rparr>
               | Some m \<Rightarrow>
                   (case app_mem_alloc env c of
                      (False, c1) \<Rightarrow> upd_field i (\<lambda>f. f\<lparr>tf_store_failed := True\<rparr>) c1
                    | (True, c1) \<Rightarrow>
                        (let c2 = upd_field i (\<lambda>f. f\<lparr>tf_value :=
                                    map_option (\<lambda>v. append_ticker v (itm_ticker m)) (tf_value f)\<rparr>) c1;
                             c3 = upd_field ai (\<lambda>f. f\<lparr>tf_display := False\<rparr>)
                                    (upd_field ii (\<lambda>f. f\<lparr>tf_display := False\<rparr>) c2)
                         in if itm_ticker m = NATIVE_COIN_TICKER \<and> dx_review_title c3 = Some TOKEN_TRANSFER_REVIEW_TITLE
                            then c3\<lparr>dx_review_title := Some NATIVE_COIN_TRANSFER_REVIEW_TITLE,
                                    dx_review_finish := Some NATIVE_COIN_TRANSFER_REVIEW_FINISH\<rparr>
                            else c3)))
          | _ \<Rightarrow> c))"

definition format_native_amount_field :: "display_env \<Rightarrow> nat \<Rightarrow> display_ctx \<Rightarrow> display_ctx" where
  "format_native_amount_field env i c0 =
     (let c = upd_field i (\<lambda>f. f\<lparr>tf_value := map_option format_amount_field (tf_value f)\<rparr>) c0
      in (case app_mem_alloc env c of
            (False, c1) \<Rightarrow> upd_field i (\<lambda>f. f\<lparr>tf_store_failed := True\<rparr>) c1
          | (True, c1) \<Rightarrow>
              upd_field i (\<lambda>f. f\<lparr>tf_value := map_option (\<lambda>v. append_ticker v NATIVE_COIN_TICKER) (tf_value f)\<rparr>) c1))"

text \<open>\<^verbatim>\<open>gmtime_r\<close> on a non-negative time: the proleptic Gregorian date, counted in years that
  start in March so that the leap day comes last. It does not fail here: the largest year a 64-bit
  number of microseconds reaches fits an int.\<close>

text \<open>The year and the month as the format string prints them, after \<^verbatim>\<open>+ 1900\<close> and \<^verbatim>\<open>+ 1\<close>.\<close>

record tm =
  tm_year :: nat
  tm_mon :: nat
  tm_mday :: nat
  tm_hour :: nat
  tm_min :: nat
  tm_sec :: nat

definition civil_from_days :: "nat \<Rightarrow> nat \<times> nat \<times> nat" where
  "civil_from_days days =
     (let z = days + 719468;
          era = z div 146097;
          doe = z mod 146097;
          yoe = (doe + doe div 36524 - doe div 1460 - doe div 146096) div 365;
          doy = doe - (365 * yoe + yoe div 4 - yoe div 100);
          mp = (5 * doy + 2) div 153;
          d = doy - (153 * mp + 2) div 5 + 1;
          m = (if mp < 10 then mp + 3 else mp - 9)
      in (yoe + era * 400 + (if m \<le> 2 then 1 else 0), m, d))"

definition gmtime_r :: "nat \<Rightarrow> tm" where
  "gmtime_r secs =
     (case civil_from_days (secs div 86400) of
        (y, m, d) \<Rightarrow> (let r = secs mod 86400 in
          \<lparr>tm_year = y, tm_mon = m, tm_mday = d, tm_hour = r div 3600,
           tm_min = r mod 3600 div 60, tm_sec = r mod 60\<rparr>))"

definition dec_char :: "nat \<Rightarrow> char" where
  "dec_char n = char_of (48 + n mod 10 :: nat)"

fun dec_str :: "nat \<Rightarrow> string" where
  "dec_str n = (if n < 10 then [dec_char n] else dec_str (n div 10) @ [dec_char n])"

declare dec_str.simps [simp del]

text \<open>\<^verbatim>\<open>%0<w>d\<close>\<close>

definition dec_pad :: "nat \<Rightarrow> nat \<Rightarrow> string" where
  "dec_pad w n = (let s = dec_str n in replicate (w - length s) CHR ''0'' @ s)"

definition timestamp_text :: "bool \<Rightarrow> tm \<Rightarrow> string" where
  "timestamp_text wallet t =
     (let hour = (if tm_hour t mod 12 = 0 then 12 else tm_hour t mod 12);
          am_pm = (if tm_hour t \<ge> 12 then ''PM'' else ''AM'');
          date = dec_pad 4 (tm_year t) @ ''-'' @ dec_pad 2 (tm_mon t) @ ''-'' @ dec_pad 2 (tm_mday t);
          clock = dec_pad 2 hour @ '':'' @ dec_pad 2 (tm_min t) @ '':'' @ dec_pad 2 (tm_sec t);
          nl = [CHR 0x0A]
      in if wallet then date @ '' '' @ clock @ nl @ am_pm @ '' UTC''
         else date @ nl @ clock @ '' '' @ am_pm @ '' UTC'')"

text \<open>\<^verbatim>\<open>read_u64_be\<close> reads eight bytes whatever the value is: a text shorter than that is read
  past its terminator.\<close>

definition read_u64_be :: "display_env \<Rightarrow> byte list \<Rightarrow> u64" where
  "read_u64_be env v = be_word (take 8 (v @ 0 # de_beyond env))"

definition format_timestamp_field :: "display_env \<Rightarrow> nat \<Rightarrow> display_ctx \<Rightarrow> display_ctx" where
  "format_timestamp_field env i c =
     (case tf_value (fields_of c ! i) of
        None \<Rightarrow> c
      | Some v \<Rightarrow>
          (case app_mem_alloc env c of
             (False, c1) \<Rightarrow> upd_field i (\<lambda>f. f\<lparr>tf_store_failed := True\<rparr>) c1
           | (True, c1) \<Rightarrow>
               (let t = gmtime_r (unat (read_u64_be env v) div 1000000)
                in upd_field i (\<lambda>f. f\<lparr>tf_value := Some (str_bytes (timestamp_text (de_wallet_screen env) t))\<rparr>) c1)))"

fun format_callback_fun :: "format_callback \<Rightarrow> display_env \<Rightarrow> nat \<Rightarrow> display_ctx \<Rightarrow> display_ctx" where
  "format_callback_fun NO_FORMAT env i c = c"
| "format_callback_fun FORMAT_TOKEN_AMOUNT env i c = format_token_amount_field env i c"
| "format_callback_fun FORMAT_NATIVE_AMOUNT env i c = format_native_amount_field env i c"
| "format_callback_fun FORMAT_TIMESTAMP env i c = format_timestamp_field env i c"

section \<open>Storing values\<close>

definition find_field_by_path :: "display_ctx \<Rightarrow> string \<Rightarrow> nat option" where
  "find_field_by_path c path =
     (case filter (\<lambda>i. field_path_of (fields_of c ! i) = path) [0..<length (fields_of c)] of
        [] \<Rightarrow> None | i # _ \<Rightarrow> Some i)"

definition set_field_value :: "display_env \<Rightarrow> nat \<Rightarrow> byte list \<Rightarrow> bool \<Rightarrow> display_ctx \<Rightarrow> display_ctx" where
  "set_field_value env i value timestamp c =
     (if tf_matched (fields_of c ! i) then upd_field i (\<lambda>f. f\<lparr>tf_store_failed := True\<rparr>) c
      else (let c1 = upd_field i (\<lambda>f. f\<lparr>tf_matched := True\<rparr>) c in
            if \<not> timestamp \<and> value = [] then c1
            else (case app_mem_alloc env c1 of
                    (False, c2) \<Rightarrow> upd_field i (\<lambda>f. f\<lparr>tf_store_failed := True\<rparr>) c2
                  | (True, c2) \<Rightarrow> upd_field i (\<lambda>f. f\<lparr>tf_value := Some value\<rparr>) c2)))"

definition take_field_value :: "nat \<Rightarrow> string \<Rightarrow> display_ctx \<Rightarrow> display_ctx" where
  "take_field_value i value c =
     (if tf_matched (fields_of c ! i) then upd_field i (\<lambda>f. f\<lparr>tf_store_failed := True\<rparr>) c
      else (let c1 = upd_field i (\<lambda>f. f\<lparr>tf_matched := True\<rparr>) c in
            if length value = 0 then c1
            else if length value > MAX_FIELD_VALUE_LEN then upd_field i (\<lambda>f. f\<lparr>tf_store_failed := True\<rparr>) c1
            else upd_field i (\<lambda>f. f\<lparr>tf_value := Some (str_bytes value)\<rparr>) c1))"

section \<open>Choosing the screen\<close>

text \<open>\<^verbatim>\<open>init_transaction_pairs\<close> is inside an assertion: a failed allocation stops the app, so
  the model goes on with an empty array of pairs.\<close>

definition init_transaction_pairs :: "display_state \<Rightarrow> display_state" where
  "init_transaction_pairs s = s\<lparr>di_pairs := []\<rparr>"

definition set_display_config :: "display_env \<Rightarrow> display_config \<Rightarrow> display_ctx \<Rightarrow> display_ctx" where
  "set_display_config env cfg c =
     (let fs = map (\<lambda>fc. \<lparr>tf_value = None, tf_config = Some fc, tf_matched = False, tf_display = True,
                           tf_store_failed = False\<rparr>) (dc_fields cfg);
          c1 = c\<lparr>dx_tx_fields := Some fs, dx_review_title := Some (dc_review_title cfg),
                 dx_review_finish := Some (dc_review_finish cfg), dx_destination := dc_destination cfg,
                 dx_amount_check := dc_amount_check cfg, dx_state := init_transaction_pairs (dx_state c)\<rparr>
      in if dc_review_title cfg = PREAPPROVAL_PROPOSAL_REVIEW_TITLE
         then set_field_value env PREAPPROVAL_ASSET_FIELD_INDEX (str_bytes PREAPPROVAL_ASSET_FIELD_VALUE) False
                (upd_field PREAPPROVAL_ASSET_FIELD_INDEX (\<lambda>f. f\<lparr>tf_config := Some PREAPPROVAL_ASSET_FIELD\<rparr>) c1)
         else c1)"

definition app_mem_strdup :: "display_env \<Rightarrow> cstring \<Rightarrow> display_ctx \<Rightarrow> cstring \<times> display_ctx" where
  "app_mem_strdup env s c =
     (case s of
        None \<Rightarrow> (None, c)
      | Some x \<Rightarrow> (case app_mem_alloc env c of (ok, c1) \<Rightarrow> (if ok then Some x else None, c1)))"

definition set_node_identity :: "display_env \<Rightarrow> cstring \<Rightarrow> Identifier option \<Rightarrow> cstring \<Rightarrow> display_ctx \<Rightarrow> display_ctx" where
  "set_node_identity env contract_id template_id choice_id c0 =
     (let (cid, c1) = app_mem_strdup env contract_id c0;
          (md, c2) = app_mem_strdup env (Option.bind template_id id_module) c1;
          (en, c3) = app_mem_strdup env (Option.bind template_id id_entity) c2;
          (ch, c4) = app_mem_strdup env choice_id c3
      in c4\<lparr>dx_contract_id := cid, dx_node_module := md, dx_node_entity := en, dx_node_choice_id := ch\<rparr>)"

definition read_exercise_identity :: "display_env \<Rightarrow> byte list \<Rightarrow> display_ctx \<Rightarrow> display_ctx" where
  "read_exercise_identity env p c =
     (case decode_Exercise p Node_Exercise_init_zero of
        Some e \<Rightarrow> set_node_identity env (ex_contract_id e)
                    (if ex_has_template_id e then Some (ex_template_id e) else None) (ex_choice_id e) c
      | None \<Rightarrow> set_node_identity env None None None c)"

definition read_create_identity :: "display_env \<Rightarrow> byte list \<Rightarrow> display_ctx \<Rightarrow> display_ctx" where
  "read_create_identity env p c =
     (case decode_Create p Node_Create_init_zero of
        Some cr \<Rightarrow> set_node_identity env (cr_contract_id cr)
                    (if cr_has_template_id cr then Some (cr_template_id cr) else None) None c
      | None \<Rightarrow> set_node_identity env None None None c)"

definition is_node_template :: "display_ctx \<Rightarrow> cstring \<Rightarrow> cstring \<Rightarrow> bool" where
  "is_node_template c md en \<longleftrightarrow>
     md \<noteq> None \<and> en \<noteq> None \<and> dx_node_module c \<noteq> None \<and> dx_node_entity c \<noteq> None \<and>
     md = dx_node_module c \<and> en = dx_node_entity c"

definition config_matches_node_action :: "display_ctx \<Rightarrow> display_config \<Rightarrow> Identifier \<Rightarrow> bool" where
  "config_matches_node_action c cfg i =
     (if dx_node_choice_id c = None then is_node_template c (id_module i) (id_entity i)
      else (case find (\<lambda>n. is_node_template c (Some (ic_module n)) (Some (ic_entity n))) (dc_node_identifiers cfg) of
              None \<Rightarrow> False
            | Some _ \<Rightarrow> id_entity i \<noteq> None \<and> id_entity i = dx_node_choice_id c))"

text \<open>The names of the identifier are not NULL here: the hashing pass refuses a node with a record id
  that lacks one. In the model a missing name matches nothing.\<close>

definition match_identifier :: "Identifier \<Rightarrow> identifier_config \<Rightarrow> bool" where
  "match_identifier i cfg \<longleftrightarrow> id_module i = Some (ic_module cfg) \<and> id_entity i = Some (ic_entity cfg)"

definition metadata_match :: "display_ctx \<Rightarrow> Identifier \<Rightarrow> display_config option" where
  "metadata_match c i =
     (case metadata_display_conf (dx_state c) of
        None \<Rightarrow> None
      | Some conf \<Rightarrow>
          (let contract_id_matches =
                 (dx_contract_id c \<noteq> None \<and> expected_contract_id (dx_state c) \<noteq> None \<and>
                  dx_contract_id c = expected_contract_id (dx_state c))
           in if list_ex (\<lambda>ic. match_identifier i ic \<and> contract_id_matches \<and>
                            is_node_template c (id_module i) (id_entity i)) (dc_metadata_identifiers conf)
              then Some conf else None))"

definition find_tx_type_and_config :: "display_env \<Rightarrow> Identifier \<Rightarrow> display_ctx \<Rightarrow> display_ctx" where
  "find_tx_type_and_config env i c =
     (if dx_tx_fields c \<noteq> None then c
      else (case metadata_match c i of
              Some conf \<Rightarrow> set_display_config env conf c
            | None \<Rightarrow>
                (case find (\<lambda>cfg. match_identifier i (dc_identifier cfg) \<and> config_matches_node_action c cfg i) DISPLAY_CONFIGS of
                   None \<Rightarrow> c
                 | Some cfg \<Rightarrow>
                     if dc_metadata_identifiers cfg \<noteq> [] then
                       (case app_mem_strdup env (dx_contract_id c) c of
                          (cid, c1) \<Rightarrow> c1\<lparr>dx_state := (dx_state c1)\<lparr>metadata_display_conf := Some cfg,
                                                            expected_contract_id := cid\<rparr>\<rparr>)
                     else set_display_config env cfg c)))"

definition find_tx_field :: "display_env \<Rightarrow> cbValue \<Rightarrow> display_ctx \<Rightarrow> display_ctx" where
  "find_tx_field env v c =
     (if dx_tx_fields c = None then c
      else (case dx_field_path c of
              None \<Rightarrow> c
            | Some path \<Rightarrow>
                (case find_field_by_path c path of
                   None \<Rightarrow> c
                 | Some i \<Rightarrow>
                     (case v of
                        V_party s \<Rightarrow> take_field_value i s c
                      | V_numeric s \<Rightarrow> take_field_value i s c
                      | V_text s \<Rightarrow> take_field_value i s c
                      | V_timestamp t \<Rightarrow> set_field_value env i (u64_be t) True c
                      | V_composite n \<Rightarrow> (if n = 10 then c else upd_field i (\<lambda>f. f\<lparr>tf_store_failed := True\<rparr>) c)
                      | _ \<Rightarrow> upd_field i (\<lambda>f. f\<lparr>tf_store_failed := True\<rparr>) c))))"

section \<open>Field paths\<close>

definition init_field_path :: "display_env \<Rightarrow> display_ctx \<Rightarrow> display_ctx" where
  "init_field_path env c =
     (case app_mem_alloc env c of (ok, c1) \<Rightarrow> c1\<lparr>dx_field_path := (if ok then Some [] else None)\<rparr>)"

definition escape_dots :: "string \<Rightarrow> string" where
  "escape_dots s = concat (map (\<lambda>ch. if ch = CHR ''.'' then [CHR 0x5C, ch] else [ch]) s)"

definition push_path :: "string \<Rightarrow> display_ctx \<Rightarrow> display_ctx" where
  "push_path segment c =
     (case (dx_tx_fields c, dx_field_path c) of
        (Some _, Some path) \<Rightarrow>
          if length path + 1 + length (escape_dots segment) \<ge> MAX_FIELD_PATH_LEN then c\<lparr>dx_unreadable := True\<rparr>
          else c\<lparr>dx_field_path := Some (path @ (if path \<noteq> [] then ''.'' else []) @ escape_dots segment)\<rparr>
      | _ \<Rightarrow> c)"

definition pop_path :: "nat \<Rightarrow> display_ctx \<Rightarrow> display_ctx" where
  "pop_path parent_len c = c\<lparr>dx_field_path := map_option (take parent_len) (dx_field_path c)\<rparr>"

definition path_len :: "display_ctx \<Rightarrow> nat" where
  "path_len c = (case dx_field_path c of None \<Rightarrow> 0 | Some p \<Rightarrow> length p)"

section \<open>Decoding callbacks\<close>

definition read_path_segment :: "byte list \<Rightarrow> display_ctx \<Rightarrow> display_ctx option" where
  "read_path_segment p c =
     (if length p \<ge> 64 then Some (c\<lparr>dx_unreadable := True\<rparr>)
      else if length p = 0 \<or> 0 \<in> set p then Some (c\<lparr>dx_unreadable := True\<rparr>)
      else Some (push_path (map char_of_byte p) c))"

text \<open>The label of a record field and the key of a text map entry: the first component says whether
  the callback ran, \<^verbatim>\<open>values_before\<close> is the counter when the field started.\<close>

definition dp_decode_label :: "u32 \<Rightarrow> byte list \<Rightarrow> bool \<times> display_ctx \<Rightarrow> (bool \<times> display_ctx) option" where
  "dp_decode_label values_before p lc =
     (let c = snd lc;
          c1 = (if dx_values_opened c \<noteq> values_before then c\<lparr>dx_unreadable := True\<rparr> else c)
      in map_option (Pair True) (read_path_segment p c1))"

definition decode_record_id_field :: "display_env \<Rightarrow> byte list \<Rightarrow> display_ctx \<Rightarrow> display_ctx option" where
  "decode_record_id_field env p c =
     (case decode_Identifier p Identifier_init_zero of
        None \<Rightarrow> None
      | Some i \<Rightarrow> Some (if dx_record_depth c = 1 then find_tx_type_and_config env i c else c))"

type_synonym dp_comp = "nat \<Rightarrow> byte list \<Rightarrow> display_ctx \<Rightarrow> display_ctx option"

definition dp_decode_record_field :: "display_env \<Rightarrow> dp_comp option \<Rightarrow> byte list \<Rightarrow> display_ctx \<Rightarrow> display_ctx option" where
  "dp_decode_record_field env room q c =
     (if dx_tx_fields c = None then Some c
      else (case room of
              None \<Rightarrow> None
            | Some sub \<Rightarrow>
                map_option (\<lambda>(v, seen, c1).
                  pop_path (path_len c) (find_tx_field env v (if \<not> seen then c1\<lparr>dx_unreadable := True\<rparr> else c1)))
                (pb_decode (labelled_value_field (dp_decode_label (dx_values_opened c))
                   (\<lambda>t p (l, c'). map_option (Pair l) (sub t p c'))) q (V_none, False, c))))"

definition dp_decode_value :: "display_env \<Rightarrow> dp_comp option \<Rightarrow> byte list \<Rightarrow> display_ctx \<Rightarrow> display_ctx option" where
  "dp_decode_value env room q c =
     (case room of
        None \<Rightarrow> None
      | Some sub \<Rightarrow> map_option (\<lambda>(v, c1). find_tx_field env v c1) (decode_cbValue sub q (V_none, c)))"

definition decode_value_text_map :: "display_env \<Rightarrow> dp_comp option \<Rightarrow> byte list \<Rightarrow> display_ctx \<Rightarrow> display_ctx option" where
  "decode_value_text_map env room q c =
     (case room of
        None \<Rightarrow> None
      | Some sub \<Rightarrow>
          map_option (\<lambda>(v, seen, c1).
            pop_path (path_len c) (find_tx_field env v
              (if \<not> seen \<and> dx_tx_fields c1 \<noteq> None then c1\<lparr>dx_unreadable := True\<rparr> else c1)))
          (pb_decode (labelled_value_field (dp_decode_label (dx_values_opened c))
             (\<lambda>t p (l, c'). map_option (Pair l) (sub t p c'))) q (V_none, False, c)))"

definition dp_decode_value_variant :: "display_env \<Rightarrow> dp_comp option \<Rightarrow> dp_comp" where
  "dp_decode_value_variant env room t p c0 =
     (let c = c0\<lparr>dx_values_opened := dx_values_opened c0 + 1\<rparr>;
          only = (\<lambda>cb. pb_decode (\<lambda>fw c. if fst fw = 1 then run_callback cb (snd fw) c else Some c) p c)
      in if t = 14 then
           map_option (\<lambda>c'. c'\<lparr>dx_record_depth := dx_record_depth c' - 1\<rparr>)
             (pb_decode (\<lambda>fw c.
                if fst fw = 1 then run_callback (decode_record_id_field env) (snd fw) c
                else if fst fw = 2 then run_callback (dp_decode_record_field env room) (snd fw) c
                else Some c) p (c\<lparr>dx_record_depth := dx_record_depth c + 1\<rparr>))
         else if t = 10 then only (dp_decode_value env room)
         else if t = 12 then only (decode_value_text_map env room)
         else comp_null t p c)"

primrec dp_comp_at :: "display_env \<Rightarrow> nat \<Rightarrow> dp_comp" where
  "dp_comp_at env 0 = dp_decode_value_variant env None"
| "dp_comp_at env (Suc n) = dp_decode_value_variant env (Some (dp_comp_at env n))"

text \<open>The value of a node's argument is decoded in place, so it costs no stack level of its own.\<close>

definition argument_field :: "display_env \<Rightarrow> wire \<Rightarrow> display_ctx \<Rightarrow> display_ctx option" where
  "argument_field env w c =
     (case w of
        WLen q \<Rightarrow> map_option snd (decode_cbValue (dp_comp_at env (de_budget env)) q (V_none, c))
      | _ \<Rightarrow> None)"

definition node_display_field :: "display_env \<Rightarrow> (nat \<Rightarrow> bool) \<Rightarrow> nat \<Rightarrow> nat \<times> wire \<Rightarrow> display_ctx \<Rightarrow> display_ctx option" where
  "node_display_field env is_string argument_tag fw c =
     (let t = fst fw; w = snd fw in
      if is_string t then map_option (\<lambda>_. c) (pb_dec_string w)
      else if t = 4 then (if len_ok identifier_ok w then Some c else None)
      else if t = argument_tag then argument_field env w c
      else Some c)"

text \<open>\<^verbatim>\<open>node_decode_callback\<close> and the decode of the member of \<^verbatim>\<open>NodeDisplay\<close> it prepares.\<close>

definition dp_node_decode_callback :: "display_env \<Rightarrow> nat \<times> wire \<Rightarrow> display_ctx \<Rightarrow> display_ctx option" where
  "dp_node_decode_callback env fw c =
     (case (fst fw, snd fw) of
        (t, WLen p) \<Rightarrow>
          if t = 3 then pb_decode (node_display_field env (\<lambda>t. t = 2 \<or> t = 9) 10) p (read_exercise_identity env p c)
          else if t = 1 then pb_decode (node_display_field env (\<lambda>t. t = 2) 5) p (read_create_identity env p c)
          else if t = 2 then
            (if all_fields (\<lambda>(u, v). if u = 4 \<or> u = 8 then len_ok identifier_ok v
                                     else if 1 \<le> u \<and> u \<le> 7 then pb_dec_string v \<noteq> None else True) p
             then Some c else None)
          else if t = 4 then (if decode_Rollback p \<lparr>ro_children = []\<rparr> \<noteq> None then Some c else None)
          else Some c
      | (t, _) \<Rightarrow> if 1 \<le> t \<and> t \<le> 4 then None else Some c)"

definition versioned_node_decode_callback :: "display_env \<Rightarrow> nat \<times> wire \<Rightarrow> display_ctx \<Rightarrow> display_ctx option" where
  "versioned_node_decode_callback env fw c =
     (if fst fw = 1 then pb_null_callback (snd fw) c
      else if fst fw = 1000 then
        (case snd fw of WLen p \<Rightarrow> pb_decode (dp_node_decode_callback env) p c | _ \<Rightarrow> None)
      else Some c)"

definition dp_decode_create :: "display_env \<Rightarrow> byte list \<Rightarrow> display_ctx \<Rightarrow> display_ctx option" where
  "dp_decode_create env p c =
     map_option snd
       (pb_decode (\<lambda>fw (m, c).
          if fst fw = 5 then map_option (Pair m)
            (run_callback (dp_decode_value env (if de_budget env = 0 then None else Some (dp_comp_at env (de_budget env - 1)))) (snd fw) c)
          else map_option (\<lambda>m'. (m', c)) (Create_field fw m)) p
          (Node_Create_init_zero, read_create_identity env p c))"

definition input_contract_display_field :: "display_env \<Rightarrow> nat \<times> wire \<Rightarrow> display_ctx \<Rightarrow> display_ctx option" where
  "input_contract_display_field env fw c =
     (if fst fw = 1 then (case snd fw of WLen p \<Rightarrow> dp_decode_create env p c | _ \<Rightarrow> None)
      else if fst fw = 1000 then map_option (\<lambda>_. c) (pb_dec_uint64 (snd fw))
      else Some c)"

section \<open>Filling the screen\<close>

datatype format_result = FMT_OK display_ctx | FMT_DROPPED display_ctx | FMT_MISSING display_ctx

text \<open>One turn of the first loop of \<^verbatim>\<open>format_and_populate_display_items\<close>.\<close>

definition format_step :: "display_env \<Rightarrow> nat \<Rightarrow> display_ctx \<Rightarrow> format_result" where
  "format_step env i c =
     (let f = fields_of c ! i in
      case tf_config f of
        None \<Rightarrow> FMT_OK c
      | Some cfg \<Rightarrow>
          if tf_store_failed f then FMT_DROPPED c
          else if fc_mandatory cfg \<and> tf_value f = None then FMT_MISSING c
          else (let c1 = (if tf_value f \<noteq> None \<and> tf_display f then format_callback_fun (fc_format cfg) env i c else c)
                in if tf_store_failed (fields_of c1 ! i) then FMT_DROPPED c1
                   else if dx_unknown_token c1 then FMT_DROPPED c1
                   else FMT_OK c1))"

fun format_loop :: "display_env \<Rightarrow> nat list \<Rightarrow> display_ctx \<Rightarrow> format_result" where
  "format_loop env [] c = FMT_OK c"
| "format_loop env (i # is) c =
     (case format_step env i c of FMT_OK c1 \<Rightarrow> format_loop env is c1 | r \<Rightarrow> r)"

definition display_pairs :: "tx_field list \<Rightarrow> (string \<times> byte list) list" where
  "display_pairs fs =
     concat (map (\<lambda>f. case (tf_value f, Option.bind (tf_config f) fc_item_name) of
                        (Some v, Some item) \<Rightarrow> if tf_display f then [(item, v)] else []
                      | _ \<Rightarrow> []) fs)"

text \<open>The result is the return code (true for 0), the review strings of the context and the state.\<close>

definition format_and_populate_display_items ::
  "display_env \<Rightarrow> display_ctx \<Rightarrow> values_store \<Rightarrow> bool \<times> display_ctx \<times> values_store" where
  "format_and_populate_display_items env c vals =
     (let vals' = values_bind_from_display (de_sha env) (fields_of c) (dx_destination c) (dx_amount_check c) vals;
          dropped = (\<lambda>s. cleanup_display_items (s\<lparr>clear_signing_available := False, display_failed := True\<rparr>));
          finish = (\<lambda>ok s c'. (ok, c'\<lparr>dx_state := reset_display_parser_state s\<rparr>, vals'))
      in if dx_unreadable c then finish True (dropped (dx_state c)) c
         else (case format_loop env [0..<length (fields_of c)] c of
                 FMT_DROPPED c1 \<Rightarrow> finish True (dropped (dx_state c1)) c1
               | FMT_MISSING c1 \<Rightarrow> finish False (cleanup_display_items ((dx_state c1)\<lparr>clear_signing_available := False\<rparr>)) c1
               | FMT_OK c1 \<Rightarrow>
                   finish True ((dx_state c1)\<lparr>di_pairs := display_pairs (fields_of c1), clear_signing_available := True\<rparr>) c1))"

definition display_ctx_init :: "display_state \<Rightarrow> display_ctx" where
  "display_ctx_init s = \<lparr>dx_field_path = None, dx_tx_fields = None, dx_review_title = None, dx_review_finish = None,
     dx_unknown_token = False, dx_unreadable = False, dx_contract_id = None, dx_node_module = None,
     dx_node_entity = None, dx_node_choice_id = None, dx_record_depth = 0, dx_values_opened = 0,
     dx_destination = DEST_NONE, dx_amount_check = AMOUNT_NOT_COMPARABLE, dx_allocs = 0, dx_state = s\<rparr>"

definition process_display_parsing ::
  "display_env \<Rightarrow> (nat \<times> wire \<Rightarrow> display_ctx \<Rightarrow> display_ctx option) \<Rightarrow> byte list \<Rightarrow>
   display_state \<times> values_store \<Rightarrow> bool \<times> display_state \<times> values_store" where
  "process_display_parsing env field buf sv =
     (case sv of (s, vals) \<Rightarrow>
      (case pb_decode field buf (init_field_path env (display_ctx_init s)) of
         None \<Rightarrow> (False, reset_display_parser_state (cleanup_display_items s), vals)
       | Some c \<Rightarrow>
           if dx_tx_fields c = None then (True, (dx_state c)\<lparr>clear_signing_available := False\<rparr>, vals)
           else (case format_and_populate_display_items env c vals of
                   (False, c1, vals') \<Rightarrow> (False, dx_state c1, vals')
                 | (True, c1, vals') \<Rightarrow>
                     (True, (dx_state c1)\<lparr>di_review_title := dx_review_title c1, di_review_finish := dx_review_finish c1\<rparr>, vals'))))"

definition parse_node_for_display ::
  "display_env \<Rightarrow> byte list \<Rightarrow> display_state \<times> values_store \<Rightarrow> bool \<times> display_state \<times> values_store" where
  "parse_node_for_display env buf sv =
     (case sv of (s, vals) \<Rightarrow>
      if clear_signing_available s \<or> display_failed s \<or> metadata_display_conf s \<noteq> None then (True, s, vals)
      else process_display_parsing env (versioned_node_decode_callback env) buf (reset_display_parser_state s, vals))"

definition parse_input_contract_for_display ::
  "display_env \<Rightarrow> byte list \<Rightarrow> display_state \<times> values_store \<Rightarrow> bool \<times> display_state \<times> values_store" where
  "parse_input_contract_for_display env buf sv =
     (case sv of (s, vals) \<Rightarrow>
      if clear_signing_available s \<or> display_failed s \<or> metadata_display_conf s = None then (True, s, vals)
      else process_display_parsing env (input_contract_display_field env) buf (s, vals))"

end
