(* ===== verification/Holding_Parser.thy ===== *)
theory Holding_Parser
  imports Hashing_Parser
begin

text \<open>
  \<^verbatim>\<open>pb_holding_parser.c\<close>: a create node is looked up among the templates that hold value, and
  its argument is walked to find the owner, the amount, the issuer and the instrument at the paths the
  table gives for that template. The static \<^verbatim>\<open>ctx\<close> is the record \<^verbatim>\<open>holding_ctx\<close>; its
  \<^verbatim>\<open>depth\<close> is the recursion argument, and \<^verbatim>\<open>records_opened\<close>, of which only differences
  are read, starts at zero for each create.
\<close>

section \<open>Templates\<close>

record holding_path_config =
  hp_module :: string
  hp_entity :: string
  hp_owner_path :: string
  hp_amount_path :: string
  hp_admin_path :: string
  hp_id_path :: cstring

definition HPC :: "string \<Rightarrow> string \<Rightarrow> string \<Rightarrow> string \<Rightarrow> string \<Rightarrow> cstring \<Rightarrow> holding_path_config" where
  "HPC m e ow am ad i = \<lparr>hp_module = m, hp_entity = e, hp_owner_path = ow, hp_amount_path = am,
     hp_admin_path = ad, hp_id_path = i\<rparr>"

definition HOLDING_TEMPLATES :: "holding_path_config list" where
  "HOLDING_TEMPLATES =
    [HPC ''Splice.Amulet'' ''Amulet'' ''owner'' ''amount.initialAmount'' ''dso'' None,
     HPC ''Splice.Amulet'' ''LockedAmulet'' ''amulet.owner'' ''amulet.amount.initialAmount'' ''amulet.dso'' None,
     HPC ''Utility.Registry.Holding.V0.Holding'' ''Holding'' ''owner'' ''amount'' ''instrument.source''
       (Some ''instrument.id''),
     HPC ''Splice.AmuletTransferInstruction'' ''AmuletTransferInstruction'' ''transfer.receiver''
       ''transfer.amount'' ''transfer.instrumentId.admin'' (Some ''transfer.instrumentId.id''),
     HPC ''Splice.ExternalPartyAmuletRules'' ''TransferCommand'' ''receiver'' ''amount'' ''dso'' None,
     HPC ''Utility.Registry.App.V0.Model.Transfer'' ''TransferOffer'' ''transfer.receiver''
       ''transfer.amount'' ''transfer.instrumentId.admin'' (Some ''transfer.instrumentId.id'')]"

definition NON_HOLDING_TEMPLATES :: "identifier_config list" where
  "NON_HOLDING_TEMPLATES =
    [IDC ''Splice.Amulet'' ''AppRewardCoupon'',
     IDC ''Splice.Amulet'' ''ValidatorRewardCoupon'',
     IDC ''Splice.Amulet'' ''FeaturedAppActivityMarker'',
     IDC ''Utility.Registry.V0.Holding.Transfer'' ''ExecutedTransfer'',
     IDC ''Splice.Wallet.TransferPreapproval'' ''TransferPreapprovalProposal'',
     IDC ''Splice.AmuletEventLog'' ''AmuletEventLog'']"

definition names_match :: "Identifier \<Rightarrow> string \<Rightarrow> string \<Rightarrow> bool" where
  "names_match i m e \<longleftrightarrow> id_module i = Some m \<and> id_entity i = Some e"

definition find_holding :: "Identifier \<Rightarrow> holding_path_config option" where
  "find_holding i = find (\<lambda>cfg. names_match i (hp_module cfg) (hp_entity cfg)) HOLDING_TEMPLATES"

definition is_non_holding :: "Identifier \<Rightarrow> bool" where
  "is_non_holding i \<longleftrightarrow> list_ex (\<lambda>cfg. names_match i (ic_module cfg) (ic_entity cfg)) NON_HOLDING_TEMPLATES"

section \<open>Walking the argument\<close>

record holding_ctx =
  hc_cfg :: "holding_path_config option"
  hc_path :: string
  hc_records_opened :: nat
  hc_owner :: "digest option"
  hc_amount :: "digest option"
  hc_admin :: "digest option"
  hc_instrument :: "digest option"
  hc_unreadable :: bool

abbreviation "MAX_LABEL_PATH_LEN \<equiv> 64 :: nat"
abbreviation "MAX_LABEL_DEPTH \<equiv> 6 :: nat"

definition path_push :: "string \<Rightarrow> holding_ctx \<Rightarrow> holding_ctx" where
  "path_push label c =
     (let len = length (hc_path c) in
      if len + (if len > 0 then 1 else 0) + length label \<ge> MAX_LABEL_PATH_LEN then c\<lparr>hc_cfg := None\<rparr>
      else c\<lparr>hc_path := hc_path c @ (if len > 0 then ''.'' else []) @ label\<rparr>)"

definition set_once :: "bool \<Rightarrow> holding_ctx \<Rightarrow> holding_ctx" where
  "set_once already c = c\<lparr>hc_unreadable := (hc_unreadable c \<or> already)\<rparr>"

definition find_holding_field :: "sha256 \<Rightarrow> cbValue \<Rightarrow> holding_ctx \<Rightarrow> holding_ctx" where
  "find_holding_field sha v c =
     (case hc_cfg c of
        None \<Rightarrow> c
      | Some cfg \<Rightarrow>
          (let scalar = (\<lambda>s.
                 if hc_path c = hp_owner_path cfg then
                   (set_once (hc_owner c \<noteq> None) c)\<lparr>hc_owner := Some (sha (str_bytes s))\<rparr>
                 else if hc_path c = hp_amount_path cfg then
                   (set_once (hc_amount c \<noteq> None) c)\<lparr>hc_amount := Some (sha (str_bytes s))\<rparr>
                 else if hc_path c = hp_admin_path cfg then
                   (set_once (hc_admin c \<noteq> None) c)\<lparr>hc_admin := Some (sha (str_bytes s))\<rparr>
                 else c)
           in (case v of
                 V_text s \<Rightarrow>
                   (if hp_id_path cfg = Some (hc_path c)
                    then (set_once (hc_instrument c \<noteq> None) c)\<lparr>hc_instrument := Some (sha (str_bytes s))\<rparr>
                    else c)
               | V_party s \<Rightarrow> scalar s
               | V_numeric s \<Rightarrow> scalar s
               | _ \<Rightarrow> c)))"

definition hp_decode_label ::
  "nat \<Rightarrow> byte list \<Rightarrow> bool \<times> holding_ctx \<Rightarrow> (bool \<times> holding_ctx) option" where
  "hp_decode_label records_before p lc =
     (let c = snd lc;
          c1 = (if hc_records_opened c \<noteq> records_before then c\<lparr>hc_unreadable := True\<rparr> else c)
      in if length p \<ge> 64 then Some (True, c1\<lparr>hc_unreadable := True\<rparr>)
         else if p = [] \<or> 0 \<in> set p then Some (True, c1\<lparr>hc_unreadable := True\<rparr>)
         else Some (True, path_push (map char_of_byte p) c1))"

definition hp_decode_record_field ::
  "sha256 \<Rightarrow> (nat \<Rightarrow> byte list \<Rightarrow> holding_ctx \<Rightarrow> holding_ctx option) \<Rightarrow> byte list \<Rightarrow> holding_ctx \<Rightarrow> holding_ctx option" where
  "hp_decode_record_field sha value_cb q c =
     (let parent_len = length (hc_path c);
          sub = (\<lambda>t p (l, c'). map_option (\<lambda>c''. (l, c'')) (value_cb t p c'))
      in map_option (\<lambda>(v, labelled, c1).
           (let c2 = (if \<not> labelled \<and> hc_cfg c1 \<noteq> None then c1\<lparr>hc_unreadable := True\<rparr> else c1);
                c3 = find_holding_field sha v c2
            in c3\<lparr>hc_path := take parent_len (hc_path c3)\<rparr>))
         (pb_decode (labelled_value_field (hp_decode_label (hc_records_opened c)) sub) q (V_none, False, c)))"

text \<open>\<^verbatim>\<open>decode_value\<close>: only records are entered, at most six deep and while the stack has room.\<close>

primrec hp_decode_value :: "sha256 \<Rightarrow> nat \<Rightarrow> nat \<Rightarrow> nat \<Rightarrow> byte list \<Rightarrow> holding_ctx \<Rightarrow> holding_ctx option" where
  "hp_decode_value sha 0 = (\<lambda>depth t p c.
     if t \<noteq> 14 \<or> depth \<ge> MAX_LABEL_DEPTH then comp_null t p c else None)"
| "hp_decode_value sha (Suc n) = (\<lambda>depth t p c.
     if t \<noteq> 14 \<or> depth \<ge> MAX_LABEL_DEPTH then comp_null t p c
     else pb_decode (\<lambda>fw c.
            if fst fw = 2 then run_callback (hp_decode_record_field sha (hp_decode_value sha n (depth + 1))) (snd fw) c
            else if fst fw = 1 then pb_null_callback (snd fw) c
            else Some c) p (c\<lparr>hc_records_opened := hc_records_opened c + 1\<rparr>))"

definition hp_decode_argument :: "sha256 \<Rightarrow> nat \<Rightarrow> byte list \<Rightarrow> holding_ctx \<Rightarrow> holding_ctx option" where
  "hp_decode_argument sha budget q c =
     map_option snd (decode_cbValue (hp_decode_value sha budget 0) q (V_none, c))"

section \<open>Nodes\<close>

definition hp_decode_create :: "sha256 \<Rightarrow> nat \<Rightarrow> byte list \<Rightarrow> values_store \<Rightarrow> values_store option" where
  "hp_decode_create sha budget p vals =
     (case decode_Create p Node_Create_init_zero of
        None \<Rightarrow> None
      | Some probe \<Rightarrow>
          (let cfg = (if cr_has_template_id probe then find_holding (cr_template_id probe) else None);
               classified = (cr_has_template_id probe \<and> (cfg \<noteq> None \<or> is_non_holding (cr_template_id probe)))
           in (case cfg of
                 None \<Rightarrow> Some (if \<not> classified then values_report_unknown_template vals else vals)
               | Some hc \<Rightarrow>
                   map_option (\<lambda>(_, c).
                     (let names_instrument = (hp_id_path hc \<noteq> None) in
                      case (hc_owner c, hc_amount c, hc_admin c) of
                        (Some ow, Some am, Some ad) \<Rightarrow>
                          if \<not> hc_unreadable c \<and> (\<not> names_instrument \<or> hc_instrument c \<noteq> None)
                          then values_report_holding ow am ad (if names_instrument then hc_instrument c else None) vals
                          else values_report_unreadable_holding vals
                      | _ \<Rightarrow> values_report_unreadable_holding vals))
                   (pb_decode (\<lambda>fw (m, c).
                      if fst fw = 5 then map_option (\<lambda>c'. (m, c')) (run_callback (hp_decode_argument sha budget) (snd fw) c)
                      else map_option (\<lambda>m'. (m', c)) (Create_field fw m)) p
                      (Node_Create_init_zero,
                       \<lparr>hc_cfg = Some hc, hc_path = [], hc_records_opened = 0, hc_owner = None, hc_amount = None,
                        hc_admin = None, hc_instrument = None, hc_unreadable = False\<rparr>)))))"

definition hp_decode_node_type :: "sha256 \<Rightarrow> nat \<Rightarrow> nat \<times> wire \<Rightarrow> values_store \<Rightarrow> values_store option" where
  "hp_decode_node_type sha budget fw vals =
     (if fst fw \<in> {1, 2, 3, 4, 5} then
        (case snd fw of
           WLen p \<Rightarrow> if fst fw = 1 then hp_decode_create sha budget p vals else Some vals
         | _ \<Rightarrow> None)
      else Some vals)"

text \<open>A node that fails to decode only drops clear signing. (The store then keeps the holdings collected
  so far; since it has given up they are never compared.)\<close>

definition values_collect_from_node :: "sha256 \<Rightarrow> nat \<Rightarrow> byte list \<Rightarrow> values_store \<Rightarrow> values_store" where
  "values_collect_from_node sha budget buf vals =
     (if \<not> values_still_collecting vals then vals
      else (case pb_decode (\<lambda>fw v.
                   if fst fw = 1 then pb_null_callback (snd fw) v
                   else if fst fw = 1000 then
                     (case snd fw of WLen p \<Rightarrow> pb_decode (hp_decode_node_type sha budget) p v | _ \<Rightarrow> None)
                   else Some v) buf vals of
              None \<Rightarrow> values_report_parse_failure vals
            | Some v \<Rightarrow> v))"

end
