(* ===== verification/Status_Words.thy ===== *)
theory Status_Words
  imports Main
begin

text \<open>
  The status words of \<^verbatim>\<open>sw.h\<close>, as the ints the handlers pass around (0 means no error), and
  the 16 bits of them that \<^verbatim>\<open>io_send_sw\<close> puts on the wire.
\<close>

abbreviation SW_OK :: int where "SW_OK \<equiv> 0x9000"
abbreviation SW_DENY :: int where "SW_DENY \<equiv> 0x6985"
abbreviation SW_WRONG_P1P2 :: int where "SW_WRONG_P1P2 \<equiv> 0x6A86"
abbreviation SW_WRONG_DATA_LENGTH :: int where "SW_WRONG_DATA_LENGTH \<equiv> 0x6A87"
abbreviation SW_INS_NOT_SUPPORTED :: int where "SW_INS_NOT_SUPPORTED \<equiv> 0x6D00"
abbreviation SW_CLA_NOT_SUPPORTED :: int where "SW_CLA_NOT_SUPPORTED \<equiv> 0x6E00"
abbreviation SW_WRONG_RESPONSE_LENGTH :: int where "SW_WRONG_RESPONSE_LENGTH \<equiv> 0xB000"
abbreviation SW_DISPLAY_BIP32_PATH_FAIL :: int where "SW_DISPLAY_BIP32_PATH_FAIL \<equiv> 0xB001"
abbreviation SW_DISPLAY_ADDRESS_FAIL :: int where "SW_DISPLAY_ADDRESS_FAIL \<equiv> 0xB002"
abbreviation SW_DISPLAY_AMOUNT_FAIL :: int where "SW_DISPLAY_AMOUNT_FAIL \<equiv> 0xB003"
abbreviation SW_WRONG_TX_LENGTH :: int where "SW_WRONG_TX_LENGTH \<equiv> 0xB004"
abbreviation SW_TX_PARSING_FAIL :: int where "SW_TX_PARSING_FAIL \<equiv> 0xB005"
abbreviation SW_TX_HASH_FAIL :: int where "SW_TX_HASH_FAIL \<equiv> 0xB006"
abbreviation SW_BAD_STATE :: int where "SW_BAD_STATE \<equiv> 0xB007"
abbreviation SW_SIGNATURE_FAIL :: int where "SW_SIGNATURE_FAIL \<equiv> 0xB008"
abbreviation SW_CHALLENGE_SIGNATURE_FAIL :: int where "SW_CHALLENGE_SIGNATURE_FAIL \<equiv> 0xB009"
abbreviation SW_TX_INVALID_NODE_TREE :: int where "SW_TX_INVALID_NODE_TREE \<equiv> 0xB00A"
abbreviation SW_TOPOLOGY_MULTIPLE_NAMESPACE_DELEGATIONS :: int where "SW_TOPOLOGY_MULTIPLE_NAMESPACE_DELEGATIONS \<equiv> 0xC101"
abbreviation SW_TOPOLOGY_NULL_NAMESPACE_DELEGATION :: int where "SW_TOPOLOGY_NULL_NAMESPACE_DELEGATION \<equiv> 0xC102"
abbreviation SW_TOPOLOGY_MISSING_TARGET_KEY :: int where "SW_TOPOLOGY_MISSING_TARGET_KEY \<equiv> 0xC103"
abbreviation SW_TOPOLOGY_PARTY_KEY_MISMATCH :: int where "SW_TOPOLOGY_PARTY_KEY_MISMATCH \<equiv> 0xC104"
abbreviation SW_TOPOLOGY_PARTY_KEY_WRONG_FORMAT :: int where "SW_TOPOLOGY_PARTY_KEY_WRONG_FORMAT \<equiv> 0xC105"
abbreviation SW_TOPOLOGY_MISSING_PARTY_KEY :: int where "SW_TOPOLOGY_MISSING_PARTY_KEY \<equiv> 0xC106"
abbreviation SW_TOPOLOGY_PARTY_ID_MISMATCH :: int where "SW_TOPOLOGY_PARTY_ID_MISMATCH \<equiv> 0xC201"
abbreviation SW_TOPOLOGY_UNEXPECTED_PARTY_TO_KEY_SIGNING_KEYS_COUNT :: int where "SW_TOPOLOGY_UNEXPECTED_PARTY_TO_KEY_SIGNING_KEYS_COUNT \<equiv> 0xC202"
abbreviation SW_TOPOLOGY_UNEXPECTED_PARTY_TO_KEY_THRESHOLD_VALUE :: int where "SW_TOPOLOGY_UNEXPECTED_PARTY_TO_KEY_THRESHOLD_VALUE \<equiv> 0xC203"
abbreviation SW_TOPOLOGY_MULTIPLE_PARTY_TO_KEY_MAPPINGS :: int where "SW_TOPOLOGY_MULTIPLE_PARTY_TO_KEY_MAPPINGS \<equiv> 0xC204"
abbreviation SW_TOPOLOGY_MISSING_PARTY :: int where "SW_TOPOLOGY_MISSING_PARTY \<equiv> 0xC301"
abbreviation SW_TOPOLOGY_UNEXPECTED_NUMBER_OF_PARTICIPANTS :: int where "SW_TOPOLOGY_UNEXPECTED_NUMBER_OF_PARTICIPANTS \<equiv> 0xC302"
abbreviation SW_TOPOLOGY_UNEXPECTED_DUPLICATE_PARTICIPANT :: int where "SW_TOPOLOGY_UNEXPECTED_DUPLICATE_PARTICIPANT \<equiv> 0xC303"
abbreviation SW_TOPOLOGY_MISSING_PARTICIPANT_DATA :: int where "SW_TOPOLOGY_MISSING_PARTICIPANT_DATA \<equiv> 0xC304"
abbreviation SW_TOPOLOGY_UNEXPECTED_PARTICIPANT_ID :: int where "SW_TOPOLOGY_UNEXPECTED_PARTICIPANT_ID \<equiv> 0xC305"
abbreviation SW_TOPOLOGY_UNEXPECTED_THRESHOLD_VALUE :: int where "SW_TOPOLOGY_UNEXPECTED_THRESHOLD_VALUE \<equiv> 0xC306"
abbreviation SW_TOPOLOGY_UNEXPECTED_PARTY_SIGNING_KEYS :: int where "SW_TOPOLOGY_UNEXPECTED_PARTY_SIGNING_KEYS \<equiv> 0xC307"
abbreviation SW_TOPOLOGY_MULTIPLE_PARTY_TO_PARTICIPANTS :: int where "SW_TOPOLOGY_MULTIPLE_PARTY_TO_PARTICIPANTS \<equiv> 0xC308"
abbreviation SW_TOPOLOGY_UNKNOWN_MAPPING_TYPE :: int where "SW_TOPOLOGY_UNKNOWN_MAPPING_TYPE \<equiv> 0xC401"
abbreviation SW_TOPOLOGY_UNSUPPORTED_OPERATION :: int where "SW_TOPOLOGY_UNSUPPORTED_OPERATION \<equiv> 0xC402"
abbreviation SW_TOPOLOGY_MANDATORY_FIELD_MISSING :: int where "SW_TOPOLOGY_MANDATORY_FIELD_MISSING \<equiv> 0xC403"
abbreviation SW_TOPOLOGY_TOO_MANY_MESSAGES :: int where "SW_TOPOLOGY_TOO_MANY_MESSAGES \<equiv> 0xC404"
text \<open>\<^verbatim>\<open>SWO_INCORRECT_DATA\<close> of the SDK's \<^verbatim>\<open>status_words.h\<close> and the parser status
  \<^verbatim>\<open>VALUE_PARSING_ERROR\<close> of \<^verbatim>\<open>tx_types.h\<close>.\<close>

abbreviation SWO_INCORRECT_DATA :: int where "SWO_INCORRECT_DATA \<equiv> 0x6A80"
abbreviation VALUE_PARSING_ERROR :: int where "VALUE_PARSING_ERROR \<equiv> -3"

definition sw_on_wire :: "int \<Rightarrow> int" where
  "sw_on_wire sw = sw mod 2 ^ 16"

end
