(* ===== verification/Prepared_Tx.thy ===== *)
theory Prepared_Tx
  imports Display_Parser Holding_Parser Status_Words
begin

text \<open>
  \<^verbatim>\<open>prepared_transaction.c\<close>: the state machine that receives a prepared transaction as a header,
  its nodes, its metadata and its input contracts, and drives the parsers, the checks and the hash.
  \<^verbatim>\<open>prepared_state\<close> is \<^verbatim>\<open>tx_state\<close>, the members of \<^verbatim>\<open>G_context.tx_info\<close> the
  functions use, and the states of the modules they call. \<^verbatim>\<open>prepared_env\<close> gives, for one call, SHA-256,
  whether the allocations succeed and the stack budget.
\<close>

datatype prepared_tx_receiving_state =
    RECEIVING_DAML_TX_PART
  | RECEIVING_DAML_NODES
  | RECEIVING_METADATA
  | RECEIVING_METADATA_INPUT_CONTRACTS

record prepared_env =
  px_sha :: sha256
  px_tree_mem :: bool
  px_contracts_mem :: bool
  px_budget :: nat
  px_display :: display_env

record prepared_state =
  ps_tx_state :: prepared_tx_receiving_state
  ps_tree :: tree_check_context
  ps_values :: values_store
  ps_hasher :: hash_ctx
  ps_tx :: DamlTransaction
  ps_metadata :: Metadata
  ps_partial_tx_hash :: "byte list"
  ps_partial_md_hash :: "byte list"
  ps_recv_node_idx :: int
  ps_display :: display_state
  ps_m_hash :: "byte list"

definition process_prepared_tx_init :: "prepared_state \<Rightarrow> prepared_state" where
  "process_prepared_tx_init s = s\<lparr>ps_tx_state := RECEIVING_DAML_TX_PART\<rparr>"

definition abort_prepared_tx :: "int \<Rightarrow> prepared_state \<Rightarrow> int \<times> prepared_state" where
  "abort_prepared_tx sw s = (sw, s\<lparr>ps_tree := tree_check_reset, ps_values := values_check_reset\<rparr>)"

definition apply_node_tree_verdict :: "prepared_state \<Rightarrow> int \<times> prepared_state" where
  "apply_node_tree_verdict s =
     (case tree_verify_complete (ps_tree s) of
        (err, tree) \<Rightarrow>
          (let s1 = s\<lparr>ps_tree := tree\<rparr> in
           if err = TREE_OK then (0, s1)
           else if tree_error_is_impossible err then abort_prepared_tx SW_TX_INVALID_NODE_TREE s1
           else (0, s1\<lparr>ps_display := cleanup_display_items ((ps_display s1)\<lparr>clear_signing_available := False\<rparr>)\<rparr>)))"

definition process_prepared_tx_finalize :: "prepared_env \<Rightarrow> bool \<Rightarrow> prepared_state \<Rightarrow> int \<times> prepared_state" where
  "process_prepared_tx_finalize env state_parsed s =
     (if \<not> state_parsed then abort_prepared_tx SW_BAD_STATE s
      else
        (let s1 = (if clear_signing_available (ps_display s)
                   then (case values_can_clear_sign (ps_values s) of
                           (agree, vals) \<Rightarrow>
                             (let s' = s\<lparr>ps_values := vals\<rparr> in
                              if agree then s'
                              else s'\<lparr>ps_display := cleanup_display_items ((ps_display s')\<lparr>clear_signing_available := False\<rparr>)\<rparr>))
                   else s);
             s2 = s1\<lparr>ps_values := values_release_used_contracts (ps_values s1)\<rparr>;
             s3 = s2\<lparr>ps_partial_md_hash := finalize_hash_metadata (px_sha env) (ps_hasher s2)\<rparr>;
             s4 = s3\<lparr>ps_m_hash := finalize_hash (px_sha env) (ps_partial_tx_hash s3) (ps_partial_md_hash s3)\<rparr>
         in (0, s4\<lparr>ps_display := reset_display_parser_state (ps_display s4)\<rparr>)))"

definition parser_env_of :: "prepared_env \<Rightarrow> prepared_state \<Rightarrow> parser_env" where
  "parser_env_of env s =
     \<lparr>pe_sha = px_sha env, pe_tx = ps_tx s, pe_mem_ok = px_contracts_mem env, pe_budget = px_budget env\<rparr>"

definition display_env_of :: "prepared_env \<Rightarrow> display_env" where
  "display_env_of env = (px_display env)\<lparr>de_sha := px_sha env\<rparr>"

definition receive_daml_tx :: "prepared_env \<Rightarrow> byte list \<Rightarrow> prepared_state \<Rightarrow> int \<times> prepared_state" where
  "receive_daml_tx env buf s =
     (case proto_deserialize_daml_tx buf of
        None \<Rightarrow> abort_prepared_tx SW_TX_PARSING_FAIL s
      | Some tx \<Rightarrow>
          (let s1 = s\<lparr>ps_tx := tx,
                      ps_tree := snd (tree_check_init (px_tree_mem env) (tx_roots tx) (tx_nodes_count tx)),
                      ps_hasher := hash_transaction tx (ps_hasher s)\<rparr>
           in if get_hash_error (ps_hasher s1) \<noteq> HASH_OK then abort_prepared_tx SW_TX_HASH_FAIL s1
              else (0, s1\<lparr>ps_recv_node_idx := 0,
                          ps_tx_state := (if tx_nodes_count tx = 0 then RECEIVING_METADATA else RECEIVING_DAML_NODES)\<rparr>)))"

definition receive_node :: "prepared_env \<Rightarrow> byte list \<Rightarrow> prepared_state \<Rightarrow> int \<times> prepared_state" where
  "receive_node env buf s =
     (case proto_deserialize_node (parser_env_of env s) buf (ps_hasher s, ps_tree s, ps_values s) of
        None \<Rightarrow> abort_prepared_tx SW_TX_PARSING_FAIL s
      | Some (h, tree, vals) \<Rightarrow>
          (let s1 = s\<lparr>ps_hasher := h, ps_tree := tree, ps_values := vals\<rparr> in
           if get_hash_error h \<noteq> HASH_OK then abort_prepared_tx SW_TX_HASH_FAIL s1
           else
             (let s2 = s1\<lparr>ps_values := values_collect_from_node (px_sha env) (px_budget env) buf (ps_values s1)\<rparr>;
                  shown = (if tree_can_clear_sign (ps_tree s2)
                           then parse_node_for_display (display_env_of env) buf (ps_display s2, ps_values s2)
                           else (True, ps_display s2, ps_values s2))
              in (case shown of
                    (ok, d, vals') \<Rightarrow>
                      (let s3 = s2\<lparr>ps_display := d, ps_values := vals'\<rparr> in
                       if \<not> ok then abort_prepared_tx SW_TX_PARSING_FAIL s3
                       else
                         (let s4 = s3\<lparr>ps_recv_node_idx := ps_recv_node_idx s3 + 1\<rparr>
                          in (0, if ps_recv_node_idx s4 = tx_nodes_count (ps_tx s4)
                                 then s4\<lparr>ps_tx_state := RECEIVING_METADATA\<rparr> else s4)))))))"

definition receive_metadata :: "prepared_env \<Rightarrow> bool \<Rightarrow> byte list \<Rightarrow> prepared_state \<Rightarrow> int \<times> prepared_state" where
  "receive_metadata env state_parsed buf s =
     (case apply_node_tree_verdict s of
        (tree_res, s1) \<Rightarrow>
          if tree_res \<noteq> 0 then abort_prepared_tx tree_res s1
          else
            (let s2 = s1\<lparr>ps_partial_tx_hash := finalize_hash_transaction (px_sha env) (ps_hasher s1)\<rparr> in
             case proto_deserialize_metadata buf of
               None \<Rightarrow> abort_prepared_tx SW_TX_PARSING_FAIL s2
             | Some md \<Rightarrow>
                 (let s3 = s2\<lparr>ps_metadata := md, ps_hasher := hash_metadata md (ps_hasher s2)\<rparr> in
                  if get_hash_error (ps_hasher s3) \<noteq> HASH_OK then abort_prepared_tx SW_TX_HASH_FAIL s3
                  else
                    (let s4 = s3\<lparr>ps_recv_node_idx := 0\<rparr> in
                     if md_input_contracts_count md = 0 then process_prepared_tx_finalize env state_parsed s4
                     else (0, s4\<lparr>ps_tx_state := RECEIVING_METADATA_INPUT_CONTRACTS\<rparr>)))))"

definition receive_input_contract :: "prepared_env \<Rightarrow> bool \<Rightarrow> byte list \<Rightarrow> prepared_state \<Rightarrow> int \<times> prepared_state" where
  "receive_input_contract env state_parsed buf s =
     (case proto_deserialize_input_contract (parser_env_of env s) buf (ps_hasher s, ps_tree s, ps_values s) of
        None \<Rightarrow> abort_prepared_tx SW_TX_PARSING_FAIL s
      | Some (h, tree, vals) \<Rightarrow>
          (let s1 = s\<lparr>ps_hasher := h, ps_tree := tree, ps_values := vals\<rparr> in
           if get_hash_error h \<noteq> HASH_OK then abort_prepared_tx SW_TX_HASH_FAIL s1
           else
             (case parse_input_contract_for_display (display_env_of env) buf (ps_display s1, ps_values s1) of
                (ok, d, vals') \<Rightarrow>
                  (let s2 = s1\<lparr>ps_display := d, ps_values := vals'\<rparr> in
                   if \<not> ok then abort_prepared_tx SW_TX_PARSING_FAIL s2
                   else
                     (let s3 = s2\<lparr>ps_recv_node_idx := ps_recv_node_idx s2 + 1\<rparr>
                      in if ps_recv_node_idx s3 = md_input_contracts_count (ps_metadata s3)
                         then process_prepared_tx_finalize env state_parsed s3
                         else (0, s3))))))"

text \<open>\<^verbatim>\<open>state_parsed\<close> is \<^verbatim>\<open>G_context.state == STATE_PARSED\<close>, which the dispatcher sets for the
  last part of a transaction.\<close>

definition process_prepared_tx_part :: "prepared_env \<Rightarrow> bool \<Rightarrow> byte list \<Rightarrow> prepared_state \<Rightarrow> int \<times> prepared_state" where
  "process_prepared_tx_part env state_parsed buf s =
     (case ps_tx_state s of
        RECEIVING_DAML_TX_PART \<Rightarrow> receive_daml_tx env buf s
      | RECEIVING_DAML_NODES \<Rightarrow> receive_node env buf s
      | RECEIVING_METADATA \<Rightarrow> receive_metadata env state_parsed buf s
      | RECEIVING_METADATA_INPUT_CONTRACTS \<Rightarrow> receive_input_contract env state_parsed buf s)"

end
