(* ===== verification/Bytewriter.thy ===== *)
theory Bytewriter
  imports Prelude
begin

text \<open>
  The bounded byte writer of \<^verbatim>\<open>bytewriter.c\<close>. The three pointers
  \<^verbatim>\<open>base\<close>, \<^verbatim>\<open>ptr\<close>, \<^verbatim>\<open>end\<close> become the written bytes
  (\<^verbatim>\<open>base .. ptr\<close>) and the capacity (\<^verbatim>\<open>end - base\<close>); the comparison
  \<^verbatim>\<open>ptr + n > end\<close> is the comparison of offsets, which agrees with it as long as the
  pointer sum does not leave the address space (\<^verbatim>\<open>n\<close> is always the size of an existing
  object).
\<close>

record ByteWriter =
  bw_buf :: "byte list"
  bw_cap :: nat
  bw_overflow :: bool

definition bw_init :: "nat \<Rightarrow> ByteWriter option" where
  "bw_init cap = (if cap > 0 then Some \<lparr>bw_buf = [], bw_cap = cap, bw_overflow = False\<rparr> else None)"

definition bw_size :: "ByteWriter \<Rightarrow> nat" where
  "bw_size bw = length (bw_buf bw)"

definition bw_put :: "byte list \<Rightarrow> ByteWriter \<Rightarrow> ByteWriter" where
  "bw_put p bw =
     (if bw_overflow bw \<or> length (bw_buf bw) + length p > bw_cap bw
      then bw\<lparr>bw_overflow := True\<rparr>
      else bw\<lparr>bw_buf := bw_buf bw @ p\<rparr>)"

definition bw_put_byte :: "byte \<Rightarrow> ByteWriter \<Rightarrow> ByteWriter" where
  "bw_put_byte b = bw_put [b]"

definition bw_put_u32_be :: "u32 \<Rightarrow> ByteWriter \<Rightarrow> ByteWriter" where
  "bw_put_u32_be v = bw_put (u32_be v)"

definition bw_put_u64_be :: "u64 \<Rightarrow> ByteWriter \<Rightarrow> ByteWriter" where
  "bw_put_u64_be v = bw_put (u64_be v)"

definition bw_wf :: "ByteWriter \<Rightarrow> bool" where
  "bw_wf bw \<longleftrightarrow> bw_size bw \<le> bw_cap bw"

interpretation bw: byte_sink bw_put bw_buf "\<lambda>bw. \<not> bw_overflow bw"
  by unfold_locales (auto simp: bw_put_def split: if_splits)

lemma bw_put_wf: "bw_wf bw \<Longrightarrow> bw_wf (bw_put p bw)"
  by (auto simp: bw_wf_def bw_put_def bw_size_def)

lemma bw_put_cap [simp]: "bw_cap (bw_put p bw) = bw_cap bw"
  by (simp add: bw_put_def)

lemma bw_puts_wf: "bw_wf bw \<Longrightarrow> bw_wf (fold bw_put ps bw) \<and> bw_cap (fold bw_put ps bw) = bw_cap bw"
  by (induction ps arbitrary: bw) (auto simp: bw_put_wf)

lemma bw_put_overflow_sticky: "bw_overflow bw \<Longrightarrow> bw_put p bw = bw"
  by (simp add: bw_put_def)

lemma bw_puts_overflow_sticky: "bw_overflow bw \<Longrightarrow> fold bw_put ps bw = bw"
  by (induction ps) (auto simp: bw_put_overflow_sticky)

lemma bw_puts_overflow_iff:
  assumes "\<not> bw_overflow bw" "bw_wf bw"
  shows "bw_overflow (fold bw_put ps bw) \<longleftrightarrow> bw_size bw + length (concat ps) > bw_cap bw"
  using assms
proof (induction ps arbitrary: bw)
  case Nil
  then show ?case by (simp add: bw_wf_def)
next
  case (Cons p ps)
  show ?case
  proof (cases "bw_size bw + length p > bw_cap bw")
    case True
    then have "bw_overflow (bw_put p bw)"
      by (simp add: bw_put_def bw_size_def)
    with True show ?thesis
      by (auto simp: bw_puts_overflow_sticky)
  next
    case False
    with Cons.prems have "bw_put p bw = bw\<lparr>bw_buf := bw_buf bw @ p\<rparr>"
      by (simp add: bw_put_def bw_size_def)
    with False Cons.IH [of "bw_put p bw"] Cons.prems show ?thesis
      by (simp add: bw_wf_def bw_size_def add.assoc)
  qed
qed

end
