(* ===== verification/Topology.thy ===== *)
theory Topology
  imports Bytewriter Utils Display_Parser Status_Words
begin

text \<open>
  \<^verbatim>\<open>untyped_versioned_msg.c\<close> and the topology part of \<^verbatim>\<open>pb_parser.c\<close>: the onboarding
  flow. Each message is hashed, decoded and checked against the key of the device; the last one
  computes the hash over all of them. The static variables are the record \<^verbatim>\<open>topology_state\<close>;
  \<^verbatim>\<open>tx_hashes = NULL\<close> is \<^verbatim>\<open>None\<close>. The derived public key sits in
  \<^verbatim>\<open>G_context.tx_info.signature\<close> in the code and in \<^verbatim>\<open>tp_public_key\<close> here. A result
  \<^verbatim>\<open>None\<close> is a failed \<^verbatim>\<open>LEDGER_ASSERT\<close>, which ends the app.

  \<^verbatim>\<open>topology_env\<close> holds what is outside the sources: SHA-256, Ed25519 signing with the attestation
  key and the length the SDK reports for the curve, whether the target stores enums in as few bytes as
  possible, and whether an unsupported mapping decodes (it is refused either way, with another code).
\<close>

section \<open>Messages\<close>

record topology_env =
  te_sha :: sha256
  te_eddsa_sign :: "byte list \<Rightarrow> byte list"
  te_domain_len :: nat
  te_short_enums :: bool
  te_other_ok :: "nat \<Rightarrow> byte list \<Rightarrow> bool"

definition enum_bits :: "bool \<Rightarrow> nat \<Rightarrow> nat" where
  "enum_bits short_enums largest =
     (if \<not> short_enums then 32 else if largest < 256 then 8 else if largest < 65536 then 16 else 32)"

definition pb_dec_uenum :: "topology_env \<Rightarrow> nat \<Rightarrow> wire \<Rightarrow> nat option" where
  "pb_dec_uenum env largest w =
     (case pb_dec_uint64 w of
        None \<Rightarrow> None
      | Some v \<Rightarrow> if unat v < 2 ^ enum_bits (te_short_enums env) largest then Some (unat v) else None)"

record SigningPublicKey =
  spk_format :: nat
  spk_public_key :: "byte list"

definition SigningPublicKey_init :: SigningPublicKey where
  "SigningPublicKey_init = \<lparr>spk_format = 0, spk_public_key = []\<rparr>"

definition SigningPublicKey_field :: "topology_env \<Rightarrow> nat \<times> wire \<Rightarrow> SigningPublicKey \<Rightarrow> SigningPublicKey option" where
  "SigningPublicKey_field env fw k =
     (let t = fst fw; w = snd fw in
      if t = 2 then map_option (\<lambda>v. k\<lparr>spk_format := v\<rparr>) (pb_dec_uenum env 10000 w)
      else if t = 3 then
        (case pb_dec_bytes w of
           None \<Rightarrow> None
         | Some b \<Rightarrow> if length b > 1024 then None else Some (k\<lparr>spk_public_key := b\<rparr>))
      else if t = 4 then map_option (\<lambda>_. k) (pb_dec_uenum env 3 w)
      else if t = 5 then pb_null_callback w k
      else if t = 6 then map_option (\<lambda>_. k) (pb_dec_uenum env 4 w)
      else Some k)"

record NamespaceDelegation =
  nd_has_target_key :: bool
  nd_target_key :: SigningPublicKey

definition NamespaceDelegation_field ::
  "topology_env \<Rightarrow> nat \<times> wire \<Rightarrow> NamespaceDelegation \<Rightarrow> NamespaceDelegation option" where
  "NamespaceDelegation_field env fw d =
     (let t = fst fw; w = snd fw in
      if t = 1 then map_option (\<lambda>_. d) (pb_dec_string w)
      else if t = 2 then map_option (\<lambda>k. d\<lparr>nd_has_target_key := True, nd_target_key := k\<rparr>)
                           (pb_dec_submessage (pb_decode (SigningPublicKey_field env)) w (nd_target_key d))
      else if t = 3 then map_option (\<lambda>_. d) (pb_dec_bool w)
      else if t = 4 \<or> t = 5 then (if len_ok (all_fields (\<lambda>_. True)) w then Some d else None)
      else if t = 6 then
        (if len_ok (all_fields (\<lambda>(u, v). if u = 1 then pb_callback_payload v \<noteq> None else True)) w then Some d else None)
      else Some d)"

record PartyToKeyMapping =
  pk_party :: cstring
  pk_threshold :: u32
  pk_signing_keys :: "SigningPublicKey list"

definition PartyToKeyMapping_field ::
  "topology_env \<Rightarrow> nat \<times> wire \<Rightarrow> PartyToKeyMapping \<Rightarrow> PartyToKeyMapping option" where
  "PartyToKeyMapping_field env fw m =
     (let t = fst fw; w = snd fw in
      if t = 1 then put_string w (\<lambda>s. m\<lparr>pk_party := Some s\<rparr>)
      else if t = 3 then map_option (\<lambda>v. m\<lparr>pk_threshold := v\<rparr>) (pb_dec_uint32 w)
      else if t = 4 then map_option (\<lambda>k. m\<lparr>pk_signing_keys := pk_signing_keys m @ [k]\<rparr>)
                           (pb_dec_submessage (pb_decode (SigningPublicKey_field env)) w SigningPublicKey_init)
      else Some m)"

text \<open>Of a hosting participant only the identifier is read; the permission and the onboarding flag must
  decode.\<close>

definition HostingParticipant_field :: "topology_env \<Rightarrow> nat \<times> wire \<Rightarrow> cstring \<Rightarrow> cstring option" where
  "HostingParticipant_field env fw p =
     (let t = fst fw; w = snd fw in
      if t = 1 then put_string w (\<lambda>s. Some s)
      else if t = 2 then map_option (\<lambda>_. p) (pb_dec_uenum env 3 w)
      else if t = 3 then (if len_ok (all_fields (\<lambda>_. True)) w then Some p else None)
      else Some p)"

record PartyToParticipant =
  pp_party :: cstring
  pp_threshold :: u32
  pp_participants :: "cstring list"
  pp_has_party_signing_keys :: bool

definition PartyToParticipant_field ::
  "topology_env \<Rightarrow> nat \<times> wire \<Rightarrow> PartyToParticipant \<Rightarrow> PartyToParticipant option" where
  "PartyToParticipant_field env fw m =
     (let t = fst fw; w = snd fw in
      if t = 1 then put_string w (\<lambda>s. m\<lparr>pp_party := Some s\<rparr>)
      else if t = 2 then map_option (\<lambda>v. m\<lparr>pp_threshold := v\<rparr>) (pb_dec_uint32 w)
      else if t = 3 then map_option (\<lambda>p. m\<lparr>pp_participants := pp_participants m @ [p]\<rparr>)
                           (pb_dec_submessage (pb_decode (HostingParticipant_field env)) w None)
      else if t = 6 then
        (if len_ok (all_fields (\<lambda>(u, v). if u = 1 then pb_callback_payload v \<noteq> None
                                         else if u = 2 then pb_dec_uint32 v \<noteq> None else True)) w
         then Some (m\<lparr>pp_has_party_signing_keys := True\<rparr>) else None)
      else Some m)"

datatype TopologyMapping =
    MAP_NONE
  | NAMESPACE_DELEGATION NamespaceDelegation
  | PARTY_TO_PARTICIPANT PartyToParticipant
  | PARTY_TO_KEY_MAPPING PartyToKeyMapping
  | MAP_OTHER nat

definition other_mapping_tags :: "nat set" where
  "other_mapping_tags = {3, 4, 5, 6, 7, 8, 11, 12, 13, 15, 17, 18}"

text \<open>A member of the oneof is decoded into a fresh struct, unless the same member came before.\<close>

definition TopologyMapping_field :: "topology_env \<Rightarrow> nat \<times> wire \<Rightarrow> TopologyMapping \<Rightarrow> TopologyMapping option" where
  "TopologyMapping_field env fw m =
     (let t = fst fw; w = snd fw in
      if t = 1 then map_option NAMESPACE_DELEGATION
        (pb_dec_submessage (pb_decode (NamespaceDelegation_field env)) w
           (case m of NAMESPACE_DELEGATION d \<Rightarrow> d
            | _ \<Rightarrow> \<lparr>nd_has_target_key = False, nd_target_key = SigningPublicKey_init\<rparr>))
      else if t = 9 then map_option PARTY_TO_PARTICIPANT
        (pb_dec_submessage (pb_decode (PartyToParticipant_field env)) w
           (case m of PARTY_TO_PARTICIPANT d \<Rightarrow> d
            | _ \<Rightarrow> \<lparr>pp_party = None, pp_threshold = 0, pp_participants = [], pp_has_party_signing_keys = False\<rparr>))
      else if t = 16 then map_option PARTY_TO_KEY_MAPPING
        (pb_dec_submessage (pb_decode (PartyToKeyMapping_field env)) w
           (case m of PARTY_TO_KEY_MAPPING d \<Rightarrow> d
            | _ \<Rightarrow> \<lparr>pk_party = None, pk_threshold = 0, pk_signing_keys = []\<rparr>))
      else if t \<in> other_mapping_tags then (if len_ok (te_other_ok env t) w then Some (MAP_OTHER t) else None)
      else Some m)"

record TopologyTransaction =
  tt_operation :: nat
  tt_mapping :: "TopologyMapping option"

definition TopologyTransaction_field ::
  "topology_env \<Rightarrow> nat \<times> wire \<Rightarrow> TopologyTransaction \<Rightarrow> TopologyTransaction option" where
  "TopologyTransaction_field env fw x =
     (let t = fst fw; w = snd fw in
      if t = 1 then map_option (\<lambda>v. x\<lparr>tt_operation := v\<rparr>) (pb_dec_uenum env 2 w)
      else if t = 2 then map_option (\<lambda>_. x) (pb_dec_uint32 w)
      else if t = 3 then map_option (\<lambda>m. x\<lparr>tt_mapping := Some m\<rparr>)
             (pb_dec_submessage (pb_decode (TopologyMapping_field env)) w
                (case tt_mapping x of None \<Rightarrow> MAP_NONE | Some m \<Rightarrow> m))
      else Some x)"

definition proto_deserialize_topology_transaction :: "topology_env \<Rightarrow> byte list \<Rightarrow> TopologyTransaction option" where
  "proto_deserialize_topology_transaction env buf =
     (case pb_decode (\<lambda>fw d.
             if fst fw = 1 then map_option Some (pb_dec_bytes (snd fw))
             else if fst fw = 2 then map_option (\<lambda>_. d) (pb_dec_int32 (snd fw))
             else Some d) buf None of
        None \<Rightarrow> None
      | Some None \<Rightarrow> None
      | Some (Some data) \<Rightarrow>
          if data = [] then None
          else pb_decode (TopologyTransaction_field env) data \<lparr>tt_operation = 0, tt_mapping = None\<rparr>)"

section \<open>State\<close>

abbreviation "MAX_HASHES \<equiv> 3 :: nat"
abbreviation "CHALLENGE_AND_DEADLINE_LEN \<equiv> 24 :: nat"
abbreviation "ED25519_RAW_KEY_LEN \<equiv> 32 :: nat"
abbreviation "ED25519_DER_KEY_LEN \<equiv> 44 :: nat"
abbreviation "ED25519_DER_PREFIX_LEN \<equiv> 12 :: nat"
abbreviation "ONBOARDING_FLOW_DISPLAY_FIELDS_NB \<equiv> 4 :: nat"

definition ED25519_DER_PREFIX :: "byte list" where
  "ED25519_DER_PREFIX = [0x30, 0x2A, 0x30, 0x05, 0x06, 0x03, 0x2B, 0x65, 0x70, 0x03, 0x21, 0x00]"

definition VALID_PARTICIPANTS_CONFIGS :: "(string \<times> string) list list" where
  "VALID_PARTICIPANTS_CONFIGS =
    [[(''ledger-ledgerops-2::12207a4859ad414f4f47c2d773ddf4ea88de8c3a1aab19abaa197e504acdbf679d3c'', ''Ledger Validator''),
      (''Ledger-Kiln-2::1220e2225d5a297fae4000be2e3ca560ce802461da04c8e3e40c9fbbf0547f4fe8e3'', ''Kiln Validator'')],
     [(''ledger-ledgeropstestnet-0::122095f38f5c73cc18fbeb3290f8c17f7a1ff190f66fe159c671cf1fb0dc634eedaf'',
       ''Ledger Testnet'' @ [CHR 0x0A] @ ''Validator''),
      (''Ledger-KilnTestnet-2::1220fa9df3caa84092023bf7edf28de1d28f96caf9b7d130385bfe6e284be6e0fbd7'',
       ''Kiln Testnet'' @ [CHR 0x0A] @ ''Validator'')],
     [(''ledger-ledgeropsdevnet-0::12208f74f551f8c28b68414fc3bb4b8466178055845485878a1af8ac1fe96f88fad2'',
       ''Ledger Devnet'' @ [CHR 0x0A] @ ''Validator''),
      (''Ledger-KilnDevnet-2::12203b77e5d74eb787ff0251fd76949379a625368646302a203fea7f7db1dd5402bf'',
       ''Kiln Devnet'' @ [CHR 0x0A] @ ''Validator'')]]"

text \<open>Item name and mandatory flag of the four onboarding fields: party, two participants, threshold.\<close>

definition ONBOARDING_FLOW_DISPLAY_CONFIGS :: "(string \<times> bool) list" where
  "ONBOARDING_FLOW_DISPLAY_CONFIGS =
    [(''Add account'', True), (''Associate to validator 1'', True),
     (''Associate to validator 2'', False), (''Validators threshold'', False)]"

definition REVIEW_TITLE :: string where "REVIEW_TITLE = ''Review transaction to add account''"
definition REVIEW_FINISH :: string where "REVIEW_FINISH = ''Sign transaction to add account?''"

record topology_state =
  tp_tx_hashes :: "byte list list option"
  tp_namespace_delegation :: bool
  tp_party_to_participant :: bool
  tp_party_to_key_mapping :: bool
  tp_found :: "bool list"
  tp_challenge :: "byte list option"
  tp_public_key :: "byte list"

section \<open>Start of the flow\<close>

definition read_challenge_and_deadline :: "byte list \<Rightarrow> (byte list option) option" where
  "read_challenge_and_deadline cdata =
     (case cdata of
        [] \<Rightarrow> Some None
      | len # rest \<Rightarrow>
          if unat len \<noteq> CHALLENGE_AND_DEADLINE_LEN then None
          else if length rest < CHALLENGE_AND_DEADLINE_LEN then None
          else Some (Some (take CHALLENGE_AND_DEADLINE_LEN rest)))"

text \<open>The derived public key is an argument; the pairs of the screen are emptied by
  \<^verbatim>\<open>init_transaction_pairs\<close>. The boolean is the return value.\<close>

definition process_untyped_versioned_msg_tx_init :: "byte list \<Rightarrow> byte list \<Rightarrow> bool \<times> topology_state" where
  "process_untyped_versioned_msg_tx_init public_key cdata =
     (let tp = \<lparr>tp_tx_hashes = Some [], tp_namespace_delegation = False, tp_party_to_participant = False,
                tp_party_to_key_mapping = False, tp_found = replicate ONBOARDING_FLOW_DISPLAY_FIELDS_NB False,
                tp_challenge = None, tp_public_key = public_key\<rparr>
      in (case read_challenge_and_deadline cdata of
            None \<Rightarrow> (False, tp)
          | Some ch \<Rightarrow> (True, tp\<lparr>tp_challenge := ch\<rparr>)))"

section \<open>The hash over the messages\<close>

definition cleanup_hash_storage :: "topology_state \<Rightarrow> topology_state" where
  "cleanup_hash_storage tp = tp\<lparr>tp_tx_hashes := None\<rparr>"

definition add_hash :: "byte list \<Rightarrow> topology_state \<Rightarrow> (int \<times> topology_state) option" where
  "add_hash h tp =
     (case tp_tx_hashes tp of
        None \<Rightarrow> None
      | Some hs \<Rightarrow>
          if length hs \<ge> MAX_HASHES then Some (SW_TOPOLOGY_TOO_MANY_MESSAGES, tp)
          else Some (0, tp\<lparr>tp_tx_hashes := Some (hs @ [h])\<rparr>))"

text \<open>\<^verbatim>\<open>strcmp\<close>, of which only the sign counts, and \<^verbatim>\<open>qsort\<close> with it: two hashes compare
  equal only if they are the same, so every sorting algorithm gives the list of \<^verbatim>\<open>sort_hashes\<close>.\<close>

fun strcmp :: "string \<Rightarrow> string \<Rightarrow> int" where
  "strcmp [] [] = 0"
| "strcmp [] (y # ys) = -1"
| "strcmp (x # xs) [] = 1"
| "strcmp (x # xs) (y # ys) =
     (if x = y then strcmp xs ys else if (of_char x :: nat) < of_char y then -1 else 1)"

definition compare_hashes_hex :: "byte list \<Rightarrow> byte list \<Rightarrow> int" where
  "compare_hashes_hex a b = strcmp (hex_lower a) (hex_lower b)"

fun insert_hash :: "byte list \<Rightarrow> byte list list \<Rightarrow> byte list list" where
  "insert_hash h [] = [h]"
| "insert_hash h (x # xs) = (if compare_hashes_hex h x \<le> 0 then h # x # xs else x # insert_hash h xs)"

definition sort_hashes :: "byte list list \<Rightarrow> byte list list" where
  "sort_hashes hs = foldr insert_hash hs []"

definition compute_multi_hash :: "sha256 \<Rightarrow> byte list list \<Rightarrow> byte list" where
  "compute_multi_hash sha hs =
     (let len = length hs * 34 + length hs * 4 + 4 in
      (case bw_init len of
         None \<Rightarrow> []
       | Some bw0 \<Rightarrow>
           (let bw1 = bw_put_u32_be (of_nat (length hs)) bw0;
                bw2 = fold (\<lambda>h bw. bw_put h (bw_put_u32_be 34 bw)) (sort_hashes hs) bw1
            in canton_hash sha 55 (bw_buf bw2))))"

definition sign_challenge :: "topology_env \<Rightarrow> byte list \<Rightarrow> byte list \<Rightarrow> byte list option" where
  "sign_challenge env m_hash challenge =
     (if 2 * te_domain_len env \<noteq> ED25519_SIG_LEN then None else Some (te_eddsa_sign env (m_hash @ challenge)))"

section \<open>Checking a message\<close>

definition tp_set_field_value ::
  "nat \<Rightarrow> string \<Rightarrow> topology_state \<times> display_state \<Rightarrow> (topology_state \<times> display_state) option" where
  "tp_set_field_value field_idx value td =
     (case td of (tp, d) \<Rightarrow>
        if length (di_pairs d) \<ge> ONBOARDING_FLOW_DISPLAY_FIELDS_NB \<or> field_idx \<ge> ONBOARDING_FLOW_DISPLAY_FIELDS_NB
        then None
        else Some (tp\<lparr>tp_found := (tp_found tp)[field_idx := True]\<rparr>,
                   d\<lparr>di_pairs := di_pairs d @
                        [(fst (ONBOARDING_FLOW_DISPLAY_CONFIGS ! field_idx), str_bytes value)]\<rparr>))"

definition check_party_key_value :: "byte list \<Rightarrow> nat \<Rightarrow> byte list \<Rightarrow> int" where
  "check_party_key_value key key_format derived =
     (if key = [] then SW_TOPOLOGY_MISSING_PARTY_KEY
      else if key_format = 3 then
        (if length key \<noteq> ED25519_RAW_KEY_LEN then SW_TOPOLOGY_PARTY_KEY_WRONG_FORMAT
         else if key \<noteq> derived then SW_TOPOLOGY_PARTY_KEY_MISMATCH else 0)
      else if key_format = 4 then
        (if length key \<noteq> ED25519_DER_KEY_LEN then SW_TOPOLOGY_PARTY_KEY_WRONG_FORMAT
         else if take ED25519_DER_PREFIX_LEN key \<noteq> ED25519_DER_PREFIX then SW_TOPOLOGY_PARTY_KEY_WRONG_FORMAT
         else if drop ED25519_DER_PREFIX_LEN key \<noteq> derived then SW_TOPOLOGY_PARTY_KEY_MISMATCH else 0)
      else SW_TOPOLOGY_PARTY_KEY_WRONG_FORMAT)"

definition check_party_id_value :: "sha256 \<Rightarrow> byte list \<Rightarrow> cstring \<Rightarrow> bool" where
  "check_party_id_value sha public_key party_id =
     (case party_id of
        None \<Rightarrow> False
      | Some p \<Rightarrow>
          (case party_id_from_pubkey sha public_key PARTY_ID_LEN of None \<Rightarrow> False | Some derived \<Rightarrow> p = derived))"

definition process_namespace_delegation :: "NamespaceDelegation \<Rightarrow> topology_state \<Rightarrow> int \<times> topology_state" where
  "process_namespace_delegation d tp =
     (if tp_namespace_delegation tp then (SW_TOPOLOGY_MULTIPLE_NAMESPACE_DELEGATIONS, tp)
      else (if nd_has_target_key d
            then check_party_key_value (spk_public_key (nd_target_key d)) (spk_format (nd_target_key d)) (tp_public_key tp)
            else SW_TOPOLOGY_MISSING_TARGET_KEY,
            tp\<lparr>tp_namespace_delegation := True\<rparr>))"

definition process_party_to_key_mapping ::
  "sha256 \<Rightarrow> PartyToKeyMapping \<Rightarrow> topology_state \<times> display_state \<Rightarrow> int \<times> topology_state \<times> display_state" where
  "process_party_to_key_mapping sha m td =
     (case td of (tp, d) \<Rightarrow>
      if tp_party_to_key_mapping tp then (SW_TOPOLOGY_MULTIPLE_PARTY_TO_KEY_MAPPINGS, tp, d)
      else if \<not> check_party_id_value sha (tp_public_key tp) (pk_party m)
      then (SW_TOPOLOGY_PARTY_ID_MISMATCH, tp, cleanup_display_items d)
      else if unat (pk_threshold m) \<noteq> length (pk_signing_keys m)
      then (SW_TOPOLOGY_UNEXPECTED_PARTY_TO_KEY_THRESHOLD_VALUE, tp, cleanup_display_items d)
      else (case pk_signing_keys m of
              [k] \<Rightarrow>
                (let ret = check_party_key_value (spk_public_key k) (spk_format k) (tp_public_key tp)
                 in if ret \<noteq> 0 then (ret, tp, cleanup_display_items d)
                    else (0, tp\<lparr>tp_party_to_key_mapping := True\<rparr>, d))
            | _ \<Rightarrow> (SW_TOPOLOGY_UNEXPECTED_PARTY_TO_KEY_SIGNING_KEYS_COUNT, tp, cleanup_display_items d)))"

text \<open>The loop over the participants of the mapping against one validator set: how many were found, and
  the name of each.\<close>

fun find_valid :: "string \<Rightarrow> (string \<times> string) list \<Rightarrow> nat \<Rightarrow> (nat \<times> string) option" where
  "find_valid uid [] k = None"
| "find_valid uid ((vid, vname) # cfg) k =
     (if uid = vid then Some (k, vname) else find_valid uid cfg (k + 1))"

fun scan_participants ::
  "(string \<times> string) list \<Rightarrow> cstring list \<Rightarrow> bool list \<Rightarrow> nat \<Rightarrow> cstring list \<Rightarrow> int + nat \<times> cstring list" where
  "scan_participants cfg [] matched_valid found_valid names = Inr (found_valid, names)"
| "scan_participants cfg (None # us) matched_valid found_valid names = Inl SW_TOPOLOGY_MISSING_PARTICIPANT_DATA"
| "scan_participants cfg (Some uid # us) matched_valid found_valid names =
     (if uid = [] then Inl SW_TOPOLOGY_MISSING_PARTICIPANT_DATA
      else (case find_valid uid cfg 0 of
              None \<Rightarrow> scan_participants cfg us matched_valid found_valid (names @ [None])
            | Some (k, vname) \<Rightarrow>
                if matched_valid ! k then Inl SW_TOPOLOGY_UNEXPECTED_DUPLICATE_PARTICIPANT
                else scan_participants cfg us (matched_valid[k := True]) (found_valid + 1) (names @ [Some vname])))"

fun try_configs :: "(string \<times> string) list list \<Rightarrow> cstring list \<Rightarrow> nat \<times> cstring list \<Rightarrow> int + nat \<times> cstring list" where
  "try_configs [] us last_result = Inr last_result"
| "try_configs (cfg # cfgs) us last_result =
     (case (if length cfg = length us
            then scan_participants cfg us (replicate (length cfg) False) 0 []
            else Inr (0, replicate (length us) None)) of
        Inl e \<Rightarrow> Inl e
      | Inr (found_valid, names) \<Rightarrow>
          if found_valid = length us then Inr (found_valid, names) else try_configs cfgs us (found_valid, names))"

definition set_participant_names ::
  "cstring list \<Rightarrow> topology_state \<times> display_state \<Rightarrow> (topology_state \<times> display_state) option" where
  "set_participant_names names td =
     fold_opt (\<lambda>(j, name) s. case name of None \<Rightarrow> None | Some n \<Rightarrow> tp_set_field_value (if j = 0 then 1 else 2) n s)
       (enumerate 0 names) td"

definition process_party_to_participant ::
  "sha256 \<Rightarrow> PartyToParticipant \<Rightarrow> topology_state \<times> display_state \<Rightarrow> (int \<times> topology_state \<times> display_state) option" where
  "process_party_to_participant sha m td =
     (case td of (tp, d) \<Rightarrow>
      (let fail = (\<lambda>sw (tp', d'). Some (sw, tp', cleanup_display_items d'));
           pc = length (pp_participants m)
       in if tp_party_to_participant tp then Some (SW_TOPOLOGY_MULTIPLE_PARTY_TO_PARTICIPANTS, tp, d)
          else (case pp_party m of
                  None \<Rightarrow> fail SW_TOPOLOGY_MISSING_PARTY td
                | Some party \<Rightarrow>
                    if \<not> check_party_id_value sha (tp_public_key tp) (pp_party m) then fail SW_TOPOLOGY_PARTY_ID_MISMATCH td
                    else if pc \<noteq> 2 then fail SW_TOPOLOGY_UNEXPECTED_NUMBER_OF_PARTICIPANTS td
                    else if unat (pp_threshold m) \<noteq> pc then fail SW_TOPOLOGY_UNEXPECTED_THRESHOLD_VALUE td
                    else if pp_has_party_signing_keys m then fail SW_TOPOLOGY_UNEXPECTED_PARTY_SIGNING_KEYS td
                    else
                      (case tp_set_field_value 0 party td of
                         None \<Rightarrow> None
                       | Some td1 \<Rightarrow>
                           (case try_configs VALID_PARTICIPANTS_CONFIGS (pp_participants m) (0, replicate pc None) of
                              Inl sw \<Rightarrow> fail sw td1
                            | Inr (found_valid, names) \<Rightarrow>
                                if found_valid \<noteq> pc then fail SW_TOPOLOGY_UNEXPECTED_PARTICIPANT_ID td1
                                else
                                  (case set_participant_names names td1 of
                                     None \<Rightarrow> None
                                   | Some td2 \<Rightarrow>
                                       (case (if unat (pp_threshold m) > 1
                                              then tp_set_field_value 3
                                                     (dec_str (unat (pp_threshold m)) @ '' out of '' @ dec_str pc) td2
                                              else Some td2) of
                                          None \<Rightarrow> None
                                        | Some (tp3, d3) \<Rightarrow> Some (0, tp3\<lparr>tp_party_to_participant := True\<rparr>, d3))))))))"

definition parse_topology_transaction_for_display ::
  "topology_env \<Rightarrow> byte list \<Rightarrow> topology_state \<times> display_state \<Rightarrow> (int \<times> topology_state \<times> display_state) option" where
  "parse_topology_transaction_for_display env buf td =
     (case td of (tp, d) \<Rightarrow>
      (case proto_deserialize_topology_transaction env buf of
         None \<Rightarrow> Some (VALUE_PARSING_ERROR, tp, d)
       | Some x \<Rightarrow>
           (case tt_mapping x of
              None \<Rightarrow> Some (0, tp, d)
            | Some mapping \<Rightarrow>
                if tt_operation x \<noteq> 1 then Some (SW_TOPOLOGY_UNSUPPORTED_OPERATION, tp, d)
                else (case mapping of
                        NAMESPACE_DELEGATION nd \<Rightarrow>
                          (case process_namespace_delegation nd tp of (r, tp1) \<Rightarrow> Some (r, tp1, d))
                      | PARTY_TO_PARTICIPANT m \<Rightarrow> process_party_to_participant (te_sha env) m td
                      | PARTY_TO_KEY_MAPPING m \<Rightarrow> Some (process_party_to_key_mapping (te_sha env) m td)
                      | _ \<Rightarrow> Some (SW_TOPOLOGY_UNKNOWN_MAPPING_TYPE, tp, d)))))"

text \<open>What a complete flow leaves for signing: the hash and, if a challenge came with the first message,
  its signature.\<close>

record topology_out =
  to_m_hash :: "byte list option"
  to_challenge_signature :: "byte list option"

definition process_untyped_versioned_msg_tx ::
  "topology_env \<Rightarrow> bool \<Rightarrow> byte list \<Rightarrow> topology_state \<times> display_state \<Rightarrow>
   (int \<times> topology_out \<times> topology_state \<times> display_state) option" where
  "process_untyped_versioned_msg_tx env state_parsed buf td =
     (case td of (tp0, d0) \<Rightarrow>
      (let nothing = \<lparr>to_m_hash = None, to_challenge_signature = None\<rparr> in
       case add_hash (canton_hash (te_sha env) 11 buf) tp0 of
         None \<Rightarrow> None
       | Some (r1, tp1) \<Rightarrow>
           if r1 \<noteq> 0 then Some (r1, nothing, cleanup_hash_storage tp1, d0)
           else (case parse_topology_transaction_for_display env buf (tp1, d0) of
                   None \<Rightarrow> None
                 | Some (r2, tp2, d2) \<Rightarrow>
                     if r2 \<noteq> 0 then Some (r2, nothing, cleanup_hash_storage tp2, d2)
                     else if \<not> state_parsed then Some (0, nothing, tp2, d2)
                     else
                       (let m_hash = compute_multi_hash (te_sha env) (case tp_tx_hashes tp2 of None \<Rightarrow> [] | Some hs \<Rightarrow> hs);
                            tp3 = cleanup_hash_storage tp2;
                            sig = (case tp_challenge tp3 of None \<Rightarrow> None | Some ch \<Rightarrow> sign_challenge env m_hash ch);
                            out = \<lparr>to_m_hash = Some m_hash, to_challenge_signature = sig\<rparr>
                        in if tp_challenge tp3 \<noteq> None \<and> sig = None then Some (SW_CHALLENGE_SIGNATURE_FAIL, out, tp3, d2)
                           else if tp_namespace_delegation tp3 \<and> tp_party_to_key_mapping tp3 \<and> tp_party_to_participant tp3 then
                             (if list_ex (\<lambda>((_, mandatory), found). mandatory \<and> \<not> found)
                                   (zip ONBOARDING_FLOW_DISPLAY_CONFIGS (tp_found tp3))
                              then Some (SW_TOPOLOGY_MANDATORY_FIELD_MISSING, out, tp3, d2)
                              else Some (0, out, tp3, d2\<lparr>clear_signing_available := True,
                                     di_review_title := Some REVIEW_TITLE, di_review_finish := Some REVIEW_FINISH\<rparr>))
                           else Some (0, out, tp3, d2)))))"

end
