(* ===== verification/Device.thy ===== *)
theory Device
  imports Prepared_Tx Topology
begin

text \<open>
  The application around the parsers: \<^verbatim>\<open>app_main.c\<close>, \<^verbatim>\<open>apdu/dispatcher.c\<close>, the handlers,
  \<^verbatim>\<open>ui/\<close> and \<^verbatim>\<open>helper/\<close>. The record \<^verbatim>\<open>device\<close> is \<^verbatim>\<open>G_context\<close>
  together with the settings in flash, the static variables of the signing flows and the review that
  waits for the user. The union of \<^verbatim>\<open>pk_info\<close> and \<^verbatim>\<open>tx_info\<close> is two separate members:
  \<^verbatim>\<open>handler_get_public_key\<close> clears the context, and no signing chunk is accepted after it.

  \<^verbatim>\<open>device_env\<close> holds the SDK: reading a derivation path, key derivation and signing, and the build
  constants. A handler answers \<^verbatim>\<open>None\<close> when an assertion ends the app.
\<close>

section \<open>State\<close>

datatype state_e = STATE_NONE | STATE_EXPECTING_MORE | STATE_MSG_COMPLETE | STATE_PARSED | STATE_APPROVED

datatype request_type = CONFIRM_ADDRESS | CONFIRM_TRANSACTION

datatype signing_type = SIGN_HASH | SIGN_UNTYPED_VERSIONED_MESSAGE | SIGN_PREPARED_TRANSACTION

datatype review =
    REVIEW_CLEAR cstring cstring "(string \<times> byte list) list"
  | REVIEW_BLIND "(string \<times> byte list) list"
  | REVIEW_ADDRESS string

datatype reply = REPLY "byte list" int

record device_env =
  dv_read_path :: "byte list \<Rightarrow> (u32 list \<times> byte list) option"
  dv_raw_pubkey :: "u32 list \<Rightarrow> int + byte list \<times> byte list"
  dv_sign :: "u32 list \<Rightarrow> byte list \<Rightarrow> byte list option"
  dv_topology :: topology_env
  dv_prepared :: prepared_env
  dv_max_tx_len :: nat
  dv_version :: "byte list"
  dv_appname :: string

record device =
  g_state :: state_e
  g_req_type :: request_type
  g_signing_type :: signing_type
  g_bip32_path :: "u32 list"
  g_raw_tx :: "byte list"
  g_tx :: prepared_state
  g_topology :: topology_state
  g_challenge_signature :: "byte list option"
  g_public_key :: "byte list"
  g_chain_code :: "byte list"
  g_allow_blind_sign :: bool
  g_initialized :: bool
  g_switch_on :: bool
  g_review :: "review option"

type_synonym outcome = "(reply option \<times> device) option"

definition io_send_sw :: "int \<Rightarrow> device \<Rightarrow> outcome" where
  "io_send_sw sw g = Some (Some (REPLY [] (sw_on_wire sw)), g)"

definition io_send_response :: "byte list \<Rightarrow> int \<Rightarrow> device \<Rightarrow> outcome" where
  "io_send_response data sw g = Some (Some (REPLY data (sw_on_wire sw)), g)"

section \<open>Context\<close>

definition display_state_zero :: display_state where
  "display_state_zero = \<lparr>di_pairs = [], clear_signing_available = False, display_failed = False,
     di_review_title = None, di_review_finish = None, metadata_display_conf = None, expected_contract_id = None\<rparr>"

text \<open>\<^verbatim>\<open>clean_context\<close> resets the modules and zeroes \<^verbatim>\<open>G_context\<close>; \<^verbatim>\<open>tx_state\<close>, the
  node hash ring, the sticky hash error and the statics of the topology flow are not part of it.\<close>

definition clean_context :: "device \<Rightarrow> device" where
  "clean_context g =
     g\<lparr>g_state := STATE_NONE, g_req_type := CONFIRM_ADDRESS, g_signing_type := SIGN_HASH, g_bip32_path := [],
       g_raw_tx := [], g_challenge_signature := None, g_public_key := [], g_chain_code := [],
       g_tx := (g_tx g)\<lparr>ps_tree := tree_check_reset, ps_values := values_check_reset,
         ps_hasher := (ps_hasher (g_tx g))\<lparr>hw := []\<rparr>, ps_tx := DamlTransaction_init_zero,
         ps_metadata := Metadata_init_zero, ps_partial_tx_hash := [], ps_partial_md_hash := [],
         ps_recv_node_idx := 0, ps_display := display_state_zero, ps_m_hash := []\<rparr>\<rparr>"

section \<open>Public key\<close>

definition ed25519_pubkey :: "byte list \<Rightarrow> byte list" where
  "ed25519_pubkey rawPubkey =
     (let y = map (\<lambda>i. rawPubkey ! (64 - i)) [0..<32]
      in if (rawPubkey ! 32) AND 1 \<noteq> 0 then y[31 := (y ! 31) OR 0x80] else y)"

definition derive_public_key :: "device_env \<Rightarrow> u32 list \<Rightarrow> int + byte list \<times> byte list" where
  "derive_public_key env path =
     (case dv_raw_pubkey env path of
        Inl error \<Rightarrow> Inl error
      | Inr (rawPubkey, chain_code) \<Rightarrow> Inr (ed25519_pubkey rawPubkey, chain_code))"

definition helper_send_response_pubkey :: "device \<Rightarrow> outcome" where
  "helper_send_response_pubkey g =
     io_send_response ([32] @ g_public_key g @ [32] @ g_chain_code g) SW_OK g"

definition ui_display_party_id :: "device_env \<Rightarrow> device \<Rightarrow> outcome" where
  "ui_display_party_id env g =
     (if g_req_type g \<noteq> CONFIRM_ADDRESS \<or> g_state g \<noteq> STATE_NONE then io_send_sw SW_BAD_STATE (g\<lparr>g_state := STATE_NONE\<rparr>)
      else (case party_id_from_pubkey (te_sha (dv_topology env)) (g_public_key g) PARTY_ID_LEN of
              None \<Rightarrow> io_send_sw SW_DISPLAY_ADDRESS_FAIL g
            | Some p \<Rightarrow> Some (None, g\<lparr>g_review := Some (REVIEW_ADDRESS p)\<rparr>)))"

definition handler_get_public_key :: "device_env \<Rightarrow> byte list \<Rightarrow> bool \<Rightarrow> device \<Rightarrow> outcome" where
  "handler_get_public_key env cdata display g0 =
     (let g = (clean_context g0)\<lparr>g_req_type := CONFIRM_ADDRESS, g_state := STATE_NONE\<rparr> in
      case dv_read_path env cdata of
        None \<Rightarrow> io_send_sw SW_WRONG_DATA_LENGTH g
      | Some (path, _) \<Rightarrow>
          (let g1 = g\<lparr>g_bip32_path := path\<rparr> in
           case derive_public_key env path of
             Inl error \<Rightarrow> io_send_sw error g1
           | Inr (pk, chain_code) \<Rightarrow>
               (let g2 = g1\<lparr>g_public_key := pk, g_chain_code := chain_code\<rparr> in
                if display then ui_display_party_id env g2 else helper_send_response_pubkey g2)))"

section \<open>Reviews\<close>

definition hex_upper :: "byte list \<Rightarrow> string" where
  "hex_upper bs = concat (map (\<lambda>b. [''0123456789ABCDEF'' ! (unat b div 16), ''0123456789ABCDEF'' ! (unat b mod 16)]) bs)"

definition set_pairs :: "(string \<times> byte list) list \<Rightarrow> device \<Rightarrow> device" where
  "set_pairs ps g = g\<lparr>g_tx := (g_tx g)\<lparr>ps_display := (ps_display (g_tx g))\<lparr>di_pairs := ps\<rparr>\<rparr>\<rparr>"

definition ui_display_transaction_bs_choice :: "bool \<Rightarrow> device \<Rightarrow> outcome" where
  "ui_display_transaction_bs_choice is_blind_signed g =
     (if g_req_type g \<noteq> CONFIRM_TRANSACTION \<or> g_state g \<noteq> STATE_PARSED
      then io_send_sw SW_BAD_STATE (g\<lparr>g_state := STATE_NONE\<rparr>)
      else if is_blind_signed then
        (let pairs = [(''Transaction hash'', str_bytes (hex_upper (ps_m_hash (g_tx g))))]
         in Some (None, (set_pairs pairs g)\<lparr>g_review := Some (REVIEW_BLIND pairs)\<rparr>))
      else (let d = ps_display (g_tx g)
            in Some (None, g\<lparr>g_review := Some (REVIEW_CLEAR (di_review_title d) (di_review_finish d) (di_pairs d))\<rparr>)))"

definition ui_error_blind_signing :: "device \<Rightarrow> outcome" where
  "ui_error_blind_signing g = io_send_sw SWO_INCORRECT_DATA (set_pairs [] g)"

definition crypto_sign_message :: "device_env \<Rightarrow> device \<Rightarrow> byte list option" where
  "crypto_sign_message env g =
     (case dv_sign env (g_bip32_path g) (ps_m_hash (g_tx g)) of
        None \<Rightarrow> None
      | Some sig \<Rightarrow> if length sig \<noteq> ED25519_SIG_LEN then None else Some sig)"

definition helper_send_response_sig :: "byte list \<Rightarrow> device \<Rightarrow> outcome" where
  "helper_send_response_sig sig g =
     io_send_response ([of_nat (length sig)] @ sig @ [0] @
       (case g_challenge_signature g of None \<Rightarrow> [] | Some ch \<Rightarrow> [of_nat (length ch)] @ ch)) SW_OK g"

definition validate_transaction :: "device_env \<Rightarrow> bool \<Rightarrow> device \<Rightarrow> outcome" where
  "validate_transaction env choice g0 =
     (let g = g0\<lparr>g_review := None\<rparr>;
          cleaned = map_option (\<lambda>(r, g'). (r, set_pairs [] g'))
      in if choice then
           (let g1 = g\<lparr>g_state := STATE_APPROVED\<rparr> in
            case crypto_sign_message env g1 of
              None \<Rightarrow> cleaned (io_send_sw SW_SIGNATURE_FAIL (g1\<lparr>g_state := STATE_NONE\<rparr>))
            | Some sig \<Rightarrow> cleaned (helper_send_response_sig sig g1))
         else cleaned (io_send_sw SW_DENY (g\<lparr>g_state := STATE_NONE\<rparr>)))"

definition validate_pubkey :: "bool \<Rightarrow> device \<Rightarrow> outcome" where
  "validate_pubkey choice g0 =
     (let g = g0\<lparr>g_review := None\<rparr> in
      if choice then helper_send_response_pubkey g else io_send_sw SW_DENY g)"

section \<open>Signing\<close>

definition refuse_tx :: "int \<Rightarrow> device \<Rightarrow> outcome" where
  "refuse_tx sw g = io_send_sw sw (g\<lparr>g_req_type := CONFIRM_ADDRESS, g_state := STATE_NONE\<rparr>)"

definition process_first_chunk :: "device_env \<Rightarrow> byte list \<Rightarrow> signing_type \<Rightarrow> device \<Rightarrow> (int \<times> device) option" where
  "process_first_chunk env cdata type g0 =
     (let g = clean_context g0;
          accept = (\<lambda>g. g\<lparr>g_req_type := CONFIRM_TRANSACTION, g_signing_type := type, g_state := STATE_EXPECTING_MORE,
                           g_tx := (g_tx g)\<lparr>ps_display := (ps_display (g_tx g))\<lparr>clear_signing_available := False\<rparr>\<rparr>\<rparr>)
      in case dv_read_path env cdata of
           None \<Rightarrow> Some (SW_WRONG_DATA_LENGTH, g)
         | Some (path, rest) \<Rightarrow>
             (let g1 = g\<lparr>g_bip32_path := path\<rparr> in
              if type = SIGN_PREPARED_TRANSACTION
              then Some (0, accept (g1\<lparr>g_tx := process_prepared_tx_init (g_tx g1)\<rparr>))
              else if type = SIGN_UNTYPED_VERSIONED_MESSAGE then
                (case derive_public_key env path of
                   Inl _ \<Rightarrow> None
                 | Inr (pk, _) \<Rightarrow>
                     (case process_untyped_versioned_msg_tx_init pk rest of
                        (ok, tp) \<Rightarrow>
                          (let g2 = set_pairs [] (g1\<lparr>g_topology := tp\<rparr>)
                           in if \<not> ok then Some (SW_WRONG_DATA_LENGTH, g2) else Some (0, accept g2))))
              else Some (0, accept g1)))"

text \<open>The result is the error code, the complete message if there is one, and the context. The
  buffer points into \<^verbatim>\<open>raw_tx\<close>; only between messages is its length reset.\<close>

definition process_next_chunk :: "device_env \<Rightarrow> byte list \<Rightarrow> bool \<Rightarrow> bool \<Rightarrow> device \<Rightarrow> int \<times> byte list \<times> device" where
  "process_next_chunk env cdata has_more msg_end g =
     (if g_req_type g \<noteq> CONFIRM_TRANSACTION then (SW_BAD_STATE, [], g)
      else if length (g_raw_tx g) + length cdata > dv_max_tx_len env then (SW_WRONG_TX_LENGTH, [], g)
      else
        (let g1 = g\<lparr>g_raw_tx := g_raw_tx g @ cdata\<rparr> in
         if msg_end \<and> has_more then (0, g_raw_tx g1, g1\<lparr>g_raw_tx := [], g_state := STATE_MSG_COMPLETE\<rparr>)
         else if msg_end then (0, g_raw_tx g1, g1\<lparr>g_state := STATE_PARSED\<rparr>)
         else if has_more then (0, [], g1\<lparr>g_state := STATE_EXPECTING_MORE\<rparr>)
         else (SW_BAD_STATE, [], g1)))"

definition process_transaction_hash :: "byte list \<Rightarrow> device \<Rightarrow> int \<times> device" where
  "process_transaction_hash buf g =
     (if g_state g \<noteq> STATE_PARSED then (SW_BAD_STATE, g)
      else if length buf \<noteq> 32 \<and> length buf \<noteq> 34 then (SW_WRONG_DATA_LENGTH, g)
      else (0, g\<lparr>g_tx := (g_tx g)\<lparr>ps_m_hash := buf\<rparr>\<rparr>))"

definition process_complete_message :: "device_env \<Rightarrow> byte list \<Rightarrow> device \<Rightarrow> (int \<times> device) option" where
  "process_complete_message env buf g =
     (case g_signing_type g of
        SIGN_PREPARED_TRANSACTION \<Rightarrow>
          (case process_prepared_tx_part (dv_prepared env) (g_state g = STATE_PARSED) buf (g_tx g) of
             (r, tx) \<Rightarrow> Some (r, g\<lparr>g_tx := tx\<rparr>))
      | SIGN_HASH \<Rightarrow> Some (process_transaction_hash buf g)
      | SIGN_UNTYPED_VERSIONED_MESSAGE \<Rightarrow>
          (case process_untyped_versioned_msg_tx (dv_topology env) (g_state g = STATE_PARSED) buf
                  (g_topology g, ps_display (g_tx g)) of
             None \<Rightarrow> None
           | Some (r, out, tp, d) \<Rightarrow>
               Some (r, g\<lparr>g_topology := tp,
                          g_tx := (g_tx g)\<lparr>ps_display := d,
                            ps_m_hash := (case to_m_hash out of None \<Rightarrow> ps_m_hash (g_tx g) | Some h \<Rightarrow> h)\<rparr>,
                          g_challenge_signature := (case to_challenge_signature out of
                            None \<Rightarrow> g_challenge_signature g | Some sig \<Rightarrow> Some sig)\<rparr>)))"

definition show_review :: "device \<Rightarrow> outcome" where
  "show_review g =
     (if clear_signing_available (ps_display (g_tx g)) then ui_display_transaction_bs_choice False g
      else if \<not> g_allow_blind_sign g then ui_error_blind_signing g
      else ui_display_transaction_bs_choice True g)"

definition handler_sign_tx :: "device_env \<Rightarrow> byte list \<Rightarrow> signing_type \<Rightarrow> bool \<Rightarrow> bool \<Rightarrow> bool \<Rightarrow> device \<Rightarrow> outcome" where
  "handler_sign_tx env cdata type first has_more msg_end g =
     (if first then
        (case process_first_chunk env cdata type g of
           None \<Rightarrow> None
         | Some (r, g1) \<Rightarrow> if r \<noteq> 0 then refuse_tx r g1 else io_send_sw SW_OK g1)
      else if g_signing_type g \<noteq> type then io_send_sw SW_BAD_STATE g
      else
        (case process_next_chunk env cdata has_more msg_end g of
           (r, buf, g1) \<Rightarrow>
             if r \<noteq> 0 then refuse_tx r g1
             else if g_state g1 = STATE_EXPECTING_MORE then io_send_sw SW_OK g1
             else
               (case process_complete_message env buf g1 of
                  None \<Rightarrow> None
                | Some (r2, g2) \<Rightarrow>
                    if r2 \<noteq> 0 then refuse_tx r2 (set_pairs [] g2)
                    else if g_state g2 = STATE_PARSED then show_review g2
                    else io_send_sw SW_OK g2)))"

section \<open>Commands\<close>

record command =
  cmd_cla :: byte
  cmd_ins :: byte
  cmd_p1 :: byte
  cmd_p2 :: byte
  cmd_data :: "byte list option"

text \<open>The three version bytes and the name are constants of the build.\<close>

definition handler_get_version :: "device_env \<Rightarrow> device \<Rightarrow> outcome" where
  "handler_get_version env g = io_send_response (dv_version env) SW_OK g"

definition handler_get_app_name :: "device_env \<Rightarrow> device \<Rightarrow> outcome" where
  "handler_get_app_name env g = io_send_response (str_bytes (dv_appname env)) SW_OK g"

definition signing_type_of :: "byte \<Rightarrow> signing_type" where
  "signing_type_of p1 = (if p1 = 0 then SIGN_HASH else if p1 = 1 then SIGN_UNTYPED_VERSIONED_MESSAGE else SIGN_PREPARED_TRANSACTION)"

definition apdu_dispatcher :: "device_env \<Rightarrow> command \<Rightarrow> device \<Rightarrow> outcome" where
  "apdu_dispatcher env cmd g =
     (let p1 = cmd_p1 cmd; p2 = cmd_p2 cmd in
      if cmd_cla cmd \<noteq> 0xE0 then io_send_sw SW_CLA_NOT_SUPPORTED g
      else if cmd_ins cmd = 0x03 then
        (if p1 \<noteq> 0 \<or> p2 \<noteq> 0 then io_send_sw SW_WRONG_P1P2 g else handler_get_version env g)
      else if cmd_ins cmd = 0x04 then
        (if p1 \<noteq> 0 \<or> p2 \<noteq> 0 then io_send_sw SW_WRONG_P1P2 g
         else handler_get_app_name env g)
      else if cmd_ins cmd = 0x05 then
        (if \<not> (p1 = 0 \<or> p1 = 1) \<or> p2 > 3 then io_send_sw SW_WRONG_P1P2 g
         else if p1 = 0 \<and> p2 \<noteq> 0 then io_send_sw SW_WRONG_P1P2 g
         else (case cmd_data cmd of
                 None \<Rightarrow> io_send_sw SW_WRONG_DATA_LENGTH g
               | Some data \<Rightarrow> handler_get_public_key env data (p1 \<noteq> 0) g))
      else if cmd_ins cmd = 0x06 then
        (if p1 > 2 then io_send_sw SW_WRONG_P1P2 g
         else if p2 AND NOT 7 \<noteq> 0 then io_send_sw SW_WRONG_P1P2 g
         else if p2 AND 6 = 0 then io_send_sw SW_WRONG_P1P2 g
         else if p2 AND 1 \<noteq> 0 \<and> p2 AND 2 = 0 then io_send_sw SW_WRONG_P1P2 g
         else (case cmd_data cmd of
                 None \<Rightarrow> io_send_sw SW_WRONG_DATA_LENGTH g
               | Some data \<Rightarrow>
                   handler_sign_tx env data (signing_type_of p1) (p2 AND 1 \<noteq> 0) (p2 AND 2 \<noteq> 0) (p2 AND 4 \<noteq> 0) g))
      else io_send_sw SW_INS_NOT_SUPPORTED g)"

section \<open>Settings and start\<close>

definition set_switches_states :: "device \<Rightarrow> device" where
  "set_switches_states g = g\<lparr>g_switch_on := g_allow_blind_sign g\<rparr>"

definition settings_controls_callback :: "device \<Rightarrow> device" where
  "settings_controls_callback g =
     (let new_setting = (\<not> g_switch_on g) in g\<lparr>g_switch_on := new_setting, g_allow_blind_sign := new_setting\<rparr>)"

text \<open>The part of \<^verbatim>\<open>app_main\<close> before the loop: the menu is built, the context is zeroed, and a fresh
  flash is initialised with blind signing disabled. The statics have their C initial values.\<close>

definition app_start :: "bool \<Rightarrow> bool \<Rightarrow> device" where
  "app_start stored_blind stored_initialized =
     (let h0 = \<lparr>hw = [], err_code = HASH_OK, hashed_nodes_store = replicate MAX_NODE_CHILDREN (0, replicate SHA256_HASH_LEN 0),
                hashed_nodes_store_count = 0\<rparr>;
          tx0 = \<lparr>ps_tx_state = RECEIVING_DAML_TX_PART, ps_tree = tree_check_reset\<lparr>root_id := 0\<rparr>, ps_values = values_check_reset\<lparr>st_ok := False\<rparr>,
                 ps_hasher = h0, ps_tx = DamlTransaction_init_zero, ps_metadata = Metadata_init_zero,
                 ps_partial_tx_hash = [], ps_partial_md_hash = [], ps_recv_node_idx = 0,
                 ps_display = display_state_zero, ps_m_hash = []\<rparr>;
          tp0 = \<lparr>tp_tx_hashes = None, tp_namespace_delegation = False, tp_party_to_participant = False,
                 tp_party_to_key_mapping = False, tp_found = replicate 4 False, tp_challenge = None, tp_public_key = []\<rparr>
      in \<lparr>g_state = STATE_NONE, g_req_type = CONFIRM_ADDRESS, g_signing_type = SIGN_HASH, g_bip32_path = [],
          g_raw_tx = [], g_tx = tx0, g_topology = tp0, g_challenge_signature = None, g_public_key = [],
          g_chain_code = [], g_allow_blind_sign = (if stored_initialized then stored_blind else False),
          g_initialized = True, g_switch_on = stored_blind, g_review = None\<rparr>)"


text \<open>One turn of the loop of \<^verbatim>\<open>app_main\<close> on the bytes received. Splitting them into a command is the
  parser of the SDK, an argument here.\<close>

definition app_main_turn :: "(byte list \<Rightarrow> command option) \<Rightarrow> device_env \<Rightarrow> byte list \<Rightarrow> device \<Rightarrow> outcome" where
  "app_main_turn apdu_parser env input g =
     (case apdu_parser input of
        None \<Rightarrow> io_send_sw SW_WRONG_DATA_LENGTH g
      | Some cmd \<Rightarrow> apdu_dispatcher env cmd g)"

end
