(* ===== verification/Prepared_Safety.thy ===== *)
theory Prepared_Safety
  imports Prepared_Tx
begin

text \<open>
  What the state machine of \<^verbatim>\<open>prepared_transaction.c\<close> guarantees: no accepted part leaves a hash
  error behind, a refused part releases the checks, the final verdict and the final hash.
\<close>

lemma process_prepared_tx_finalize_frame:
  "process_prepared_tx_finalize env p s = (r, s') \<Longrightarrow> ps_hasher s' = ps_hasher s"
  by (auto simp: process_prepared_tx_finalize_def abort_prepared_tx_def Let_def split: if_splits prod.splits)

section \<open>Sample parts\<close>

text \<open>A concrete digest, the length of its input, and parts as the host would send them: a header of one
  node and a metadata part with the given number of input contracts.\<close>

definition sample_sha :: sha256 where
  "sample_sha m = replicate 32 (of_nat (length m))"

definition sample_display_env :: display_env where
  "sample_display_env = \<lparr>de_sha = sample_sha, de_mem = (\<lambda>_. True), de_budget = 8, de_wallet_screen = True, de_beyond = []\<rparr>"

definition sample_prepared_env :: prepared_env where
  "sample_prepared_env = \<lparr>px_sha = sample_sha, px_tree_mem = True, px_contracts_mem = True, px_budget = 8,
     px_display = sample_display_env\<rparr>"

definition premature_header :: "byte list" where
  "premature_header = [0x0A, 1, 0x32, 0x12, 1, 0x30, 0x18, 1]"

lemma premature_header_decodes:
  "proto_deserialize_daml_tx premature_header =
     Some \<lparr>tx_version = Some ''2'', tx_roots = [''0''], tx_nodes_count = 1, tx_node_seeds = []\<rparr>"
  by code_simp

lemma premature_part:
  assumes "ps_tx_state s = RECEIVING_DAML_TX_PART"
  shows "\<exists>s'. process_prepared_tx_part env parsed premature_header s = (0, s') \<and> ps_m_hash s' = ps_m_hash s \<and>
     ps_display s' = ps_display s \<and> ps_tx_state s' = RECEIVING_DAML_NODES"
  using assms
  by (simp add: process_prepared_tx_part_def receive_daml_tx_def premature_header_decodes hash_transaction_def Let_def
      get_hash_error_def encode_string_def encode_int32_def hw_put_def hw_init_def hw_put_u32_be_def clear_hash_error_def init_node_hash_store_def)

definition sample_metadata :: "byte \<Rightarrow> byte list" where
  "sample_metadata n = [0x12, 6, 0x0A, 1, 0x61, 0x12, 1, 0x63, 0x1A, 1, 0x73, 0x2A, 1, 0x75, 0x38, n]"

lemma sample_metadata_decodes:
  "proto_deserialize_metadata (sample_metadata 0) = Some (Metadata_init_zero\<lparr>
     md_submitter_info := \<lparr>si_act_as = [''a''], si_command_id = Some ''c''\<rparr>, md_synchronizer_id := Some ''s'',
     md_transaction_uuid := Some ''u'', md_input_contracts_count := 0\<rparr>)"
  "proto_deserialize_metadata (sample_metadata 1) = Some (Metadata_init_zero\<lparr>
     md_submitter_info := \<lparr>si_act_as = [''a''], si_command_id = Some ''c''\<rparr>, md_synchronizer_id := Some ''s'',
     md_transaction_uuid := Some ''u'', md_input_contracts_count := 1\<rparr>)"
  by code_simp+

definition sample_display :: display_state where
  "sample_display = \<lparr>di_pairs = [], clear_signing_available = False, display_failed = False, di_review_title = None,
     di_review_finish = None, metadata_display_conf = None, expected_contract_id = None\<rparr>"

definition sample_state :: "node_check list \<Rightarrow> display_state \<Rightarrow> prepared_state" where
  "sample_state ns d = \<lparr>ps_tx_state = RECEIVING_METADATA,
     ps_tree = \<lparr>nodes = ns, root_id = 0, nodes_count = int (length ns), tree_err = TREE_OK\<rparr>,
     ps_values = values_check_reset, ps_hasher = \<lparr>hw = [], err_code = HASH_OK, hashed_nodes_store = [], hashed_nodes_store_count = 0\<rparr>,
     ps_tx = DamlTransaction_init_zero, ps_metadata = Metadata_init_zero, ps_partial_tx_hash = [], ps_partial_md_hash = [],
     ps_recv_node_idx = 0, ps_display = d, ps_m_hash = []\<rparr>"

lemmas metadata_flow_simps = receive_metadata_def apply_node_tree_verdict_def tree_verify_complete_def set_tree_error_def
  hash_metadata_def encode_metadata_def encode_string_def wrap_encode_string_def encode_repeated_def encode_optional_def
  encode_int32_def encode_int64_def hw_put_def hw_init_def hw_put_byte_def hw_put_u32_be_def hw_put_u64_be_def
  get_hash_error_def set_hash_error_def abort_prepared_tx_def sample_display_def Metadata_init_zero_def cleanup_display_items_def Let_def

text \<open>C22. No part is accepted with a hash error: whenever processing a part of a prepared transaction
  returns success, every encoder that ran found all it needed, so the hash state carries no error.\<close>

theorem accepted_part_has_no_hash_error:
  assumes "process_prepared_tx_part env parsed buf s = (0, s')"
  shows "get_hash_error (ps_hasher s') = HASH_OK"
  using assms
  by (auto simp: process_prepared_tx_part_def receive_daml_tx_def receive_node_def receive_metadata_def
      receive_input_contract_def abort_prepared_tx_def Let_def split: prepared_tx_receiving_state.splits option.splits
      prod.splits if_splits dest!: process_prepared_tx_finalize_frame)

theorem accepted_part_has_no_hash_error_witness:
  "\<exists>s'. process_prepared_tx_part sample_prepared_env True premature_header
      ((sample_state [] sample_display)\<lparr>ps_tx_state := RECEIVING_DAML_TX_PART\<rparr>) = (0, s') \<and>
    get_hash_error (ps_hasher s') = HASH_OK"
  using premature_part [of "(sample_state [] sample_display)\<lparr>ps_tx_state := RECEIVING_DAML_TX_PART\<rparr>" sample_prepared_env True]
    accepted_part_has_no_hash_error by fastforce

text \<open>C33. A refused part gives the checks back: whatever makes processing a part fail, the node tree
  check and the values check are left in their reset state, with no node array and no contract list.\<close>

theorem refused_part_resets_checks:
  assumes "process_prepared_tx_part env parsed buf s = (r, s')" "r \<noteq> 0"
  shows "ps_tree s' = tree_check_reset \<and> ps_values s' = values_check_reset"
  using assms
  by (auto simp: process_prepared_tx_part_def receive_daml_tx_def receive_node_def receive_metadata_def
      receive_input_contract_def process_prepared_tx_finalize_def abort_prepared_tx_def Let_def
      split: prepared_tx_receiving_state.splits option.splits prod.splits if_splits)

theorem refused_part_resets_checks_witness:
  "\<exists>s'. process_prepared_tx_part sample_prepared_env True [] (sample_state [\<lparr>seen = True, claimed = True\<rparr>] sample_display) =
      (SW_TX_HASH_FAIL, s') \<and> ps_tree s' = tree_check_reset"
proof -
  have "proto_deserialize_metadata [] = Some Metadata_init_zero" by code_simp
  then obtain s' where "process_prepared_tx_part sample_prepared_env True []
      (sample_state [\<lparr>seen = True, claimed = True\<rparr>] sample_display) = (SW_TX_HASH_FAIL, s')"
    by (simp add: process_prepared_tx_part_def sample_state_def metadata_flow_simps)
  then show ?thesis using refused_part_resets_checks by fastforce
qed

text \<open>C8. The end of a transaction: finalisation is refused unless the last part was marked as last.
  Otherwise clear signing survives exactly when it was available and the values on the screen agree
  with the holdings of the transaction, the pairs are dropped when it does not, and the message hash is
  SHA-256 over the purpose, the scheme version, the transaction hash and the metadata hash.\<close>

theorem prepared_final_verdict:
  "case process_prepared_tx_finalize env parsed s of (r, s') \<Rightarrow>
     (if \<not> parsed then r = SW_BAD_STATE
      else r = 0 \<and>
        (clear_signing_available (ps_display s') \<longleftrightarrow> clear_signing_available (ps_display s) \<and> values_agree (ps_values s)) \<and>
        (di_pairs (ps_display s') = (if clear_signing_available (ps_display s) \<and> \<not> values_agree (ps_values s)
           then [] else di_pairs (ps_display s))) \<and>
        ps_m_hash s' = px_sha env ([0, 0, 0, 0x30] @ [HASHING_SCHEME_VERSION] @ ps_partial_tx_hash s @
           px_sha env (hw (ps_hasher s))))"
  by (auto simp: process_prepared_tx_finalize_def abort_prepared_tx_def Let_def finalize_hash_def
      finalize_hash_metadata_def hw_finalize_def PREPARED_TRANSACTION_HASH_PURPOSE_def cleanup_display_items_def
      reset_display_parser_state_def values_can_clear_sign_fst [symmetric]
      split: if_splits prod.splits)

section \<open>The node tree verdict\<close>

text \<open>C21. A screen that the nodes chose needs a complete tree: if the metadata part is accepted and a
  clear review is still available right after it, the node tree verdict was TREE_OK. A tree that cannot
  exist refuses the transaction.\<close>

theorem clear_after_metadata_means_tree_ok:
  assumes "receive_metadata env parsed buf s = (r, s')"
  shows "(r = 0 \<and> clear_signing_available (ps_display s') \<longrightarrow> fst (tree_verify_complete (ps_tree s)) = TREE_OK) \<and>
     (tree_error_is_impossible (fst (tree_verify_complete (ps_tree s))) \<longrightarrow> r = SW_TX_INVALID_NODE_TREE)"
  using assms
  by (auto simp: receive_metadata_def apply_node_tree_verdict_def process_prepared_tx_finalize_def abort_prepared_tx_def
      Let_def cleanup_display_items_def reset_display_parser_state_def
      split: option.splits prod.splits if_splits)

theorem clear_after_metadata_means_tree_ok_witness:
  "\<exists>s'. receive_metadata sample_prepared_env True (sample_metadata 1) (sample_state [\<lparr>seen = True, claimed = True\<rparr>]
       (sample_display\<lparr>clear_signing_available := True\<rparr>)) = (0, s') \<and> clear_signing_available (ps_display s') \<and>
     fst (tree_verify_complete (ps_tree (sample_state [\<lparr>seen = True, claimed = True\<rparr>]
       (sample_display\<lparr>clear_signing_available := True\<rparr>)))) = TREE_OK"
proof -
  obtain s' where s': "receive_metadata sample_prepared_env True (sample_metadata 1) (sample_state [\<lparr>seen = True, claimed = True\<rparr>]
       (sample_display\<lparr>clear_signing_available := True\<rparr>)) = (0, s')" "clear_signing_available (ps_display s')"
    by (simp add: sample_metadata_decodes sample_state_def metadata_flow_simps)
  with clear_after_metadata_means_tree_ok [OF s'(1)] show ?thesis by blast
qed

text \<open>C35. The tree verdict does not reach a deferred screen. When the nodes left the choice of the screen
  to a disclosed contract (accept, reject, withdraw), the metadata part is accepted with that choice
  still pending whatever non-refusing verdict the tree got, an orphan node included, and the next
  input contract is parsed for display all the same.\<close>

theorem deferred_screen_survives_tree_fallback:
  assumes "receive_metadata env parsed buf s = (0, s')" "ps_tx_state s' = RECEIVING_METADATA_INPUT_CONTRACTS"
    "ps_tx_state s = RECEIVING_METADATA" "metadata_display_conf (ps_display s) = Some conf"
    "\<not> display_failed (ps_display s)" "\<not> clear_signing_available (ps_display s)"
  shows "metadata_display_conf (ps_display s') = Some conf \<and>
     parse_input_contract_for_display denv contract (ps_display s', vals) =
       process_display_parsing denv (input_contract_display_field denv) contract (ps_display s', vals)"
  using assms
  by (auto simp: receive_metadata_def apply_node_tree_verdict_def process_prepared_tx_finalize_def abort_prepared_tx_def
      Let_def cleanup_display_items_def parse_input_contract_for_display_def
      split: option.splits prod.splits if_splits)

theorem deferred_screen_survives_tree_fallback_witness:
  "\<exists>s'. receive_metadata sample_prepared_env False (sample_metadata 1)
       (sample_state [\<lparr>seen = True, claimed = True\<rparr>, \<lparr>seen = True, claimed = False\<rparr>]
         (sample_display\<lparr>metadata_display_conf := Some (DISPLAY_CONFIGS ! 4)\<rparr>)) = (0, s') \<and>
     tree_err (ps_tree s') = TREE_ERR_ORPHAN_NODE \<and>
     parse_input_contract_for_display sample_display_env [] (ps_display s', values_check_reset) =
       process_display_parsing sample_display_env (input_contract_display_field sample_display_env) []
         (ps_display s', values_check_reset)"
proof -
  let ?s = "sample_state [\<lparr>seen = True, claimed = True\<rparr>, \<lparr>seen = True, claimed = False\<rparr>]
         (sample_display\<lparr>metadata_display_conf := Some (DISPLAY_CONFIGS ! 4)\<rparr>)"
  obtain s' where s': "receive_metadata sample_prepared_env False (sample_metadata 1) ?s = (0, s')"
    "ps_tx_state s' = RECEIVING_METADATA_INPUT_CONTRACTS" "tree_err (ps_tree s') = TREE_ERR_ORPHAN_NODE"
    by (simp add: sample_metadata_decodes sample_state_def metadata_flow_simps)
  with deferred_screen_survives_tree_fallback [OF s'(1,2), of "DISPLAY_CONFIGS ! 4" sample_display_env "[]" values_check_reset]
  show ?thesis by (auto simp: sample_state_def sample_display_def)
qed

section \<open>The transaction hash\<close>

text \<open>A node part leaves the bytes already hashed for the transaction alone and adds the hash of the
  node, if the header lists it as a root, and nothing otherwise.\<close>

lemma receive_node_hashes:
  assumes "receive_node env buf s = (0, s')"
  shows "\<exists>node_hash. hw (ps_hasher s') = hw (ps_hasher s) @ node_hash \<and>
     (node_hash = [] \<or> (\<exists>m. node_hash = take SHA256_HASH_LEN (px_sha env m)))"
  using assms
  by (auto simp: receive_node_def abort_prepared_tx_def proto_deserialize_node_def parser_env_of_def Let_def
      hw_finalize_def encode_hash_def hw_put_def set_node_hash_def split: option.splits prod.splits if_splits)

end
