(* ===== verification/Device_Safety.thy ===== *)
theory Device_Safety
  imports Device Prepared_Safety
begin

text \<open>
  Runs of the device: commands from the host, answers of the user to a review, and the settings
  switch, with the invariant that ties a pending review to what would be signed. The host sends a
  command only when the previous one is answered, so no command arrives while a review is open.
\<close>

section \<open>Steps\<close>

datatype event = Apdu command | Choice bool | Toggle | Menu

inductive step :: "device_env \<Rightarrow> device \<Rightarrow> event \<Rightarrow> reply option \<Rightarrow> device \<Rightarrow> bool" where
  apdu: "step env g (Apdu cmd) r g'"
    if "g_review g = None" "dv_max_tx_len env \<le> 1024 * 12" "apdu_dispatcher env cmd g = Some (r, g')"
| choice_clear: "step env g (Choice b) r g'"
    if "g_review g = Some (REVIEW_CLEAR t f ps)" "validate_transaction env b g = Some (r, g')"
| choice_blind: "step env g (Choice b) r g'"
    if "g_review g = Some (REVIEW_BLIND ps)" "validate_transaction env b g = Some (r, g')"
| choice_address: "step env g (Choice b) r g'"
    if "g_review g = Some (REVIEW_ADDRESS p)" "validate_pubkey b g = Some (r, g')"
| toggle: "step env g Toggle None (settings_controls_callback g)" if "g_review g = None"
| menu: "step env g Menu None (set_switches_states g)" if "g_review g = None"

inductive reachable :: "device \<Rightarrow> bool" where
  start: "reachable (app_start stored_blind stored_initialized)"
| next_step: "reachable g'" if "reachable g" "step env g e r g'"

inductive_cases step_choiceE: "step env g (Choice b) r g'"
inductive_cases step_apduE: "step env g (Apdu cmd) r g'"

text \<open>A turn of the main loop stays within the reachable states, whatever bytes arrive: either they are a
  command, or the device only answers that the length is wrong.\<close>

lemma app_main_turn_reachable:
  assumes "reachable g" "g_review g = None" "dv_max_tx_len env \<le> 1024 * 12" "app_main_turn parse env input g = Some (r, g')"
  shows "reachable g'"
proof (cases "parse input")
  case (Some cmd)
  then have "step env g (Apdu cmd) r g'"
    using assms by (intro step.apdu) (simp_all add: app_main_turn_def)
  with assms(1) show ?thesis by (rule next_step)
qed (use assms in \<open>simp add: app_main_turn_def io_send_sw_def\<close>)

section \<open>The invariant\<close>

definition clear_ok :: "device \<Rightarrow> bool" where
  "clear_ok g \<longleftrightarrow> clear_signing_available (ps_display (g_tx g))"

definition review_ok :: "device \<Rightarrow> bool" where
  "review_ok g \<longleftrightarrow>
     (case g_review g of
        None \<Rightarrow> True
      | Some (REVIEW_CLEAR t f ps) \<Rightarrow>
          g_req_type g = CONFIRM_TRANSACTION \<and> g_state g = STATE_PARSED \<and> clear_ok g \<and>
          t = di_review_title (ps_display (g_tx g)) \<and> f = di_review_finish (ps_display (g_tx g)) \<and>
          ps = di_pairs (ps_display (g_tx g))
      | Some (REVIEW_BLIND ps) \<Rightarrow>
          g_req_type g = CONFIRM_TRANSACTION \<and> g_state g = STATE_PARSED \<and> \<not> clear_ok g \<and> g_allow_blind_sign g \<and>
          ps = [(''Transaction hash'', str_bytes (hex_upper (ps_m_hash (g_tx g))))]
      | Some (REVIEW_ADDRESS p) \<Rightarrow> g_req_type g = CONFIRM_ADDRESS \<and> g_state g = STATE_NONE)"

definition device_inv :: "device \<Rightarrow> bool" where
  "device_inv g \<longleftrightarrow>
     review_ok g \<and> length (g_raw_tx g) \<le> 1024 * 12 \<and>
     (g_req_type g = CONFIRM_TRANSACTION \<and> g_signing_type g = SIGN_HASH \<longrightarrow> \<not> clear_ok g)"

lemma set_pairs_frame [frame_simps, simp]:
  "g_review (set_pairs ps g) = g_review g" "g_state (set_pairs ps g) = g_state g"
  "g_req_type (set_pairs ps g) = g_req_type g" "g_signing_type (set_pairs ps g) = g_signing_type g"
  "g_raw_tx (set_pairs ps g) = g_raw_tx g" "clear_ok (set_pairs ps g) = clear_ok g"
  "g_allow_blind_sign (set_pairs ps g) = g_allow_blind_sign g"
  "ps_m_hash (g_tx (set_pairs ps g)) = ps_m_hash (g_tx g)" "g_bip32_path (set_pairs ps g) = g_bip32_path g"
  by (simp_all add: set_pairs_def clear_ok_def)

lemma clean_context_frame [frame_simps, simp]:
  "g_review (clean_context g) = g_review g" "g_state (clean_context g) = STATE_NONE"
  "g_req_type (clean_context g) = CONFIRM_ADDRESS" "g_raw_tx (clean_context g) = []"
  "g_signing_type (clean_context g) = SIGN_HASH" "\<not> clear_ok (clean_context g)"
  "g_challenge_signature (clean_context g) = None" "ps_m_hash (g_tx (clean_context g)) = []" "g_allow_blind_sign (clean_context g) = g_allow_blind_sign g"
  by (simp_all add: clean_context_def clear_ok_def display_state_zero_def)

lemma io_send_sw_inv: "io_send_sw sw g = Some (r, g') \<Longrightarrow> device_inv g \<Longrightarrow> device_inv g'"
  by (auto simp: io_send_sw_def)

lemma io_send_response_inv: "io_send_response d sw g = Some (r, g') \<Longrightarrow> device_inv g \<Longrightarrow> device_inv g'"
  by (auto simp: io_send_response_def)

lemma refuse_tx_inv:
  "refuse_tx sw g = Some (r, g') \<Longrightarrow> g_review g = None \<Longrightarrow> length (g_raw_tx g) \<le> 1024 * 12 \<Longrightarrow> device_inv g'"
  by (auto simp: refuse_tx_def io_send_sw_def device_inv_def review_ok_def)

lemma process_first_chunk_inv:
  assumes "process_first_chunk env cdata type g = Some (sw, g')" "g_review g = None"
  shows "device_inv g' \<and> g_review g' = None \<and> (sw = 0 \<longrightarrow> g_state g' = STATE_EXPECTING_MORE)"
  using assms
  by (auto simp: process_first_chunk_def device_inv_def review_ok_def Let_def clear_ok_def process_prepared_tx_init_def
      set_pairs_def split: option.splits if_splits sum.splits prod.splits)

lemma process_next_chunk_frame:
  assumes "process_next_chunk env cdata has_more msg_end g = (sw, buf, g')" "g_review g = None"
    "dv_max_tx_len env \<le> 1024 * 12" "device_inv g"
  shows "device_inv g'" "g_review g' = None" "g_signing_type g' = g_signing_type g"
    "sw = 0 \<Longrightarrow> g_req_type g' = CONFIRM_TRANSACTION"
    "sw = 0 \<Longrightarrow> g_state g' \<in> {STATE_EXPECTING_MORE, STATE_MSG_COMPLETE, STATE_PARSED}"
  using assms
  by (auto simp: process_next_chunk_def device_inv_def review_ok_def Let_def clear_ok_def split: if_splits)

lemma process_complete_message_frame:
  assumes "process_complete_message env buf g = Some (sw, g')"
  shows "g_review g' = g_review g" "g_state g' = g_state g" "g_req_type g' = g_req_type g"
    "g_raw_tx g' = g_raw_tx g" "g_signing_type g' = g_signing_type g" "g_allow_blind_sign g' = g_allow_blind_sign g"
    "g_signing_type g = SIGN_HASH \<Longrightarrow> clear_ok g' = clear_ok g"
  using assms
  by (auto simp: process_complete_message_def process_transaction_hash_def clear_ok_def split: signing_type.splits
      option.splits prod.splits if_splits)

lemma show_review_inv:
  assumes "show_review g = Some (r, g')" "g_review g = None" "device_inv g"
    "g_state g = STATE_PARSED" "g_req_type g = CONFIRM_TRANSACTION"
  shows "device_inv g'"
  using assms
  by (auto simp: show_review_def ui_display_transaction_bs_choice_def ui_error_blind_signing_def io_send_sw_def
      device_inv_def review_ok_def clear_ok_def set_pairs_def Let_def split: if_splits)

lemma handler_sign_tx_inv:
  assumes "handler_sign_tx env cdata type first has_more msg_end g = Some (r, g')"
    "g_review g = None" "dv_max_tx_len env \<le> 1024 * 12" "device_inv g"
  shows "device_inv g'"
proof (cases first)
  case True
  with assms show ?thesis
    by (auto simp: handler_sign_tx_def device_inv_def split: option.splits if_splits
        dest!: process_first_chunk_inv refuse_tx_inv io_send_sw_inv)
next
  case False
  obtain sw buf g1 where chunk: "process_next_chunk env cdata has_more msg_end g = (sw, buf, g1)"
    by (metis prod_cases3)
  note f = process_next_chunk_frame [OF chunk assms(2-4)]
  consider "g_signing_type g \<noteq> type" | "sw \<noteq> 0" "g_signing_type g = type" 
    | "sw = 0" "g_signing_type g = type" "g_state g1 = STATE_EXPECTING_MORE"
    | "sw = 0" "g_signing_type g = type" "g_state g1 \<noteq> STATE_EXPECTING_MORE" by blast
  then show ?thesis
  proof cases
    case 4
    with assms(1) False chunk obtain r2 g2 where msg: "process_complete_message env buf g1 = Some (r2, g2)"
      by (auto simp: handler_sign_tx_def split: option.splits)
    note m = process_complete_message_frame [OF msg]
    have inv2: "device_inv g2"
      using f m 4 by (auto simp: device_inv_def review_ok_def)
    have res: "(if r2 \<noteq> 0 then refuse_tx r2 (set_pairs [] g2)
        else if g_state g2 = STATE_PARSED then show_review g2 else io_send_sw SW_OK g2) = Some (r, g')"
      using assms(1) False chunk msg 4 by (simp add: handler_sign_tx_def)
    have "length (g_raw_tx (set_pairs [] g2)) \<le> 1024 * 12" "g_review (set_pairs [] g2) = None"
      using inv2 f m by (simp_all add: device_inv_def)
    with res inv2 f m 4 show ?thesis
      by (auto split: if_splits dest: show_review_inv io_send_sw_inv refuse_tx_inv)
  next
    case 2
    then show ?thesis
      using assms(1) False chunk f
      by (intro refuse_tx_inv [of sw g1 r g']) (auto simp: handler_sign_tx_def device_inv_def)
  qed (use assms(1,4) False chunk f in \<open>auto simp: handler_sign_tx_def dest: io_send_sw_inv\<close>)
qed


lemma handler_get_public_key_inv:
  assumes "handler_get_public_key env cdata display g = Some (r, g')" "g_review g = None"
  shows "device_inv g'"
  using assms
  by (auto simp: handler_get_public_key_def Let_def io_send_sw_def io_send_response_def helper_send_response_pubkey_def
      ui_display_party_id_def device_inv_def review_ok_def split: option.splits sum.splits if_splits prod.splits)

lemma apdu_dispatcher_inv:
  assumes "apdu_dispatcher env cmd g = Some (r, g')" "g_review g = None" "dv_max_tx_len env \<le> 1024 * 12" "device_inv g"
  shows "device_inv g'"
  using assms
  by (auto simp: apdu_dispatcher_def handler_get_version_def handler_get_app_name_def Let_def split: option.splits if_splits
      dest: io_send_sw_inv io_send_response_inv handler_get_public_key_inv handler_sign_tx_inv)

lemma validate_transaction_inv:
  assumes "validate_transaction env b g = Some (r, g')" "device_inv g"
  shows "device_inv g'"
  using assms
  by (auto simp: validate_transaction_def Let_def io_send_sw_def helper_send_response_sig_def io_send_response_def
      device_inv_def review_ok_def clear_ok_def set_pairs_def split: option.splits if_splits)

lemma validate_pubkey_inv:
  assumes "validate_pubkey b g = Some (r, g')" "device_inv g"
  shows "device_inv g'"
  using assms
  by (auto simp: validate_pubkey_def Let_def io_send_sw_def helper_send_response_pubkey_def io_send_response_def
      device_inv_def review_ok_def clear_ok_def split: if_splits)

lemma step_inv: "step env g e r g' \<Longrightarrow> device_inv g \<Longrightarrow> device_inv g'"
  by (induction rule: step.induct)
     (auto dest: apdu_dispatcher_inv validate_transaction_inv validate_pubkey_inv
       simp: settings_controls_callback_def set_switches_states_def device_inv_def review_ok_def clear_ok_def Let_def)

lemma reachable_inv: "reachable g \<Longrightarrow> device_inv g"
  by (induction rule: reachable.induct)
     (auto dest: step_inv simp: device_inv_def review_ok_def app_start_def clear_ok_def display_state_zero_def Let_def)


section \<open>A sample run\<close>

text \<open>A concrete SDK for the witnesses: the path is one component read from one byte, a digest is the
  length of its input, a signature is 64 copies of the length of the message.\<close>

definition sample_env :: device_env where
  "sample_env = \<lparr>dv_read_path = (\<lambda>d. case d of [] \<Rightarrow> None | n # rest \<Rightarrow> Some ([ucast n], rest)),
     dv_raw_pubkey = (\<lambda>path. Inr (replicate 65 7, replicate 32 9)),
     dv_sign = (\<lambda>path m. Some (replicate 64 (of_nat (length m)))),
     dv_topology = \<lparr>te_sha = sample_sha, te_eddsa_sign = (\<lambda>m. replicate 64 1), te_domain_len = 32, te_short_enums = True,
       te_other_ok = (\<lambda>_ _. True)\<rparr>,
     dv_prepared = \<lparr>px_sha = sample_sha, px_tree_mem = True, px_contracts_mem = True, px_budget = 8, px_display = sample_display_env\<rparr>,
     dv_max_tx_len = 1024 * 12, dv_version = [1, 2, 3], dv_appname = ''Canton''\<rparr>"

definition sign_cmd :: "byte \<Rightarrow> byte \<Rightarrow> byte list \<Rightarrow> command" where
  "sign_cmd p1 p2 data = \<lparr>cmd_cla = 0xE0, cmd_ins = 0x06, cmd_p1 = p1, cmd_p2 = p2, cmd_data = Some data\<rparr>"

definition after :: "device_env \<Rightarrow> command \<Rightarrow> device \<Rightarrow> device" where
  "after env cmd g = snd (the (apdu_dispatcher env cmd g))"

definition sample_hash_review :: device where
  "sample_hash_review = after sample_env (sign_cmd 0 4 (replicate 32 0xAB))
     (after sample_env (sign_cmd 0 3 [5]) (app_start True True))"

lemma reachable_after:
  assumes "reachable g" "g_review g = None" "dv_max_tx_len env \<le> 1024 * 12" "apdu_dispatcher env cmd g \<noteq> None"
  shows "reachable (after env cmd g)"
proof -
  obtain r where "apdu_dispatcher env cmd g = Some (r, after env cmd g)"
    using assms(4) by (cases "apdu_dispatcher env cmd g") (auto simp: after_def)
  with assms(1-3) show ?thesis by (meson reachable.intros step.apdu)
qed

lemmas sign_flow_simps = apdu_dispatcher_def sign_cmd_def handler_sign_tx_def process_first_chunk_def
  process_next_chunk_def process_complete_message_def process_transaction_hash_def show_review_def
  ui_display_transaction_bs_choice_def io_send_sw_def signing_type_of_def clean_context_def app_start_def
  display_state_zero_def set_pairs_def

lemma sample_hash_review_eq:
  defines "g1 \<equiv> after sample_env (sign_cmd 0 3 [5]) (app_start True True)"
  shows "apdu_dispatcher sample_env (sign_cmd 0 3 [5]) (app_start True True) = Some (Some (REPLY [] 0x9000), g1)"
    "g_review g1 = None"
    "apdu_dispatcher sample_env (sign_cmd 0 4 (replicate 32 0xAB)) g1 = Some (None, sample_hash_review)"
    "g_review sample_hash_review = Some (REVIEW_BLIND [(''Transaction hash'', str_bytes (hex_upper (replicate 32 0xAB)))])"
    "g_signing_type sample_hash_review = SIGN_HASH"
    "ps_m_hash (g_tx sample_hash_review) = replicate 32 0xAB" "g_bip32_path sample_hash_review = [5]"
    "g_challenge_signature sample_hash_review = None"
  unfolding g1_def sample_hash_review_def
  by (simp_all add: after_def sign_flow_simps sample_env_def sw_on_wire_def Let_def)

lemma sample_hash_review_reachable: "reachable sample_hash_review"
  unfolding sample_hash_review_def
  by (rule reachable_after [OF reachable_after [OF reachable.start]])
     (simp_all add: sample_hash_review_eq, simp_all add: app_start_def sample_env_def)

section \<open>What is signed is what was reviewed\<close>

lemma validate_transaction_reply:
  assumes "validate_transaction env True g = Some (Some (REPLY data sw), g')" "sw = 0x9000"
  shows "\<exists>sig. dv_sign env (g_bip32_path g) (ps_m_hash (g_tx g)) = Some sig \<and> length sig = ED25519_SIG_LEN \<and>
     data = 64 # sig @ 0 # (case g_challenge_signature g of None \<Rightarrow> [] | Some ch \<Rightarrow> of_nat (length ch) # ch)"
  using assms
  by (auto simp: validate_transaction_def Let_def crypto_sign_message_def io_send_sw_def io_send_response_def
      helper_send_response_sig_def sw_on_wire_def split: option.splits if_splits)

lemma handler_sign_tx_no_data:
  "handler_sign_tx env cdata type first has_more msg_end g = Some (Some (REPLY data sw), g') \<Longrightarrow> data = []"
  by (auto simp: handler_sign_tx_def refuse_tx_def io_send_sw_def show_review_def ui_error_blind_signing_def
      ui_display_transaction_bs_choice_def Let_def split: option.splits if_splits prod.splits)

text \<open>C1. The device signs exactly what the open review stands for. When the user approves a
  transaction review and a success reply goes out, the reply carries the signature of the current
  message hash under the path of the request; and the review was either a blind one, allowed by the
  setting and showing the hexadecimal text of that very hash, or a clear one, showing the title and
  the pairs that the parsers left while clear signing was available.\<close>

theorem approved_signature_is_of_reviewed_hash:
  assumes "reachable g" "step env g (Choice True) (Some (REPLY data sw)) g'" "sw = 0x9000"
    "\<nexists>p. g_review g = Some (REVIEW_ADDRESS p)"
  shows "\<exists>sig. dv_sign env (g_bip32_path g) (ps_m_hash (g_tx g)) = Some sig \<and> length sig = ED25519_SIG_LEN \<and>
      data = 64 # sig @ 0 # (case g_challenge_signature g of None \<Rightarrow> [] | Some ch \<Rightarrow> of_nat (length ch) # ch) \<and>
      (g_review g = Some (REVIEW_BLIND [(''Transaction hash'', str_bytes (hex_upper (ps_m_hash (g_tx g))))]) \<and>
         g_allow_blind_sign g \<and> \<not> clear_signing_available (ps_display (g_tx g)) \<or>
       g_review g = Some (REVIEW_CLEAR (di_review_title (ps_display (g_tx g))) (di_review_finish (ps_display (g_tx g)))
         (di_pairs (ps_display (g_tx g)))) \<and> clear_signing_available (ps_display (g_tx g)))"
proof -
  obtain rv where rv: "validate_transaction env True g = Some (Some (REPLY data sw), g')" "g_review g = Some rv"
    using assms(2,4) by (elim step_choiceE) auto
  obtain sig where "dv_sign env (g_bip32_path g) (ps_m_hash (g_tx g)) = Some sig" "length sig = ED25519_SIG_LEN"
    "data = 64 # sig @ 0 # (case g_challenge_signature g of None \<Rightarrow> [] | Some ch \<Rightarrow> of_nat (length ch) # ch)"
    using validate_transaction_reply [OF rv(1) assms(3)] by blast
  moreover have "review_ok g"
    using reachable_inv [OF assms(1)] by (simp add: device_inv_def)
  ultimately show ?thesis
    using rv(2) assms(4) by (cases rv) (auto simp: review_ok_def clear_ok_def)
qed

theorem approved_signature_is_of_reviewed_hash_witness:
  "\<exists>sig. dv_sign sample_env (g_bip32_path sample_hash_review) (ps_m_hash (g_tx sample_hash_review)) = Some sig \<and>
     length sig = ED25519_SIG_LEN"
proof -
  note review = sample_hash_review_eq(4)
  have "validate_transaction sample_env True sample_hash_review =
      Some (Some (REPLY (64 # replicate 64 32 @ [0]) 0x9000), snd (the (validate_transaction sample_env True sample_hash_review)))"
    by (simp add: validate_transaction_def crypto_sign_message_def helper_send_response_sig_def io_send_response_def
        sample_hash_review_eq sample_env_def sw_on_wire_def)
  then have "step sample_env sample_hash_review (Choice True) (Some (REPLY (64 # replicate 64 32 @ [0]) 0x9000))
      (snd (the (validate_transaction sample_env True sample_hash_review)))"
    using review by (rule step.choice_blind [rotated])
  from approved_signature_is_of_reviewed_hash [OF sample_hash_review_reachable this] review show ?thesis
    by auto
qed

text \<open>C29. No signing command ever returns data: whatever the host sends, the immediate answer to a
  SIGN_TX command is a bare status word, so a signature can only come out of a review.\<close>

theorem sign_command_returns_no_data:
  assumes "cmd_ins cmd = 0x06" "apdu_dispatcher env cmd g = Some (Some (REPLY data sw), g')"
  shows "data = []"
  using assms by (auto simp: apdu_dispatcher_def Let_def io_send_sw_def split: option.splits if_splits
      dest: handler_sign_tx_no_data)

theorem sign_command_returns_no_data_witness:
  "\<exists>g'. apdu_dispatcher sample_env (sign_cmd 0 3 [5]) (app_start True True) = Some (Some (REPLY [] 0x9000), g')"
proof -
  obtain data g' where "apdu_dispatcher sample_env (sign_cmd 0 3 [5]) (app_start True True) = Some (Some (REPLY data 0x9000), g')"
    using sample_hash_review_eq(1) by blast
  moreover from this have "data = []"
    by (rule sign_command_returns_no_data [rotated]) (simp add: sign_cmd_def)
  ultimately show ?thesis by blast
qed

text \<open>C15. Signing a bare hash is always blind: in every reachable state, a transaction review opened by
  the hash flow is the blind review of the hash itself, and the blind signing setting is on.\<close>

theorem hash_review_is_blind:
  assumes "reachable g" "g_signing_type g = SIGN_HASH" "g_review g = Some rv" "\<nexists>p. rv = REVIEW_ADDRESS p"
  shows "rv = REVIEW_BLIND [(''Transaction hash'', str_bytes (hex_upper (ps_m_hash (g_tx g))))] \<and> g_allow_blind_sign g"
  using reachable_inv [OF assms(1)] assms(2-4)
  by (cases rv) (auto simp: device_inv_def review_ok_def)

theorem hash_review_is_blind_witness: "g_allow_blind_sign sample_hash_review"
  using hash_review_is_blind [OF sample_hash_review_reachable sample_hash_review_eq(5,4)] by simp



section \<open>A refused transaction is over\<close>

record chunk =
  ch_data :: "byte list"
  ch_type :: signing_type
  ch_more :: bool
  ch_end :: bool

fun continue_with :: "device_env \<Rightarrow> chunk list \<Rightarrow> device \<Rightarrow> (reply option list \<times> device) option" where
  "continue_with env [] g = Some ([], g)"
| "continue_with env (c # cs) g =
     (case handler_sign_tx env (ch_data c) (ch_type c) False (ch_more c) (ch_end c) g of
        None \<Rightarrow> None
      | Some (r, g1) \<Rightarrow> map_option (\<lambda>(rs, g2). (r # rs, g2)) (continue_with env cs g1))"

lemma closed_session_chunk:
  assumes "g_req_type g = CONFIRM_ADDRESS"
  shows "\<exists>g1. handler_sign_tx env d t False m e g = Some (Some (REPLY [] SW_BAD_STATE), g1) \<and>
     g_req_type g1 = CONFIRM_ADDRESS \<and> g_tx g1 = g_tx g \<and> g_review g1 = g_review g"
  using assms
  by (auto simp: handler_sign_tx_def process_next_chunk_def refuse_tx_def io_send_sw_def sw_on_wire_def)

lemma continue_closed:
  assumes "g_req_type g = CONFIRM_ADDRESS"
  shows "\<exists>g'. continue_with env cs g = Some (replicate (length cs) (Some (REPLY [] SW_BAD_STATE)), g') \<and>
     g_req_type g' = CONFIRM_ADDRESS \<and> g_tx g' = g_tx g \<and> g_review g' = g_review g"
  using assms
proof (induction cs arbitrary: g)
  case (Cons c cs)
  obtain g1 where "handler_sign_tx env (ch_data c) (ch_type c) False (ch_more c) (ch_end c) g = Some (Some (REPLY [] SW_BAD_STATE), g1)"
    "g_req_type g1 = CONFIRM_ADDRESS" "g_tx g1 = g_tx g" "g_review g1 = g_review g"
    using closed_session_chunk [OF Cons.prems] by blast
  with Cons.IH [of g1] show ?case by auto
qed simp

text \<open>C32. A refused transaction is over: after \<^verbatim>\<open>refuse_tx\<close> every further chunk without the first
  flag, however many and whatever they contain, is answered with SW_BAD_STATE; none is parsed, no review
  opens and the message hash stays as it was.\<close>

theorem refused_session_stays_closed:
  assumes "refuse_tx sw g = Some (r, g1)"
  shows "\<exists>g2. continue_with env cs g1 = Some (replicate (length cs) (Some (REPLY [] SW_BAD_STATE)), g2) \<and>
     g_tx g2 = g_tx g \<and> g_review g2 = g_review g"
  using continue_closed [of g1 env cs] assms by (auto simp: refuse_tx_def io_send_sw_def)


theorem refused_session_stays_closed_witness:
  "\<exists>g2. continue_with sample_env [\<lparr>ch_data = [1], ch_type = SIGN_HASH, ch_more = False, ch_end = True\<rparr>]
     ((app_start True True)\<lparr>g_req_type := CONFIRM_ADDRESS, g_state := STATE_NONE\<rparr>) = Some ([Some (REPLY [] SW_BAD_STATE)], g2)"
proof -
  have "refuse_tx SW_WRONG_TX_LENGTH (app_start True True) = Some (Some (REPLY [] SW_WRONG_TX_LENGTH),
      (app_start True True)\<lparr>g_req_type := CONFIRM_ADDRESS, g_state := STATE_NONE\<rparr>)"
    by (simp add: refuse_tx_def io_send_sw_def sw_on_wire_def)
  from refused_session_stays_closed [OF this, of sample_env "[\<lparr>ch_data = [1], ch_type = SIGN_HASH, ch_more = False, ch_end = True\<rparr>]"]
  show ?thesis by auto
qed

section \<open>Sessions that end early or go on too long\<close>

text \<open>C36. A transaction can be cut short. The host marks the header as the last message: the device
  then opens the blind review although no node, no metadata and no hash was received, shows an empty
  hash, and on approval signs the empty message.\<close>

theorem premature_end_signs_empty_message:
  assumes "dv_read_path env d = Some (path, rest)" "length premature_header \<le> dv_max_tx_len env"
    "dv_sign env path [] = Some sig" "length sig = ED25519_SIG_LEN" "g_allow_blind_sign g"
  shows "\<exists>g1 g2. apdu_dispatcher env (sign_cmd 2 3 d) g = Some (Some (REPLY [] 0x9000), g1) \<and>
     apdu_dispatcher env (sign_cmd 2 4 premature_header) g1 = Some (None, g2) \<and>
     g_review g2 = Some (REVIEW_BLIND [(''Transaction hash'', [])]) \<and>
     map_option fst (validate_transaction env True g2) = Some (Some (REPLY (64 # sig @ [0]) 0x9000))"
proof -
  let ?tx = "process_prepared_tx_init (g_tx (clean_context g))"
  obtain s where s: "process_prepared_tx_part (dv_prepared env) True premature_header
       (?tx\<lparr>ps_display := (ps_display ?tx)\<lparr>clear_signing_available := False\<rparr>\<rparr>) = (0, s)"
    "ps_m_hash s = []" "\<not> clear_signing_available (ps_display s)"
    using premature_part [of "?tx\<lparr>ps_display := (ps_display ?tx)\<lparr>clear_signing_available := False\<rparr>\<rparr>" "dv_prepared env" True]
    by (auto simp: process_prepared_tx_init_def)
  show ?thesis
    using assms s
    by (simp add: apdu_dispatcher_def sign_cmd_def handler_sign_tx_def process_first_chunk_def signing_type_of_def io_send_sw_def
      process_next_chunk_def process_complete_message_def show_review_def ui_display_transaction_bs_choice_def
      sw_on_wire_def Let_def set_pairs_def hex_upper_def str_bytes_def validate_transaction_def crypto_sign_message_def
      helper_send_response_sig_def io_send_response_def)
qed

theorem premature_end_signs_empty_message_witness:
  "\<exists>g1 g2. apdu_dispatcher sample_env (sign_cmd 2 3 [5]) (app_start True True) = Some (Some (REPLY [] 0x9000), g1) \<and>
     apdu_dispatcher sample_env (sign_cmd 2 4 premature_header) g1 = Some (None, g2) \<and>
     map_option fst (validate_transaction sample_env True g2) = Some (Some (REPLY (64 # replicate 64 0 @ [0]) 0x9000))"
  using premature_end_signs_empty_message [of sample_env "[5]" "[5]" "[]" "replicate 64 0" "app_start True True"]
  by (auto simp: sample_env_def premature_header_def app_start_def)

text \<open>C37. A rejected transaction is not over. The user rejects the review of a 32 byte hash; two more
  bytes sent as a continuation, without a new first command and derivation path, open a review of the
  34 byte string that starts with the rejected hash.\<close>

theorem rejected_hash_session_stays_open:
  assumes "g_review g = Some rv" "g_req_type g = CONFIRM_TRANSACTION" "g_signing_type g = SIGN_HASH"
    "length (g_raw_tx g) = 32" "34 \<le> dv_max_tx_len env" "\<not> clear_signing_available (ps_display (g_tx g))"
    "g_allow_blind_sign g" "validate_transaction env False g = Some (r, g1)"
  shows "r = Some (REPLY [] SW_DENY) \<and>
     (\<exists>g2. handler_sign_tx env [a, b] SIGN_HASH False False True g1 = Some (None, g2) \<and>
       ps_m_hash (g_tx g2) = g_raw_tx g @ [a, b] \<and> g_bip32_path g2 = g_bip32_path g \<and>
       g_review g2 = Some (REVIEW_BLIND [(''Transaction hash'', str_bytes (hex_upper (g_raw_tx g @ [a, b])))]))"
  using assms
  by (auto simp: validate_transaction_def handler_sign_tx_def process_next_chunk_def process_complete_message_def
      process_transaction_hash_def show_review_def ui_display_transaction_bs_choice_def io_send_sw_def Let_def
      set_pairs_def sw_on_wire_def)

theorem rejected_hash_session_stays_open_witness:
  "\<exists>g1 g2. validate_transaction sample_env False sample_hash_review = Some (Some (REPLY [] SW_DENY), g1) \<and>
     handler_sign_tx sample_env [1, 2] SIGN_HASH False False True g1 = Some (None, g2) \<and>
     ps_m_hash (g_tx g2) = replicate 32 0xAB @ [1, 2]"
proof -
  obtain r g1 where v: "validate_transaction sample_env False sample_hash_review = Some (r, g1)"
    by (simp add: validate_transaction_def io_send_sw_def Let_def)
  have "g_req_type sample_hash_review = CONFIRM_TRANSACTION" "g_raw_tx sample_hash_review = replicate 32 0xAB"
    "34 \<le> dv_max_tx_len sample_env" "\<not> clear_signing_available (ps_display (g_tx sample_hash_review))"
    "g_allow_blind_sign sample_hash_review"
    unfolding sample_hash_review_def
    by (simp_all add: after_def sign_flow_simps sample_env_def sw_on_wire_def Let_def)
  with rejected_hash_session_stays_open [OF sample_hash_review_eq(4) _ sample_hash_review_eq(5) _ _ _ _ v, of 1 2] v
  show ?thesis by auto
qed

end
