(* ===== verification/Decode_Frames.thy ===== *)
theory Decode_Frames
  imports Hashing_Parser
begin

text \<open>
  What a decode with callbacks may change. A decode is a sequence of callbacks on a state, so any
  reflexive and transitive relation that every callback respects holds between the state before and
  the state after a decode, at every nesting depth. The locale states this once, together with the
  monotonicity of a decode in its callbacks; the hashing walk and the display walk are its clients.
\<close>

section \<open>Relations kept by a decode\<close>

text \<open>A handler keeps a relation when every successful call relates the state before and after.\<close>

definition keeps :: "('s \<Rightarrow> 's \<Rightarrow> bool) \<Rightarrow> ('s \<Rightarrow> 's option) \<Rightarrow> bool" where
  "keeps R f \<longleftrightarrow> (\<forall>s s'. f s = Some s' \<longrightarrow> R s s')"

lemma keepsI: "(\<And>s s'. f s = Some s' \<Longrightarrow> R s s') \<Longrightarrow> keeps R f"
  by (simp add: keeps_def)

lemma keepsD: "keeps R f \<Longrightarrow> f s = Some s' \<Longrightarrow> R s s'"
  by (simp add: keeps_def)

text \<open>The same for a decode that fills a struct next to the state.\<close>

definition keeps2 :: "('s \<Rightarrow> 's \<Rightarrow> bool) \<Rightarrow> ('m \<times> 's \<Rightarrow> ('m \<times> 's) option) \<Rightarrow> bool" where
  "keeps2 R f \<longleftrightarrow> (\<forall>m s m' s'. f (m, s) = Some (m', s') \<longrightarrow> R s s')"

lemma keeps2I: "(\<And>m s m' s'. f (m, s) = Some (m', s') \<Longrightarrow> R s s') \<Longrightarrow> keeps2 R f"
  by (simp add: keeps2_def)

lemma keeps2D: "keeps2 R f \<Longrightarrow> f (m, s) = Some (m', s') \<Longrightarrow> R s s'"
  unfolding keeps2_def by blast

locale decode_rel =
  fixes R :: "'s \<Rightarrow> 's \<Rightarrow> bool"
  assumes refl: "R s s"
    and trans: "R s t \<Longrightarrow> R t u \<Longrightarrow> R s u"
begin

lemma fold_opt_keeps:
  assumes "\<And>x. keeps R (f x)"
  shows "keeps R (fold_opt f xs)"
proof -
  have "fold_opt f xs s = Some s' \<Longrightarrow> R s s'" for s s'
  proof (induction xs arbitrary: s)
    case (Cons x xs)
    then show ?case
      by (auto split: option.splits dest: keepsD [OF assms] intro: trans)
  qed (simp add: refl)
  then show ?thesis by (rule keepsI)
qed

lemma pb_decode_keeps:
  assumes "\<And>fw. keeps R (f fw)"
  shows "keeps R (pb_decode f bs)"
  using fold_opt_keeps [of f] assms by (auto simp: pb_decode_def keeps_def split: option.splits)

lemma run_callback_keeps:
  assumes "\<And>p. keeps R (f p)"
  shows "keeps R (run_callback f w)"
  using assms by (auto simp: run_callback_def keeps_def split: option.splits)

lemma comp_null_keeps: "keeps R (comp_null t p)"
  by (auto simp: comp_null_def keeps_def Let_def refl split: if_splits)

lemma fold_opt_keeps2:
  assumes "\<And>x. keeps2 R (f x)"
  shows "keeps2 R (fold_opt f xs)"
proof -
  have "fold_opt f xs (m, s) = Some (m', s') \<Longrightarrow> R s s'" for m s m' s'
  proof (induction xs arbitrary: m s)
    case (Cons x xs)
    then show ?case
      by (auto split: option.splits dest: keeps2D [OF assms] intro: trans)
  qed (simp add: refl)
  then show ?thesis by (rule keeps2I)
qed

lemma pb_decode_keeps2:
  assumes "\<And>fw. keeps2 R (f fw)"
  shows "keeps2 R (pb_decode f bs)"
  using fold_opt_keeps2 [of f] assms unfolding keeps2_def pb_decode_def
  by (auto split: option.splits)

lemma value_field_keeps2:
  assumes "\<And>t p. keeps R (sub t p)"
  shows "keeps2 R (value_field sub fw)"
  using assms unfolding keeps2_def value_field_def Let_def
  by (auto simp: refl split: if_splits wire.splits dest: keepsD)

lemma decode_cbValue_keeps2:
  assumes "\<And>t p. keeps R (sub t p)"
  shows "keeps2 R (decode_cbValue sub bs)"
  unfolding decode_cbValue_def by (rule pb_decode_keeps2) (rule value_field_keeps2 [OF assms])

lemma labelled_value_field_keeps2:
  assumes "\<And>p. keeps R (label p)" "\<And>t p. keeps R (sub t p)"
  shows "keeps2 R (labelled_value_field label sub fw)"
proof (rule keeps2I)
  fix m s m' s'
  assume "labelled_value_field label sub fw (m, s) = Some (m', s')"
  then show "R s s'"
    by (auto simp: labelled_value_field_def refl split: if_splits wire.splits
        dest: keepsD [OF run_callback_keeps [OF assms(1)]] keeps2D [OF decode_cbValue_keeps2 [OF assms(2)]])
qed

lemma gen_map_entry_field_keeps2:
  assumes "\<And>t p. keeps R (f t p)" "\<And>t p. keeps R (g t p)"
  shows "keeps2 R (gen_map_entry_field f g fw)"
proof (rule keeps2I)
  fix m s m' s'
  assume "gen_map_entry_field f g fw (m, s) = Some (m', s')"
  then show "R s s'"
    by (auto simp: gen_map_entry_field_def Let_def refl split: if_splits wire.splits
        dest: keeps2D [OF decode_cbValue_keeps2 [OF assms(1)]] keeps2D [OF decode_cbValue_keeps2 [OF assms(2)]])
qed

end

section \<open>More callbacks that succeed\<close>

text \<open>\<^verbatim>\<open>extends f g\<close>: wherever \<^verbatim>\<open>f\<close> succeeds, \<^verbatim>\<open>g\<close> has the same result.\<close>

definition extends :: "('s \<Rightarrow> 's option) \<Rightarrow> ('s \<Rightarrow> 's option) \<Rightarrow> bool" where
  "extends f g \<longleftrightarrow> (\<forall>s s'. f s = Some s' \<longrightarrow> g s = Some s')"

lemma extendsI: "(\<And>s s'. f s = Some s' \<Longrightarrow> g s = Some s') \<Longrightarrow> extends f g"
  by (simp add: extends_def)

lemma extendsD: "extends f g \<Longrightarrow> f s = Some s' \<Longrightarrow> g s = Some s'"
  by (simp add: extends_def)

lemma extends_refl [simp]: "extends f f"
  by (simp add: extends_def)

lemma fold_opt_extends:
  assumes "\<And>x. extends (f x) (g x)"
  shows "extends (fold_opt f xs) (fold_opt g xs)"
proof -
  have "fold_opt f xs s = Some s' \<Longrightarrow> fold_opt g xs s = Some s'" for s s'
    by (induction xs arbitrary: s) (auto split: option.splits dest: extendsD [OF assms])
  then show ?thesis by (rule extendsI)
qed

lemma pb_decode_extends:
  assumes "\<And>fw. extends (f fw) (g fw)"
  shows "extends (pb_decode f bs) (pb_decode g bs)"
  using fold_opt_extends [of f g] assms by (auto simp: pb_decode_def extends_def split: option.splits)

lemma run_callback_extends:
  assumes "\<And>p. extends (f p) (g p)"
  shows "extends (run_callback f w) (run_callback g w)"
  using assms by (auto simp: run_callback_def extends_def split: option.splits)

lemma decode_cbValue_extends:
  assumes "\<And>t p. extends (f t p) (g t p)"
  shows "extends (decode_cbValue f bs) (decode_cbValue g bs)"
  unfolding decode_cbValue_def
  by (rule pb_decode_extends, rule extendsI)
     (auto simp: value_field_def Let_def split: if_splits wire.splits dest: extendsD [OF assms])

lemma labelled_value_extends:
  assumes "\<And>t p. extends (f t p) (g t p)"
  shows "extends (pb_decode (labelled_value_field label f) bs) (pb_decode (labelled_value_field label g) bs)"
  by (rule pb_decode_extends, rule extendsI)
     (auto simp: labelled_value_field_def split: if_splits wire.splits
        dest: extendsD [OF decode_cbValue_extends [OF assms]])

lemma gen_map_entry_extends:
  assumes "\<And>t p. extends (f t p) (f' t p)" "\<And>t p. extends (g t p) (g' t p)"
  shows "extends (pb_decode (gen_map_entry_field f g) bs) (pb_decode (gen_map_entry_field f' g') bs)"
  by (rule pb_decode_extends, rule extendsI)
     (auto simp: gen_map_entry_field_def Let_def split: if_splits wire.splits
        dest: extendsD [OF decode_cbValue_extends [OF assms(1)]] extendsD [OF decode_cbValue_extends [OF assms(2)]])

end
