(* ===== verification/Hash_Frames.thy ===== *)
theory Hash_Frames
  imports Decode_Frames "HOL-Library.Sublist"
begin

text \<open>
  What hashing a value may change. Every encoder only appends bytes to the writer and may record an
  error, so walking over a value, at any depth, leaves the node id, the flags, the node tree check, the
  values check and the node hash store alone. The depth that the stack allows decides only whether a
  value is hashed, not what is hashed.
\<close>

section \<open>Encoders only append\<close>

definition appends :: "(hash_ctx \<Rightarrow> hash_ctx) \<Rightarrow> bool" where
  "appends f \<longleftrightarrow> (\<forall>h. prefix (hw h) (hw (f h)) \<and> hashed_nodes_store (f h) = hashed_nodes_store h \<and>
     hashed_nodes_store_count (f h) = hashed_nodes_store_count h \<and> (err_code (f h) = HASH_OK \<longrightarrow> err_code h = HASH_OK))"

lemma appends_comp: "appends f \<Longrightarrow> appends g \<Longrightarrow> appends (\<lambda>h. f (g h))"
  unfolding appends_def by (metis prefix_order.trans)

lemma appends_id: "appends (\<lambda>h. h)"
  by (simp add: appends_def)

lemma appends_put [intro]: "appends (hw_put p)"
  by (simp add: appends_def hw_put_def)

lemma appends_raise [intro]: "appends (set_hash_error e)"
  by (simp add: appends_def set_hash_error_def)

lemma appends_put_byte [intro]: "appends (hw_put_byte b)"
  unfolding hw_put_byte_def by (rule appends_put)

lemma appends_int [intro]: "appends (encode_int32 i)" "appends (encode_int64 w)" "appends (encode_bool b)"
  unfolding encode_int32_def encode_int64_def encode_bool_def hw_put_u32_be_def hw_put_u64_be_def
  by (rule appends_put appends_put_byte)+

lemma appends_string [intro]: "appends (encode_string s)"
  by (cases s) (auto simp: encode_string_def [abs_def] encode_bytes_eq)

lemma appends_hash [intro]: "appends (encode_hash s)"
  by (cases s) (auto simp: encode_hash_def [abs_def])

lemma appends_hex [intro]: "appends (encode_hex_string s)"
proof (cases s)
  case None
  then have "encode_hex_string s = set_hash_error HASH_ERROR_MISSING_FIELD"
    by (simp add: encode_hex_string_def fun_eq_iff)
  then show ?thesis by auto
next
  case (Some x)
  then have "encode_hex_string s = (if length x mod 2 \<noteq> 0 then set_hash_error HASH_ERROR_INVALID_HASH_STRING
      else (\<lambda>h. hw_put (hex_bytes x) (encode_int32 (int (length x div 2)) h)))"
    by (simp add: encode_hex_string_def fun_eq_iff fold_hw_put_byte)
  then show ?thesis by (auto intro: appends_comp)
qed

lemma appends_dotted [intro]: "appends (split_dot_and_encode s)"
proof (cases s)
  case None
  then have "split_dot_and_encode s = set_hash_error HASH_ERROR_MISSING_FIELD"
    by (simp add: split_dot_and_encode_def fun_eq_iff)
  then show ?thesis by auto
qed auto

lemma appends_identifier [intro]: "appends (encode_identifier i)"
  unfolding encode_identifier_def [abs_def]
  by (rule appends_comp [OF appends_dotted appends_comp [OF appends_dotted appends_string]])

lemma appends_fold:
  assumes "\<And>x. appends (f x)"
  shows "appends (fold f xs)"
proof (induction xs)
  case Nil
  show ?case using appends_id by (simp add: id_def)
next
  case (Cons x xs)
  show ?case using appends_comp [OF Cons assms [of x]] by (simp add: comp_def)
qed

lemma appends_strings [intro]: "appends (encode_repeated wrap_encode_string xs)"
  by auto

lemma appends_optional:
  assumes "appends f"
  shows "appends (encode_optional b f)"
proof -
  have "encode_optional b f = (if b then (\<lambda>h. f (hw_put_byte 1 h)) else hw_put_byte 0)"
    by (auto simp: encode_optional_def fun_eq_iff)
  then show ?thesis using appends_comp [OF assms appends_put_byte] by auto
qed

text \<open>The node encoders are chains of these.\<close>

definition hash_frame :: "hash_ctx \<Rightarrow> hash_ctx \<Rightarrow> bool" where
  "hash_frame h h' \<longleftrightarrow> prefix (hw h) (hw h') \<and> hashed_nodes_store h' = hashed_nodes_store h \<and>
     hashed_nodes_store_count h' = hashed_nodes_store_count h \<and> (err_code h' = HASH_OK \<longrightarrow> err_code h = HASH_OK)"

lemma hash_frame_refl: "hash_frame h h"
  by (simp add: hash_frame_def)

lemma appends_frame: "appends f \<Longrightarrow> hash_frame h g \<Longrightarrow> hash_frame h (f g)"
  unfolding appends_def hash_frame_def by (metis prefix_order.trans)

lemma appendsI: "(\<And>h. hash_frame h (f h)) \<Longrightarrow> appends f"
  by (simp add: appends_def hash_frame_def)

lemma appends_node_ids [intro]: "appends (encode_repeated_node_ids xs)"
proof -
  have "hash_frame h g \<Longrightarrow> hash_frame h (encode_node_id_loop xs g)" for h g
    by (induction xs arbitrary: g)
       (auto split: option.splits intro: appends_frame [OF appends_put] appends_frame [OF appends_raise])
  then have "appends (encode_node_id_loop xs)" by (intro appendsI) (auto intro: hash_frame_refl)
  from appends_comp [OF this appends_int(1)] show ?thesis
    by (simp add: encode_repeated_node_ids_def [abs_def])
qed

lemmas encoder_frames = appends_frame [OF appends_put_byte] appends_frame [OF appends_put] appends_frame [OF appends_raise]
  appends_frame [OF appends_int(1)] appends_frame [OF appends_int(2)] appends_frame [OF appends_int(3)]
  appends_frame [OF appends_string] appends_frame [OF appends_hash] appends_frame [OF appends_hex]
  appends_frame [OF appends_identifier] appends_frame [OF appends_strings] appends_frame [OF appends_node_ids]
  appends_frame [OF appends_optional [OF appends_hash]] appends_frame [OF appends_optional [OF appends_identifier]]

lemma appends_nodes [intro]:
  "appends (encode_create_start cr seed)" "appends (encode_create_end cr)"
  "appends (encode_exercise_start e seed)" "appends (encode_exercise_middle e)" "appends (encode_exercise_end e)"
  "appends (encode_fetch f)" "appends (encode_rollback r)"
  unfolding encode_create_start_def encode_create_end_def encode_exercise_start_def encode_exercise_middle_def
    encode_exercise_end_def encode_fetch_def encode_rollback_def Let_def
  by (rule appendsI, (split if_split)?, (intro conjI impI)?; (rule encoder_frames hash_frame_refl)+)+

section \<open>The frame of a value\<close>

definition value_frame :: "parser_ctx \<Rightarrow> parser_ctx \<Rightarrow> bool" where
  "value_frame c c' \<longleftrightarrow>
     pc_node_id c' = pc_node_id c \<and> pc_is_root_node c' = pc_is_root_node c \<and>
     pc_is_input_contract c' = pc_is_input_contract c \<and> pc_tree_children_claimed c' = pc_tree_children_claimed c \<and>
     pc_tree c' = pc_tree c \<and> pc_values c' = pc_values c \<and>
     prefix (hw (pc_hash c)) (hw (pc_hash c')) \<and>
     hashed_nodes_store (pc_hash c') = hashed_nodes_store (pc_hash c) \<and>
     hashed_nodes_store_count (pc_hash c') = hashed_nodes_store_count (pc_hash c) \<and>
     (err_code (pc_hash c') = HASH_OK \<longrightarrow> err_code (pc_hash c) = HASH_OK)"

lemma value_frame_hashing: "appends f \<Longrightarrow> value_frame c (hashing f c)"
  by (simp add: value_frame_def hashing_def appends_def)

lemma value_frame_count: "value_frame c (c\<lparr>pc_value_elem_count := n\<rparr>)"
  by (simp add: value_frame_def)

lemma value_frame_trans: "value_frame c d \<Longrightarrow> value_frame d e \<Longrightarrow> value_frame c e"
  by (auto simp: value_frame_def intro: prefix_order.trans)

interpretation vf: decode_rel value_frame
proof unfold_locales
  show "value_frame c c" for c
    using value_frame_count [of c "pc_value_elem_count c"] by simp
qed (rule value_frame_trans)

lemma value_frame_pieces:
  assumes "\<And>x. appends (f x)"
  shows "value_frame c (fold (\<lambda>x. hashing (f x)) xs c)"
proof (induction xs arbitrary: c)
  case (Cons x xs)
  show ?case using vf.trans [OF value_frame_hashing [OF assms] Cons] by simp
qed (simp add: vf.refl)

lemma counting_keeps: "keeps value_frame (counting helper q)"
  by (auto simp: counting_def keeps_def intro: value_frame_count)

lemma primitive_frame: "value_frame c (decode_value_primitive_variants v c)"
  by (cases v) (auto intro!: value_frame_hashing vf.refl appends_comp [OF appends_put appends_put_byte]
      appends_comp [OF appends_hex appends_put_byte] appends_comp [OF appends_int(1) appends_put_byte]
      appends_comp [OF appends_int(2) appends_put_byte] appends_comp [OF appends_int(3) appends_put_byte])

lemma label_keeps:
  "keeps value_frame (decode_record_field_label p)" "keeps value_frame (decode_variant_constructor p)"
  "keeps value_frame (decode_textmap_key p)"
  by (auto simp: keeps_def decode_record_field_label_def decode_variant_constructor_def decode_textmap_key_def
      intro!: value_frame_pieces appends_comp [OF appends_put appends_put_byte])

lemma identifier_keeps: "keeps value_frame (decode_identifier p)"
  by (auto simp: keeps_def decode_identifier_def intro: value_frame_hashing)

lemma enum_keeps: "keeps value_frame (decode_enum p)"
  by (auto simp: keeps_def decode_enum_def intro!: vf.trans [OF value_frame_hashing value_frame_hashing]
      vf.trans [OF value_frame_hashing vf.trans [OF value_frame_hashing value_frame_hashing]])

lemma record_id_keeps: "keeps value_frame (decode_record_id p)"
proof (rule keepsI)
  fix c c'
  assume "decode_record_id p c = Some c'"
  then obtain d where d: "decode_identifier p (hashing (hw_put_byte 0x01) c) = Some d"
    and c': "c' = (if pc_value_elem_count d \<noteq> VALUE_ELEM_COUNT_NONE
      then (hashing (encode_int32 (pc_value_elem_count d)) d)\<lparr>pc_value_elem_count := VALUE_ELEM_COUNT_NONE\<rparr> else d)"
    by (auto simp: decode_record_id_def)
  have "value_frame c d"
    by (rule vf.trans [OF value_frame_hashing [OF appends_put_byte] keepsD [OF identifier_keeps d]])
  moreover have "value_frame d c'"
    unfolding c' by (auto intro: vf.refl vf.trans [OF value_frame_hashing [OF appends_int(1)] value_frame_count])
  ultimately show "value_frame c c'" by (rule vf.trans)
qed

lemma put_frames: "value_frame c (put_count c)" "value_frame c (put_presence c)"
  by (auto simp: put_count_def put_presence_def intro!: vf.trans [OF value_frame_hashing value_frame_count])

text \<open>The four callbacks that go one level deeper, for any decode of the level below that keeps the
  frame.\<close>

definition room_keeps :: "comp_fun option \<Rightarrow> bool" where
  "room_keeps room \<longleftrightarrow> (\<forall>sub t p. room = Some sub \<longrightarrow> keeps value_frame (sub t p))"

lemma counted_then:
  assumes "counting helper q c = Some c1" "keeps2 value_frame D" "D (m, c1) = Some (m', c2)"
  shows "value_frame c (decode_value_primitive_variants v c2)"
  by (rule vf.trans [OF keepsD [OF counting_keeps assms(1)] vf.trans [OF keeps2D [OF assms(2,3)] primitive_frame]])

lemma hash_value_keeps:
  assumes "\<And>t p. keeps value_frame (sub t p)"
  shows "keeps value_frame (hash_value sub q)"
  by (rule keepsI) (auto simp: hash_value_def split: option.splits
      intro: counted_then [OF _ vf.decode_cbValue_keeps2 [OF assms]])

lemma room_value_keeps:
  assumes "room_keeps room"
  shows "keeps value_frame (decode_value room q)" "keeps value_frame (decode_list_elem room q)"
  unfolding decode_value_def decode_list_elem_def
  by (rule keepsI; use assms in \<open>auto simp: room_keeps_def split: option.splits intro: keepsD [OF hash_value_keeps]\<close>)+

lemma labelled_keeps:
  assumes "room_keeps room"
  shows "keeps value_frame (decode_record_field room q)" "keeps value_frame (decode_text_map_entry room q)"
proof -
  have label: "keeps2 value_frame (pb_decode (labelled_value_field decode_record_field_label sub) q)"
    "keeps2 value_frame (pb_decode (labelled_value_field decode_textmap_key sub) q)" if "room = Some sub" for sub
    using assms that by (auto simp: room_keeps_def intro!: vf.pb_decode_keeps2 vf.labelled_value_field_keeps2 label_keeps)
  show "keeps value_frame (decode_record_field room q)"
    by (rule keepsI) (auto simp: decode_record_field_def split: option.splits intro: counted_then [OF _ label(1)])
  show "keeps value_frame (decode_text_map_entry room q)"
    by (rule keepsI) (auto simp: decode_text_map_entry_def split: option.splits intro: counted_then [OF _ label(2)])
qed

lemma gen_map_keeps:
  assumes "room_keeps room"
  shows "keeps value_frame (decode_gen_map_entry room q)"
proof (rule keepsI)
  fix c c'
  assume "decode_gen_map_entry room q c = Some c'"
  then obtain sub c1 k x c2 y v c3 where room: "room = Some sub"
    and c1: "counting count_gen_map_helper q c = Some c1"
    and c2: "pb_decode (gen_map_entry_field sub comp_null) q ((V_none, V_none), c1) = Some ((k, x), c2)"
    and c3: "pb_decode (gen_map_entry_field comp_null sub) q ((V_none, V_none), decode_value_primitive_variants k c2) =
       Some ((y, v), c3)"
    and c': "c' = decode_value_primitive_variants v c3"
    by (auto simp: decode_gen_map_entry_def split: option.splits prod.splits)
  have "keeps2 value_frame (pb_decode (gen_map_entry_field sub comp_null) q)"
    "keeps2 value_frame (pb_decode (gen_map_entry_field comp_null sub) q)"
    using assms room by (auto simp: room_keeps_def intro!: vf.pb_decode_keeps2 vf.gen_map_entry_field_keeps2 vf.comp_null_keeps)
  from counted_then [OF c1 this(1) c2] keeps2D [OF this(2) c3] primitive_frame show "value_frame c c'"
    unfolding c' by (blast intro: vf.trans)
qed

lemma variant_keeps:
  assumes "room_keeps room"
  shows "keeps value_frame (decode_value_variant room t p)"
proof -
  note field = room_value_keeps [OF assms] labelled_keeps [OF assms] gen_map_keeps [OF assms]
    record_id_keeps identifier_keeps label_keeps
  have handler: "keeps value_frame (\<lambda>c. if b then run_callback f w c else g c)"
    if "\<And>q. keeps value_frame (f q)" "keeps value_frame g" for b f w g
    using keepsD [OF vf.run_callback_keeps [OF that(1)]] keepsD [OF that(2)] by (auto simp: keeps_def)
  have some: "keeps value_frame Some" by (simp add: keeps_def vf.refl)
  have decode: "value_frame c c'" if "value_frame c d" "pb_decode f p d = Some c'" "\<And>fw. keeps value_frame (f fw)" for c d c' f
    using that by (blast intro: vf.trans keepsD [OF vf.pb_decode_keeps])
  note start = value_frame_hashing [OF appends_put_byte] vf.trans [OF value_frame_hashing [OF appends_put_byte] put_frames(1)]
    vf.trans [OF value_frame_hashing [OF appends_put_byte] put_frames(2)]
  show ?thesis
  proof (rule keepsI)
    fix c c'
    assume "decode_value_variant room t p c = Some c'"
    then show "value_frame c c'"
      unfolding decode_value_variant_def Let_def
      by (auto split: if_splits intro!: start handler some field elim!: decode [rotated]
          dest: keepsD [OF vf.comp_null_keeps] vf.trans [OF start(1) keepsD [OF enum_keeps]])
  qed
qed

lemma hash_comp_keeps: "keeps value_frame (hash_comp n t p)"
  by (induction n arbitrary: t p) (auto intro!: variant_keeps simp: room_keeps_def)

lemma decode_value_field_keeps: "keeps value_frame (decode_value_field env q)"
  unfolding decode_value_field_def [abs_def] by (rule hash_value_keeps) (rule hash_comp_keeps)

end
