(* ===== verification/Stack_Budget.thy ===== *)
theory Stack_Budget
  imports Hash_Frames
begin

text \<open>
  The stack budget. \<^verbatim>\<open>stack_has_room\<close> refuses a value that is nested too deep for the stack that
  is left, and the model counts the levels that fit. Here: the budget never changes what is hashed,
  only whether the part is accepted, and a message can never need more levels than it has bytes.
\<close>

section \<open>More room\<close>

definition room_extends :: "comp_fun option \<Rightarrow> comp_fun option \<Rightarrow> bool" where
  "room_extends r r' \<longleftrightarrow>
     (case r of None \<Rightarrow> True
      | Some f \<Rightarrow> (case r' of None \<Rightarrow> False | Some g \<Rightarrow> \<forall>t p. extends (f t p) (g t p)))"

lemma room_extends_cases:
  assumes "room_extends r r'"
  obtains "r = None" | f g where "r = Some f" "r' = Some g" "\<And>t p. extends (f t p) (g t p)"
  using assms by (auto simp: room_extends_def split: option.splits)

lemma never_extends [simp]: "extends (\<lambda>_. None) g"
  by (simp add: extends_def)

lemma hash_value_extends:
  assumes "\<And>t p. extends (f t p) (g t p)"
  shows "extends (hash_value f q) (hash_value g q)"
  by (rule extendsI) (auto simp: hash_value_def split: option.splits dest: extendsD [OF decode_cbValue_extends [OF assms]])

lemma value_extends:
  assumes "room_extends r r'"
  shows "extends (decode_value r q) (decode_value r' q)" "extends (decode_list_elem r q) (decode_list_elem r' q)"
  using assms
  by (cases rule: room_extends_cases;
      auto simp: decode_value_def [abs_def] decode_list_elem_def [abs_def] intro: hash_value_extends)+

lemma labelled_extends:
  assumes "room_extends r r'"
  shows "extends (decode_record_field r q) (decode_record_field r' q)"
    "extends (decode_text_map_entry r q) (decode_text_map_entry r' q)"
proof -
  show "extends (decode_record_field r q) (decode_record_field r' q)"
    using assms
  proof (cases rule: room_extends_cases)
    case (2 f g)
    show ?thesis
      by (rule extendsI) (auto simp: decode_record_field_def 2(1,2) split: option.splits
        dest: extendsD [OF labelled_value_extends [OF 2(3)]])
  qed (simp add: decode_record_field_def [abs_def])
  show "extends (decode_text_map_entry r q) (decode_text_map_entry r' q)"
    using assms
  proof (cases rule: room_extends_cases)
    case (2 f g)
    show ?thesis
      by (rule extendsI) (auto simp: decode_text_map_entry_def 2(1,2) split: option.splits
        dest: extendsD [OF labelled_value_extends [OF 2(3)]])
  qed (simp add: decode_text_map_entry_def [abs_def])
qed

lemma gen_map_extends:
  assumes "room_extends r r'"
  shows "extends (decode_gen_map_entry r q) (decode_gen_map_entry r' q)"
  using assms
proof (cases rule: room_extends_cases)
  case (2 f g)
  show ?thesis
    by (rule extendsI) (auto simp: decode_gen_map_entry_def 2(1,2) split: option.splits prod.splits
      dest!: extendsD [OF gen_map_entry_extends [OF 2(3) extends_refl]] extendsD [OF gen_map_entry_extends [OF extends_refl 2(3)]])
qed (simp add: decode_gen_map_entry_def [abs_def])

lemma variant_extends:
  assumes "room_extends r r'"
  shows "extends (decode_value_variant r t p) (decode_value_variant r' t p)"
proof -
  note callback = value_extends [OF assms] labelled_extends [OF assms] gen_map_extends [OF assms]
  have handler: "extends (\<lambda>c. if b then run_callback f w c else g c) (\<lambda>c. if b then run_callback f' w c else g' c)"
    if "\<And>q. extends (f q) (f' q)" "extends g g'" for b f f' w g g'
    using run_callback_extends [of f f'] that by (auto simp: extends_def)
  have decode: "pb_decode f' p c = Some c'"
    if "pb_decode f p c = Some c'" "\<And>fw. extends (f fw) (f' fw)" for f f' and c c' :: parser_ctx
    using that by (blast intro: extendsD [OF pb_decode_extends])
  show ?thesis
    by (rule extendsI)
       (auto simp: decode_value_variant_def Let_def split: if_splits intro!: handler callback elim!: decode)
qed

lemma hash_comp_extends: "n \<le> m \<Longrightarrow> extends (hash_comp n t p) (hash_comp m t p)"
proof (induction n arbitrary: m t p)
  case 0
  show ?case by (cases m) (auto intro: variant_extends simp: room_extends_def)
next
  case (Suc n)
  then obtain k where "m = Suc k" "n \<le> k" by (cases m) auto
  then show ?case using Suc.IH by (auto intro!: variant_extends simp: room_extends_def)
qed

section \<open>Nodes and contracts\<close>

abbreviation with_budget :: "parser_env \<Rightarrow> nat \<Rightarrow> parser_env" where
  "with_budget env n \<equiv> env\<lparr>pe_budget := n\<rparr>"

lemma decode_again_extends:
  assumes "\<And>q. extends (cb q) (cb' q)"
  shows "extends (decode_again field tag cb p) (decode_again field tag cb' p)"
  unfolding decode_again_def [abs_def]
  by (rule pb_decode_extends, rule extendsI)
     (auto split: if_splits dest: extendsD [OF run_callback_extends [of cb cb', OF assms]])

lemma value_field_extends:
  "pe_budget env \<le> n \<Longrightarrow> extends (decode_value_field env q) (decode_value_field (with_budget env n) q)"
  unfolding decode_value_field_def [abs_def] by (auto intro: hash_value_extends hash_comp_extends)

lemma node_extends:
  assumes "pe_budget env \<le> n"
  shows "extends (decode_create env p) (decode_create (with_budget env n) p)"
    "extends (decode_exercise env p) (decode_exercise (with_budget env n) p)"
    "extends (decode_fetch env p) (decode_fetch (with_budget env n) p)"
    "extends (node_decode_callback env fw) (node_decode_callback (with_budget env n) fw)"
proof -
  note again = extendsD [OF decode_again_extends [OF value_field_extends [OF assms]]]
  show c: "extends (decode_create env p) (decode_create (with_budget env n) p)" for p
    by (rule extendsI) (auto simp: decode_create_def Let_def split: option.splits if_splits dest!: again)
  show e: "extends (decode_exercise env p) (decode_exercise (with_budget env n) p)" for p
    by (rule extendsI) (auto simp: decode_exercise_def Let_def split: option.splits if_splits prod.splits dest!: again)
  show f: "extends (decode_fetch env p) (decode_fetch (with_budget env n) p)" for p
    by (rule extendsI) (auto simp: decode_fetch_def split: option.splits if_splits)
  show "extends (node_decode_callback env fw) (node_decode_callback (with_budget env n) fw)"
    by (rule extendsI) (auto simp: node_decode_callback_def split: if_splits wire.splits
        dest: extendsD [OF c] extendsD [OF e] extendsD [OF f])
qed

lemma node_message_extends:
  assumes "pe_budget env \<le> n"
  shows "extends (pb_decode (node_message_field env) buf) (pb_decode (node_message_field (with_budget env n)) buf)"
proof (rule pb_decode_extends, rule extendsI)
  fix fw c c'
  have id: "decode_node_id_field (with_budget env n) = decode_node_id_field env"
    by (simp add: fun_eq_iff decode_node_id_field_def)
  assume "node_message_field env fw c = Some c'"
  then show "node_message_field (with_budget env n) fw c = Some c'"
    by (auto simp: node_message_field_def id split: if_splits wire.splits
        dest: extendsD [OF pb_decode_extends [OF node_extends(4) [OF assms]]])
qed

section \<open>Enough room\<close>

text \<open>Every payload is shorter than the message around it, so a decode calls its callbacks on shorter and
  shorter payloads.\<close>

fun wire_bytes :: "wire \<Rightarrow> byte list" where
  "wire_bytes (WVarint v) = v"
| "wire_bytes (W64 v) = v"
| "wire_bytes (WLen v) = v"
| "wire_bytes (W32 v) = v"

lemma pb_raw_varint_split: "pb_raw_varint bs = Some (v, r) \<Longrightarrow> bs = v @ r"
  by (induction bs arbitrary: v) (auto split: if_splits)

lemma pb_wire_length: "pb_wire t bs = Some (w, r) \<Longrightarrow> length (wire_bytes w) + length r \<le> length bs"
  by (auto simp: pb_wire_def pb_read_def pb_string_payload_def split: if_splits option.splits
      dest!: pb_raw_varint_split pb_decode_varint32_rest)

lemma pb_next_field_length: "pb_next_field bs = Some ((t, w), r) \<Longrightarrow> length (wire_bytes w) + length r < length bs"
  by (auto simp: pb_next_field_def pb_decode_tag_def split: option.splits if_splits
      dest!: pb_decode_varint32_rest pb_wire_length)

lemma pb_fields_length: "pb_fields bs = Some fs \<Longrightarrow> (t, w) \<in> set fs \<Longrightarrow> length (wire_bytes w) < length bs"
proof (induction bs arbitrary: fs rule: pb_fields.induct)
  case (1 bs)
  show ?case
  proof (cases "bs = []")
    case True
    with "1.prems" show ?thesis by (simp add: pb_fields.simps)
  next
    case False
    then obtain u x r gs where f: "pb_next_field bs = Some ((u, x), r)" "pb_fields r = Some gs" "fs = (u, x) # gs"
      using "1.prems" by (subst (asm) pb_fields.simps) (auto split: option.splits)
    with "1.IH" [OF False] "1.prems" pb_next_field_length [OF f(1)] show ?thesis
      by fastforce
  qed
qed

lemma pb_decode_shorter:
  assumes "\<And>t w. length (wire_bytes w) < length bs \<Longrightarrow> f (t, w) = g (t, w)"
  shows "pb_decode f bs = pb_decode g bs"
proof -
  have "fold_opt f fs s = fold_opt g fs s" if "\<And>fw. fw \<in> set fs \<Longrightarrow> f fw = g fw" for fs s
    using that by (induction fs arbitrary: s) (auto split: option.splits)
  moreover have "f fw = g fw" if "pb_fields bs = Some fs" "fw \<in> set fs" for fs fw
    using that assms pb_fields_length by (cases fw) blast
  ultimately show ?thesis by (auto simp: pb_decode_def fun_eq_iff split: option.splits)
qed

lemma run_callback_shorter:
  assumes "\<And>p. length p \<le> length (wire_bytes w) \<Longrightarrow> f p = g p"
  shows "run_callback f w = run_callback g w"
proof -
  have "f p = g p" if "pb_callback_payload w = Some p" for p
    using that assms by (cases w) (auto simp: pb_callback_payload_def split: if_splits)
  then show ?thesis by (auto simp: run_callback_def fun_eq_iff split: option.splits)
qed

lemma decode_cbValue_shorter:
  assumes "\<And>t p. length p < length bs \<Longrightarrow> f t p = g t p"
  shows "decode_cbValue f bs = decode_cbValue g bs"
  unfolding decode_cbValue_def [abs_def]
  by (rule pb_decode_shorter) (auto simp: value_field_def Let_def fun_eq_iff assms split: wire.splits)

lemma labelled_shorter:
  assumes "\<And>t p. length p < length bs \<Longrightarrow> f t p = g t p"
  shows "pb_decode (labelled_value_field label f) bs = pb_decode (labelled_value_field label g) bs"
proof (rule pb_decode_shorter)
  fix t w
  assume "length (wire_bytes w) < length bs"
  then have "decode_cbValue f (wire_bytes w) = decode_cbValue g (wire_bytes w)"
    by (intro decode_cbValue_shorter assms) simp
  then show "labelled_value_field label f (t, w) = labelled_value_field label g (t, w)"
    by (cases w) (auto simp: labelled_value_field_def fun_eq_iff)
qed

lemma gen_map_shorter:
  assumes "\<And>t p. length p < length bs \<Longrightarrow> f t p = f' t p" "\<And>t p. length p < length bs \<Longrightarrow> g t p = g' t p"
  shows "pb_decode (gen_map_entry_field f g) bs = pb_decode (gen_map_entry_field f' g') bs"
proof (rule pb_decode_shorter)
  fix t w
  assume "length (wire_bytes w) < length bs"
  then have "decode_cbValue f (wire_bytes w) = decode_cbValue f' (wire_bytes w)"
    "decode_cbValue g (wire_bytes w) = decode_cbValue g' (wire_bytes w)"
    by (intro decode_cbValue_shorter assms; simp)+
  then show "gen_map_entry_field f g (t, w) = gen_map_entry_field f' g' (t, w)"
    by (cases w) (auto simp: gen_map_entry_field_def Let_def fun_eq_iff)
qed

text \<open>Two decodes of the level below that agree on payloads up to a length.\<close>

definition agree :: "nat \<Rightarrow> comp_fun \<Rightarrow> comp_fun \<Rightarrow> bool" where
  "agree n f g \<longleftrightarrow> (\<forall>t p. length p < n \<longrightarrow> f t p = g t p)"

lemma callbacks_agree:
  assumes "agree (length q) f g"
  shows "decode_value (Some f) q = decode_value (Some g) q" "decode_list_elem (Some f) q = decode_list_elem (Some g) q"
    "decode_record_field (Some f) q = decode_record_field (Some g) q"
    "decode_text_map_entry (Some f) q = decode_text_map_entry (Some g) q"
    "decode_gen_map_entry (Some f) q = decode_gen_map_entry (Some g) q"
proof -
  have sub: "f t p = g t p" if "length p < length q" for t p
    using assms that by (simp add: agree_def)
  have same: "decode_cbValue f q = decode_cbValue g q"
    "pb_decode (labelled_value_field label f) q = pb_decode (labelled_value_field label g) q"
    "pb_decode (gen_map_entry_field f comp_null) q = pb_decode (gen_map_entry_field g comp_null) q"
    "pb_decode (gen_map_entry_field comp_null f) q = pb_decode (gen_map_entry_field comp_null g) q" for label
    by (intro decode_cbValue_shorter labelled_shorter gen_map_shorter refl sub; assumption)+
  show "decode_value (Some f) q = decode_value (Some g) q" "decode_list_elem (Some f) q = decode_list_elem (Some g) q"
    "decode_record_field (Some f) q = decode_record_field (Some g) q"
    "decode_text_map_entry (Some f) q = decode_text_map_entry (Some g) q"
    "decode_gen_map_entry (Some f) q = decode_gen_map_entry (Some g) q"
    by (simp_all add: fun_eq_iff decode_value_def decode_list_elem_def hash_value_def decode_record_field_def
        decode_text_map_entry_def decode_gen_map_entry_def same split: option.split)
qed

lemma variant_agree:
  assumes "agree (length p) f g"
  shows "decode_value_variant (Some f) t p = decode_value_variant (Some g) t p"
proof -
  have cb: "run_callback (F (Some f)) w = run_callback (F (Some g)) w"
    if "length (wire_bytes w) < length p" "\<And>q. agree (length q) f g \<Longrightarrow> F (Some f) q = F (Some g) q"
    for w and F :: "comp_fun option \<Rightarrow> byte list \<Rightarrow> parser_ctx \<Rightarrow> parser_ctx option"
  proof (rule run_callback_shorter, rule that(2))
    show "agree (length q) f g" if "length q \<le> length (wire_bytes w)" for q
      using assms that \<open>length (wire_bytes w) < length p\<close> by (auto simp: agree_def)
  qed
  note all = cb [of _ decode_value, OF _ callbacks_agree(1)] cb [of _ decode_list_elem, OF _ callbacks_agree(2)]
    cb [of _ decode_record_field, OF _ callbacks_agree(3)] cb [of _ decode_text_map_entry, OF _ callbacks_agree(4)]
    cb [of _ decode_gen_map_entry, OF _ callbacks_agree(5)]
  show ?thesis
    unfolding decode_value_variant_def fun_eq_iff Let_def
    by (intro allI if_cong refl pb_decode_shorter [THEN fun_cong]) (auto simp: fun_eq_iff all)
qed

lemma hash_comp_enough: "length p \<le> n \<Longrightarrow> length p \<le> m \<Longrightarrow> hash_comp n t p = hash_comp m t p"
proof (induction n arbitrary: m t p)
  case 0
  have "decode_value_variant None t [] = decode_value_variant (Some f) t []" for f
    by (simp add: decode_value_variant_def fun_eq_iff pb_decode_def pb_fields.simps Let_def)
  with 0 show ?case by (cases m) simp_all
next
  case (Suc n)
  show ?case
  proof (cases m)
    case 0
    then have "p = []" using Suc.prems by simp
    then show ?thesis using 0
      by (simp add: decode_value_variant_def fun_eq_iff pb_decode_def pb_fields.simps Let_def)
  next
    case (Suc k)
    then have "agree (length p) (hash_comp n) (hash_comp k)"
      using Suc.IH Suc.prems by (auto simp: agree_def)
    then show ?thesis using Suc variant_agree by simp
  qed
qed

lemma value_field_enough:
  assumes "length q \<le> n" "length q \<le> m"
  shows "decode_value_field (with_budget env n) q = decode_value_field (with_budget env m) q"
proof -
  have "decode_cbValue (hash_comp n) q = decode_cbValue (hash_comp m) q"
    using assms by (intro decode_cbValue_shorter hash_comp_enough) auto
  then show ?thesis by (auto simp: decode_value_field_def hash_value_def fun_eq_iff split: option.split)
qed

lemma decode_again_enough:
  assumes "length p \<le> n" "length p \<le> m"
  shows "decode_again field tag (decode_value_field (with_budget env n)) p =
    decode_again field tag (decode_value_field (with_budget env m)) p"
  unfolding decode_again_def [abs_def]
proof (rule pb_decode_shorter)
  fix t w
  assume "length (wire_bytes w) < length p"
  then have "run_callback (decode_value_field (with_budget env n)) w = run_callback (decode_value_field (with_budget env m)) w"
    using assms by (intro run_callback_shorter value_field_enough) auto
  then show "(\<lambda>(mm, c). if fst (t, w) = tag
        then map_option (\<lambda>c'. (mm, c')) (run_callback (decode_value_field (with_budget env n)) (snd (t, w)) c)
        else map_option (\<lambda>m'. (m', c)) (field (t, w) mm)) =
      (\<lambda>(mm, c). if fst (t, w) = tag
        then map_option (\<lambda>c'. (mm, c')) (run_callback (decode_value_field (with_budget env m)) (snd (t, w)) c)
        else map_option (\<lambda>m'. (m', c)) (field (t, w) mm))"
    by (auto simp: fun_eq_iff)
qed

lemma node_enough:
  assumes "length p \<le> n" "length p \<le> m"
  shows "decode_create (with_budget env n) p = decode_create (with_budget env m) p"
    "decode_exercise (with_budget env n) p = decode_exercise (with_budget env m) p"
    "decode_fetch (with_budget env n) p = decode_fetch (with_budget env m) p"
  by (auto simp: fun_eq_iff decode_create_def decode_exercise_def decode_fetch_def Let_def decode_again_enough [OF assms]
      split: option.split)

lemma node_message_enough:
  assumes "length buf \<le> n" "length buf \<le> m"
  shows "pb_decode (node_message_field (with_budget env n)) buf = pb_decode (node_message_field (with_budget env m)) buf"
proof (rule pb_decode_shorter)
  fix t w
  assume outer: "length (wire_bytes w) < length buf"
  have "pb_decode (node_decode_callback (with_budget env n)) (wire_bytes w) =
      pb_decode (node_decode_callback (with_budget env m)) (wire_bytes w)"
  proof (rule pb_decode_shorter)
    fix u v
    assume "length (wire_bytes v) < length (wire_bytes w)"
    then have "length (wire_bytes v) \<le> n" "length (wire_bytes v) \<le> m" using outer assms by simp_all
    note same = node_enough [OF this]
    show "node_decode_callback (with_budget env n) (u, v) = node_decode_callback (with_budget env m) (u, v)"
      using same by (cases v) (auto simp: node_decode_callback_def fun_eq_iff)
  qed
  moreover have "decode_node_id_field (with_budget env n) = decode_node_id_field (with_budget env m)"
    by (simp add: fun_eq_iff decode_node_id_field_def)
  ultimately show "node_message_field (with_budget env n) (t, w) = node_message_field (with_budget env m) (t, w)"
    by (intro ext, cases w) (auto simp: node_message_field_def)
qed

section \<open>Properties\<close>

text \<open>A sample node part: node 1, a rollback without children, sent by the host as eight bytes.\<close>

definition sample_leaf :: "byte list" where
  "sample_leaf = [0x0A, 1, 0x31, 0xC2, 0x3E, 2, 0x22, 0]"

definition sample_parser_env :: parser_env where
  "sample_parser_env = \<lparr>pe_sha = (\<lambda>m. m), pe_tx = DamlTransaction_init_zero, pe_mem_ok = True, pe_budget = 0\<rparr>"

lemma sample_leaf_accepted:
  "\<exists>r. proto_deserialize_node sample_parser_env sample_leaf (empty_hash_ctx, tree_check_reset, values_check_reset) = Some r"
proof -
  have "(case proto_deserialize_node sample_parser_env sample_leaf (empty_hash_ctx, tree_check_reset, values_check_reset) of
      None \<Rightarrow> False | Some _ \<Rightarrow> True)"
    by code_simp
  then show ?thesis by (metis option.exhaust option.simps(4))
qed

text \<open>C19. The stack never decides what is signed. If a node part is accepted when the stack has room for
  some number of nested values, then with any larger stack it is accepted with the same hash state, the
  same node tree and the same values; only refusals can depend on the stack.\<close>

theorem more_stack_same_result:
  assumes "pe_budget env \<le> n" "proto_deserialize_node env buf st = Some r"
  shows "proto_deserialize_node (with_budget env n) buf st = Some r"
  using assms by (auto simp: proto_deserialize_node_def Let_def split: prod.splits option.splits
      dest: extendsD [OF node_message_extends])

theorem more_stack_same_result_witness:
  "\<exists>r. proto_deserialize_node (with_budget sample_parser_env 5) sample_leaf (empty_hash_ctx, tree_check_reset, values_check_reset) = Some r"
  using sample_leaf_accepted more_stack_same_result [of sample_parser_env 5 sample_leaf]
  by (auto simp: sample_parser_env_def)

text \<open>C18. Hashing a node part ends, and no message can exhaust an ample stack: a part of \<open>n\<close> bytes never
  nests deeper than \<open>n\<close> levels, so every two budgets of at least the length of the part give the same
  result, refusals included.\<close>

theorem stack_budget_enough:
  assumes "length buf \<le> n" "length buf \<le> m"
  shows "proto_deserialize_node (with_budget env n) buf st = proto_deserialize_node (with_budget env m) buf st"
  by (simp add: proto_deserialize_node_def node_message_enough [OF assms] split: prod.split option.split)

theorem stack_budget_enough_witness:
  "proto_deserialize_node (with_budget sample_parser_env 8) sample_leaf (empty_hash_ctx, tree_check_reset, values_check_reset) =
   proto_deserialize_node (with_budget sample_parser_env 100) sample_leaf (empty_hash_ctx, tree_check_reset, values_check_reset)"
  by (rule stack_budget_enough) (simp_all add: sample_leaf_def)

end
