(* ===== verification/Node_Stream.thy ===== *)
theory Node_Stream
  imports Stack_Budget Prepared_Safety
begin

text \<open>
  The nodes of a prepared transaction, from the bytes of the parts to the tree. A node part is read by
  the hashing parser, which tells the tree check the node's id and children and looks the hashes of the
  children up in the node hash store. Here the three are put together: what one accepted part does to
  the tree check and to the store, and what a whole accepted sequence of parts amounts to.
\<close>

section \<open>What a part declares\<close>

text \<open>The children of one member of the node oneof, the children lists of a part in the order of the
  message, and its node ids (the last one counts).\<close>

definition member_children :: "nat \<times> wire \<Rightarrow> string list list" where
  "member_children fw =
     (case fw of
        (t, WLen p) \<Rightarrow>
          if t = 3 then (case decode_Exercise p Node_Exercise_init_zero of None \<Rightarrow> [] | Some e \<Rightarrow> [ex_children e])
          else if t = 4 then (case decode_Rollback p \<lparr>ro_children = []\<rparr> of None \<Rightarrow> [] | Some r \<Rightarrow> [ro_children r])
          else []
      | _ \<Rightarrow> [])"

definition field_children :: "nat \<times> wire \<Rightarrow> string list list" where
  "field_children fw =
     (case fw of
        (t, WLen p) \<Rightarrow>
          if t = 1000 then (case pb_fields p of None \<Rightarrow> [] | Some fs \<Rightarrow> concat (map member_children fs)) else []
      | _ \<Rightarrow> [])"

definition field_ids :: "nat \<times> wire \<Rightarrow> int list" where
  "field_ids fw =
     (if fst fw = 1 then (case pb_callback_payload (snd fw) of None \<Rightarrow> [] | Some p \<Rightarrow> [atoint (cstr p)]) else [])"

definition part_fields :: "byte list \<Rightarrow> (nat \<times> wire) list" where
  "part_fields buf = (case pb_fields buf of None \<Rightarrow> [] | Some fs \<Rightarrow> fs)"

definition node_part :: "byte list \<Rightarrow> int \<times> string list" where
  "node_part buf =
     (last (-1 # concat (map field_ids (part_fields buf))),
      case concat (map field_children (part_fields buf)) of [] \<Rightarrow> [] | cs # _ \<Rightarrow> cs)"

section \<open>One part\<close>

text \<open>A step of the parser that reads the ids \<^verbatim>\<open>ids\<close> and the children lists \<^verbatim>\<open>cl\<close>: the first list is
  claimed, and without a hash error every child of every list is in the store.\<close>

definition node_step :: "int list \<Rightarrow> string list list \<Rightarrow> parser_ctx \<Rightarrow> parser_ctx \<Rightarrow> bool" where
  "node_step ids cl c c' \<longleftrightarrow>
     pc_node_id c' = last (pc_node_id c # ids) \<and>
     pc_tree_children_claimed c' = (pc_tree_children_claimed c \<or> cl \<noteq> []) \<and>
     (if pc_tree_children_claimed c \<or> cl = [] then pc_tree c' = pc_tree c
      else \<exists>pid. pc_tree c' = tree_claim_children pid (hd cl) (pc_tree c)) \<and>
     hashed_nodes_store (pc_hash c') = hashed_nodes_store (pc_hash c) \<and>
     hashed_nodes_store_count (pc_hash c') = hashed_nodes_store_count (pc_hash c) \<and>
     (err_code (pc_hash c') = HASH_OK \<longrightarrow> err_code (pc_hash c) = HASH_OK \<and>
        (\<forall>cs \<in> set cl. \<forall>x \<in> set cs. get_node_hash (Some x) (pc_hash c) \<noteq> None))"

lemma get_node_hash_store:
  "hashed_nodes_store h = hashed_nodes_store h' \<Longrightarrow> get_node_hash x h = get_node_hash x h'"
  by (simp add: get_node_hash_def split: option.split)

lemma node_step_refl: "node_step [] [] c c"
  by (simp add: node_step_def)

lemma node_step_trans:
  assumes "node_step ids cl c d" "node_step ids' cl' d e"
  shows "node_step (ids @ ids') (cl @ cl') c e"
  using assms get_node_hash_store [of "pc_hash d" "pc_hash c"]
  unfolding node_step_def by (auto simp: last_append split: if_splits)

lemma node_step_frame: "value_frame c c' \<Longrightarrow> node_step [] [] c c'"
  by (simp add: node_step_def value_frame_def)

lemma fold_opt_node_step:
  assumes "\<And>x c c'. f x c = Some c' \<Longrightarrow> node_step (ids x) (cl x) c c'" "fold_opt f xs c = Some c'"
  shows "node_step (concat (map ids xs)) (concat (map cl xs)) c c'"
  using assms(2)
  by (induction xs arbitrary: c)
     (auto simp: node_step_refl split: option.splits dest: assms(1) intro: node_step_trans)

text \<open>The decode of a message again, with one callback set, fills the same struct.\<close>

lemma decode_again_struct:
  assumes "pb_decode field p m = Some m1" "decode_again field tag cb p (m, c) = Some (m2, c2)"
    "\<And>w m m'. field (tag, w) m = Some m' \<Longrightarrow> m' = m"
  shows "m2 = m1"
proof -
  let ?f = "\<lambda>fw (m, c). if fst fw = tag then map_option (\<lambda>c'. (m, c')) (run_callback cb (snd fw) c)
       else map_option (\<lambda>m'. (m', c)) (field fw m)"
  have "fold_opt field fs m = Some m1 \<Longrightarrow> fold_opt ?f fs (m, c) = Some (m2, c2) \<Longrightarrow> m2 = m1" for fs m c
  proof (induction fs arbitrary: m c)
    case (Cons fw fs)
    then show ?case
      by (cases fw) (auto split: option.splits if_splits dest: assms(3))
  qed simp
  with assms(1,2) show ?thesis
    by (auto simp: pb_decode_def decode_again_def split: option.splits)
qed

lemma decode_again_frame:
  assumes "decode_again field tag cb p (m, c) = Some (m', c')" "\<And>q. keeps value_frame (cb q)"
  shows "value_frame c c'"
proof -
  have "keeps2 value_frame (decode_again field tag cb p)"
    unfolding decode_again_def [abs_def]
    by (rule vf.pb_decode_keeps2, rule keeps2I)
       (auto split: if_splits intro: vf.refl dest: keepsD [OF vf.run_callback_keeps [OF assms(2)]])
  then show ?thesis using assms(1) by (rule keeps2D)
qed

lemma with_values_step: "node_step [] [] c (with_values f c)"
  by (simp add: node_step_def with_values_def)

lemma claim_then:
  assumes "value_frame (claim_once cs c) d"
    "err_code (pc_hash d) = HASH_OK \<Longrightarrow> \<forall>x \<in> set cs. get_node_hash (Some x) (pc_hash d) \<noteq> None"
  shows "node_step [] [cs] c d"
proof -
  have "hashed_nodes_store (pc_hash d) = hashed_nodes_store (pc_hash c)"
    using assms(1) by (simp add: value_frame_def claim_once_def split: if_splits)
  then have found: "get_node_hash x (pc_hash d) = get_node_hash x (pc_hash c)" for x
    by (rule get_node_hash_store)
  show ?thesis
    using assms unfolding found node_step_def value_frame_def
    by (cases "pc_tree_children_claimed c") (simp_all add: claim_once_def, blast)
qed

lemma appends_lookup: "appends f \<Longrightarrow> get_node_hash x (f h) = get_node_hash x h"
  by (intro get_node_hash_store) (simp add: appends_def)

lemma children_found:
  "err_code (encode_exercise_end e h) = HASH_OK \<Longrightarrow> x \<in> set (ex_children e) \<Longrightarrow> get_node_hash (Some x) (encode_exercise_end e h) \<noteq> None"
  "err_code (encode_rollback r h) = HASH_OK \<Longrightarrow> y \<in> set (ro_children r) \<Longrightarrow> get_node_hash (Some y) (encode_rollback r h) \<noteq> None"
  unfolding appends_lookup [OF appends_nodes(5)] appends_lookup [OF appends_nodes(7)]
  by (auto simp: encode_exercise_end_def encode_rollback_def Let_def encode_repeated_node_ids_err set_hash_error_def
      list_all_iff hw_put_byte_def split: if_splits)

lemma exercise_step:
  assumes "decode_exercise env p c = Some c'"
  shows "node_step [] (member_children (3, WLen p)) c c'"
proof -
  obtain e where e: "decode_Exercise p Node_Exercise_init_zero = Some e"
    using assms by (auto simp: decode_exercise_def split: option.splits)
  define c1 where "c1 = with_values (values_record_used_contract (pe_sha env) (pe_mem_ok env) (ex_contract_id e)) c"
  obtain seed where seed: "find_seed (pe_tx env) (pc_node_id (claim_once (ex_children e) c1)) = Some (Some seed)"
    using assms e by (auto simp: decode_exercise_def Let_def c1_def split: option.splits if_splits)
  have rest: "(case decode_again Exercise_field 10 (decode_value_field env) p
          (Node_Exercise_init_zero, hashing (encode_exercise_start e (Some seed)) (claim_once (ex_children e) c1)) of
        None \<Rightarrow> None
      | Some (e2, c3) \<Rightarrow> map_option (\<lambda>(e3, c5). hashing (encode_exercise_end e3) c5)
          (decode_again Exercise_field 13 (decode_value_field env) p
            (Node_Exercise_init_zero, hashing (\<lambda>h. hw_put_byte 0x01 (encode_exercise_middle e2 h)) c3))) = Some c'"
    using assms seed by (simp add: decode_exercise_def Let_def c1_def e split: if_splits)
  obtain e2 c3 where
    c3: "decode_again Exercise_field 10 (decode_value_field env) p
       (Node_Exercise_init_zero, hashing (encode_exercise_start e (Some seed)) (claim_once (ex_children e) c1)) = Some (e2, c3)"
    using rest by (metis (no_types, lifting) option.distinct(1) option.exhaust option.simps(4) surj_pair)
  obtain e3 c5 where
    c5: "decode_again Exercise_field 13 (decode_value_field env) p
       (Node_Exercise_init_zero, hashing (\<lambda>h. hw_put_byte 0x01 (encode_exercise_middle e2 h)) c3) = Some (e3, c5)"
    and c': "c' = hashing (encode_exercise_end e3) c5"
    using rest by (auto simp: c3)
  have "m' = m" if "Exercise_field (13, w) m = Some m'" for w m m'
    using that by (auto simp: Exercise_field_def pb_null_callback_def)
  with e c5 have e3: "e3 = e"
    unfolding decode_Exercise_def by (rule decode_again_struct)
  have "value_frame (claim_once (ex_children e) c1) c3"
    by (rule vf.trans [OF value_frame_hashing [OF appends_nodes(3)] decode_again_frame [OF c3 decode_value_field_keeps]])
  moreover have "value_frame c3 c5"
    by (rule vf.trans [OF value_frame_hashing [OF appends_comp [OF appends_put_byte appends_nodes(4)]]
          decode_again_frame [OF c5 decode_value_field_keeps]])
  moreover have "value_frame c5 c'"
    unfolding c' by (rule value_frame_hashing [OF appends_nodes(5)])
  ultimately have "node_step [] [ex_children e] c1 c'"
    by (intro claim_then) (auto intro: vf.trans simp: c' e3 hashing_def dest: children_found(1))
  with node_step_trans [OF with_values_step this [unfolded c1_def]] show ?thesis
    by (simp add: member_children_def e)
qed

lemma create_frame:
  assumes "decode_create env p c = Some c'"
  shows "node_step [] [] c c'"
proof -
  obtain cr f seed cr2 c3 where
    c3: "decode_again Create_field 5 (decode_value_field env) p
       (Node_Create_init_zero, hashing (encode_create_start cr seed) (with_values f c)) = Some (cr2, c3)"
    and c': "c' = hashing (encode_create_end cr2) c3"
    using assms by (auto simp: decode_create_def Let_def split: option.splits if_splits prod.splits)
  have "value_frame (with_values f c) c'"
    unfolding c'
    by (rule vf.trans [OF value_frame_hashing [OF appends_nodes(1)]
          vf.trans [OF decode_again_frame [OF c3 decode_value_field_keeps] value_frame_hashing [OF appends_nodes(2)]]])
  from node_step_trans [OF with_values_step node_step_frame [OF this]] show ?thesis by simp
qed

lemma fetch_frame:
  assumes "decode_fetch env p c = Some c'"
  shows "node_step [] [] c c'"
proof -
  obtain f g where "c' = hashing (encode_fetch g) (with_values f c)"
    using assms by (auto simp: decode_fetch_def split: option.splits if_splits)
  with node_step_trans [OF with_values_step node_step_frame [OF value_frame_hashing [OF appends_nodes(6)]]]
  show ?thesis by simp
qed

lemma rollback_step:
  assumes "decode_rollback p c = Some c'"
  shows "node_step [] (member_children (4, WLen p)) c c'"
proof -
  obtain r where r: "decode_Rollback p \<lparr>ro_children = []\<rparr> = Some r" "c' = hashing (encode_rollback r) (claim_once (ro_children r) c)"
    using assms by (auto simp: decode_rollback_def split: option.splits if_splits)
  have "node_step [] [ro_children r] c c'"
    unfolding r(2)
    by (rule claim_then [OF value_frame_hashing [OF appends_nodes(7)]]) (auto simp: hashing_def dest: children_found(2))
  then show ?thesis by (simp add: member_children_def r(1))
qed

lemma member_step:
  assumes "node_decode_callback env fw c = Some c'"
  shows "node_step [] (member_children fw) c c'"
proof -
  have other: "member_children (t, w) = []" if "t \<noteq> 3" "t \<noteq> 4" for t w
    using that by (simp add: member_children_def split: wire.split)
  show ?thesis
    using assms
    by (cases fw) (auto simp: node_decode_callback_def other node_step_refl split: if_splits wire.splits
        dest: exercise_step rollback_step create_frame fetch_frame)
qed

lemma field_step:
  assumes "node_message_field env fw c = Some c'"
  shows "node_step (field_ids fw) (field_children fw) c c'"
proof (cases "fst fw = 1000")
  case True
  then obtain p where fw: "fw = (1000, WLen p)" "pb_decode (node_decode_callback env) p c = Some c'"
    using assms by (cases fw) (auto simp: node_message_field_def split: wire.splits)
  then obtain fs where "pb_fields p = Some fs" "fold_opt (node_decode_callback env) fs c = Some c'"
    by (auto simp: pb_decode_def split: option.splits)
  moreover from this(2) have "node_step (concat (map (\<lambda>_. []) fs)) (concat (map member_children fs)) c c'"
    by (intro fold_opt_node_step [of "node_decode_callback env"] member_step)
  moreover have "concat (map (\<lambda>_. []) fs) = ([] :: int list)" by (induction fs) simp_all
  ultimately show ?thesis
    by (simp add: fw field_ids_def field_children_def)
next
  case False
  then have no_children: "field_children fw = []"
    by (cases fw) (simp add: field_children_def split: wire.split)
  from False assms show ?thesis
    by (auto simp: no_children node_message_field_def field_ids_def run_callback_def decode_node_id_field_def Let_def
        node_step_refl node_step_def split: if_splits option.splits)
qed

text \<open>What an accepted part does to the tree check and to the store.\<close>

lemma node_part_effect:
  assumes "proto_deserialize_node env buf (h, tree, vals) = Some (h', tree', vals')" "err_code h' = HASH_OK"
  shows "(\<exists>pid. tree' = tree_mark_seen (fst (node_part buf)) (tree_claim_children pid (snd (node_part buf)) tree)) \<and>
    (\<forall>x \<in> set (snd (node_part buf)). get_node_hash (Some x) h \<noteq> None) \<and>
    fst ` set (hashed_nodes_store h') \<subseteq> insert (fst (node_part buf)) (fst ` set (hashed_nodes_store h))"
proof -
  obtain c where c: "pb_decode (node_message_field env) buf (init_parser_ctx False h tree vals) = Some c"
    using assms(1) by (auto simp: proto_deserialize_node_def split: option.splits)
  then obtain fs where fs: "pb_fields buf = Some fs" "fold_opt (node_message_field env) fs (init_parser_ctx False h tree vals) = Some c"
    by (auto simp: pb_decode_def split: option.splits)
  define cl where "cl = concat (map field_children fs)"
  have step: "node_step (concat (map field_ids fs)) cl (init_parser_ctx False h tree vals) c"
    unfolding cl_def by (rule fold_opt_node_step [OF field_step fs(2)])
  have children: "snd (node_part buf) = (case cl of [] \<Rightarrow> [] | cs # _ \<Rightarrow> cs)"
    by (simp add: node_part_def part_fields_def fs(1) cl_def)
  have id: "pc_node_id c = fst (node_part buf)"
    using step by (simp add: node_step_def node_part_def part_fields_def fs(1) init_parser_ctx_def)
  have result: "h' = (if pc_is_root_node c then encode_hash (Some (hw_finalize (pe_sha env) (pc_hash c))) ((pc_hash c)\<lparr>hw := hw h\<rparr>)
      else set_node_hash (pc_node_id c) (hw_finalize (pe_sha env) (pc_hash c)) ((pc_hash c)\<lparr>hw := hw h\<rparr>))"
    "tree' = tree_mark_seen (pc_node_id c) (pc_tree c)"
    using assms(1) c by (auto simp: proto_deserialize_node_def Let_def)
  have err: "err_code (pc_hash c) = HASH_OK"
    using assms(2) by (simp add: result(1) set_node_hash_def split: if_splits)
  have store: "hashed_nodes_store (pc_hash c) = hashed_nodes_store h"
    using step by (simp add: node_step_def init_parser_ctx_def hw_init_def)
  have "fst ` set ((hashed_nodes_store h)[i := (a, b)]) \<subseteq> insert a (fst ` set (hashed_nodes_store h))" for i a b
    using image_mono [OF set_update_subset_insert [of "hashed_nodes_store h" i "(a, b)"], of fst] by simp
  then have "fst ` set (hashed_nodes_store h') \<subseteq> insert (pc_node_id c) (fst ` set (hashed_nodes_store h))"
    by (simp add: result(1) store set_node_hash_def encode_hash_def hw_put_def subset_insertI)
  moreover have "\<exists>pid. pc_tree c = tree_claim_children pid (snd (node_part buf)) tree"
    using step by (cases cl) (auto simp: node_step_def children init_parser_ctx_def)
  moreover have "\<forall>x \<in> set (snd (node_part buf)). get_node_hash (Some x) (hw_init h) \<noteq> None"
    using step err by (cases cl) (auto simp: node_step_def children init_parser_ctx_def)
  ultimately show ?thesis
    using get_node_hash_store [of "hw_init h" h] by (auto simp: id result(2) hw_init_def)
qed

section \<open>All parts\<close>

text \<open>The parent id only serves the test that a node is not its own child.\<close>

lemma claim_children_parent:
  "tree_err (tree_claim_children p cs c) = TREE_OK \<Longrightarrow> q \<notin> node_id_from_str ` set cs \<Longrightarrow>
   tree_claim_children q cs c = tree_claim_children p cs c"
  by (induction p cs c rule: tree_claim_children.induct) (auto simp: Let_def split: if_splits)

lemma found_child:
  assumes "get_node_hash (Some x) h \<noteq> None" "0 \<le> node_id_from_str x"
  shows "node_id_from_str x \<in> fst ` set (hashed_nodes_store h)"
proof -
  have "node_id_from_str x = atoint x"
    using assms(2) by (auto simp: node_id_from_str_def split: if_splits)
  moreover have "find (\<lambda>e. fst e = atoint x) (take MAX_NODE_CHILDREN (hashed_nodes_store h)) \<noteq> None"
    using assms(1) by (simp add: get_node_hash_def)
  then have "\<exists>e \<in> set (take MAX_NODE_CHILDREN (hashed_nodes_store h)). fst e = atoint x"
    unfolding find_None_iff by blast
  ultimately show ?thesis by (force dest: in_set_takeD)
qed

text \<open>The state between two parts: the ids that have been seen are \<^verbatim>\<open>D\<close>, and the store holds no others.\<close>

definition stream_inv :: "int set \<Rightarrow> hash_ctx \<Rightarrow> tree_check_context \<Rightarrow> bool" where
  "stream_inv D h tree \<longleftrightarrow> tree_wf tree \<and> seen_ids tree = D \<and> fst ` set (hashed_nodes_store h) \<subseteq> insert (-1) D"

lemma node_part_step:
  assumes "proto_deserialize_node env buf (h, tree, vals) = Some (h', tree', vals')" "err_code h' = HASH_OK"
    "tree_err tree' = TREE_OK" "stream_inv D h tree"
  shows "tree' = tree_part (node_part buf) tree \<and> set (part_children (node_part buf)) \<subseteq> D \<and>
    stream_inv (insert (fst (node_part buf)) D) h' tree' \<and> tree_err tree = TREE_OK"
proof -
  let ?id = "fst (node_part buf)" and ?cs = "snd (node_part buf)"
  obtain pid where tree': "tree' = tree_mark_seen ?id (tree_claim_children pid ?cs tree)"
    and found: "\<forall>x \<in> set ?cs. get_node_hash (Some x) h \<noteq> None"
    and store: "fst ` set (hashed_nodes_store h') \<subseteq> insert ?id (fst ` set (hashed_nodes_store h))"
    using node_part_effect [OF assms(1,2)] by blast
  let ?t = "tree_claim_children pid ?cs tree"
  have wf: "tree_wf tree" "seen_ids tree = D" using assms(4) by (auto simp: stream_inv_def)
  have ok: "tree_err ?t = TREE_OK" using assms(3) tree' mark_seen_sticky by metis
  then have ok0: "tree_err tree = TREE_OK" using claim_children_sticky by metis
  then have claims: "claims_ok pid (map node_id_from_str ?cs) tree"
    using claim_children_iff [OF wf(1)] ok by simp
  then have nonneg: "0 \<le> node_id_from_str x" if "x \<in> set ?cs" for x
    using that by (auto simp: claims_ok_def in_range_def list_all_iff)
  have fresh: "in_range tree ?id" "?id \<notin> D"
    using assms(3) mark_seen_err [of ?t ?id] claim_children_sets [OF wf(1) claims] wf(2)
    by (auto simp: tree' in_range_def)
  have below: "node_id_from_str ` set ?cs \<subseteq> D"
    using found_child found nonneg assms(4) by (fastforce simp: stream_inv_def)
  then have "tree_claim_children ?id ?cs tree = ?t"
    using claim_children_parent [OF ok] fresh by blast
  then have part: "tree' = tree_part (node_part buf) tree" by (simp add: tree_part_def tree')
  moreover have "part_ok tree (node_part buf)"
    using tree_part_iff [OF wf(1) ok0] assms(3) part by simp
  note tree_part_sets(1) [OF wf(1) this]
  moreover have "fst ` set (hashed_nodes_store h') \<subseteq> insert (-1) (insert ?id D)"
    using store assms(4) unfolding stream_inv_def by blast
  ultimately show ?thesis
    using below ok0 wf tree_part_wf [OF wf(1), of "node_part buf"]
    by (simp add: stream_inv_def part_children_def)
qed

definition accept_node :: "prepared_env \<times> byte list \<Rightarrow> prepared_state \<Rightarrow> prepared_state option" where
  "accept_node part s =
     (case receive_node (fst part) (snd part) s of (r, s') \<Rightarrow> if r = 0 then Some s' else None)"

lemma accept_node_effect:
  assumes "accept_node part s = Some s'"
  shows "\<exists>vals'. proto_deserialize_node (parser_env_of (fst part) s) (snd part) (ps_hasher s, ps_tree s, ps_values s) =
      Some (ps_hasher s', ps_tree s', vals') \<and> err_code (ps_hasher s') = HASH_OK"
  using assms
  by (auto simp: accept_node_def receive_node_def abort_prepared_tx_def Let_def get_hash_error_def
      split: prod.splits option.splits if_splits)

lemma accept_nodes_sticky:
  assumes "fold_opt accept_node parts s = Some s'" "tree_err (ps_tree s') = TREE_OK"
  shows "tree_err (ps_tree s) = TREE_OK"
  using assms(1)
proof (induction parts arbitrary: s)
  case (Cons part parts)
  then obtain t where t: "accept_node part s = Some t" "tree_err (ps_tree t) = TREE_OK"
    by (auto split: option.splits)
  obtain pid where "ps_tree t = tree_mark_seen (fst (node_part (snd part)))
      (tree_claim_children pid (snd (node_part (snd part))) (ps_tree s))"
    using accept_node_effect [OF t(1)] node_part_effect by blast
  with t(2) show ?case by (metis mark_seen_sticky claim_children_sticky)
qed (simp add: assms(2))

text \<open>Children first, as a predicate on the rest of the sequence.\<close>

fun ordered_from :: "int set \<Rightarrow> (int \<times> string list) list \<Rightarrow> bool" where
  "ordered_from D [] \<longleftrightarrow> True"
| "ordered_from D (part # parts) \<longleftrightarrow> set (part_children part) \<subseteq> D \<and> ordered_from (insert (fst part) D) parts"

lemma ordered_from_nth:
  "ordered_from D parts \<Longrightarrow> k < length parts \<Longrightarrow> set (part_children (parts ! k)) \<subseteq> D \<union> set (map fst (take k parts))"
proof (induction parts arbitrary: D k)
  case (Cons part parts)
  then show ?case by (cases k) fastforce+
qed simp

lemma ordered_children_first: "ordered_from {} parts \<Longrightarrow> children_first parts"
  using ordered_from_nth [of "{}" parts] by (auto simp: children_first_def list_all_iff)

lemma accept_nodes_run:
  assumes "fold_opt accept_node parts s = Some s'" "tree_err (ps_tree s') = TREE_OK"
    "stream_inv D (ps_hasher s) (ps_tree s)"
  shows "ps_tree s' = tree_run (map (node_part \<circ> snd) parts) (ps_tree s) \<and>
    ordered_from D (map (node_part \<circ> snd) parts) \<and> tree_err (ps_tree s) = TREE_OK"
  using assms
proof (induction parts arbitrary: s D)
  case (Cons part parts)
  obtain t where t: "accept_node part s = Some t" "fold_opt accept_node parts t = Some s'"
    using Cons.prems(1) by (auto split: option.splits)
  obtain vals where d: "proto_deserialize_node (parser_env_of (fst part) s) (snd part) (ps_hasher s, ps_tree s, ps_values s) =
      Some (ps_hasher t, ps_tree t, vals)" "err_code (ps_hasher t) = HASH_OK"
    using accept_node_effect [OF t(1)] by blast
  note step = node_part_step [OF d accept_nodes_sticky [OF t(2) Cons.prems(2)] Cons.prems(3)]
  with Cons.IH [OF t(2) Cons.prems(2)] show ?case
    by (auto simp: tree_run_def)
qed (simp add: tree_run_def)

lemma header_starts_stream:
  assumes "receive_daml_tx env hdr s0 = (0, s)" "tree_err (ps_tree s) = TREE_OK"
  shows "stream_inv {} (ps_hasher s) (ps_tree s) \<and>
    (\<exists>mem_ok. tree_check_init mem_ok (tx_roots (ps_tx s)) (tx_nodes_count (ps_tx s)) = (True, ps_tree s))"
proof -
  obtain tx where tx: "proto_deserialize_daml_tx hdr = Some tx" "ps_tx s = tx"
    "ps_tree s = snd (tree_check_init (px_tree_mem env) (tx_roots tx) (tx_nodes_count tx))"
    "ps_hasher s = hash_transaction tx (ps_hasher s0)"
    using assms(1) by (auto simp: receive_daml_tx_def abort_prepared_tx_def Let_def split: option.splits if_splits)
  have "appends (\<lambda>h. encode_int32 (int (length (tx_roots tx))) (encode_string (tx_version tx)
      (hw_put PREPARED_TRANSACTION_HASH_PURPOSE h)))"
    by (rule appends_comp [OF appends_int(1) appends_comp [OF appends_string appends_put]])
  then have "hashed_nodes_store (ps_hasher s) = replicate MAX_NODE_CHILDREN (-1, replicate SHA256_HASH_LEN 0)"
    by (simp add: tx(4) hash_transaction_def Let_def appends_def init_node_hash_store_def hw_init_def)
  moreover have init: "tree_check_init (px_tree_mem env) (tx_roots tx) (tx_nodes_count tx) = (True, ps_tree s)"
    using assms(2) by (auto simp: tx(3) tree_check_init_def Let_def tree_check_reset_def set_tree_error_def split: if_splits)
  ultimately show ?thesis
    using tree_init_OK(1,3) [OF init] by (auto simp: stream_inv_def tx(2))
qed


text \<open>A header of two nodes, the leaf of the sample above and the root that declares it.\<close>

definition sample_header :: "byte list" where
  "sample_header = [0x0A, 1, 0x32, 0x12, 1, 0x30, 0x18, 2]"

definition sample_root :: "byte list" where
  "sample_root = [0x0A, 1, 0x30, 0xC2, 0x3E, 5, 0x22, 3, 0x0A, 1, 0x31]"

lemma sample_stream_accepted:
  "case receive_daml_tx sample_prepared_env sample_header (sample_state [] sample_display) of
     (r, s) \<Rightarrow> r = 0 \<and> tx_roots (ps_tx s) = [''0''] \<and>
       (case fold_opt accept_node [(sample_prepared_env, sample_leaf), (sample_prepared_env, sample_root)] s of
          None \<Rightarrow> False | Some s' \<Rightarrow> fst (tree_verify_complete (ps_tree s')) = TREE_OK)"
  by code_simp


end
