(* ===== verification/Display_Walk.thy ===== *)
theory Display_Walk
  imports Decode_Frames Display_Parser
begin

text \<open>
  Which screen a node may open. The display walk goes over everything a node carries, but a screen may be
  opened only for the action the node itself performs, never for a record that is nested in its
  argument. This is an invariant of every callback of the walk, at every depth.
\<close>

section \<open>Choosing a screen\<close>

text \<open>The action a screen is written for, as the configuration names it: a create of its template, or an
  exercise of its choice on one of its node templates.\<close>

definition names_action :: "display_config \<Rightarrow> cstring \<Rightarrow> cstring \<Rightarrow> cstring \<Rightarrow> bool" where
  "names_action cfg md en ch \<longleftrightarrow>
     (case ch of
        None \<Rightarrow> md = Some (ic_module (dc_identifier cfg)) \<and> en = Some (ic_entity (dc_identifier cfg))
      | Some choice \<Rightarrow> choice = ic_entity (dc_identifier cfg) \<and>
          (\<exists>n \<in> set (dc_node_identifiers cfg). md = Some (ic_module n) \<and> en = Some (ic_entity n)))"

text \<open>A deferred screen, taken by a disclosed contract of one of its templates.\<close>

definition names_contract :: "display_config \<Rightarrow> cstring \<Rightarrow> cstring \<Rightarrow> bool" where
  "names_contract cfg md en \<longleftrightarrow>
     (\<exists>n \<in> set (dc_metadata_identifiers cfg). md = Some (ic_module n) \<and> en = Some (ic_entity n))"

definition screen_configs :: "display_config \<Rightarrow> field_config option list" where
  "screen_configs cfg =
     (if dc_review_title cfg = PREAPPROVAL_PROPOSAL_REVIEW_TITLE
      then (map Some (dc_fields cfg))[PREAPPROVAL_ASSET_FIELD_INDEX := Some PREAPPROVAL_ASSET_FIELD]
      else map Some (dc_fields cfg))"

definition same_identity :: "display_ctx \<Rightarrow> display_ctx \<Rightarrow> bool" where
  "same_identity c c' \<longleftrightarrow> dx_contract_id c' = dx_contract_id c \<and> dx_node_module c' = dx_node_module c \<and>
     dx_node_entity c' = dx_node_entity c \<and> dx_node_choice_id c' = dx_node_choice_id c"

text \<open>Which field this is, and whether it will be shown.\<close>

definition shape :: "tx_field \<Rightarrow> field_config option \<times> bool" where
  "shape f = (tf_config f, tf_display f)"

text \<open>The screen that is open in a context, and the deferred one.\<close>

definition open_screen :: "display_ctx \<Rightarrow> display_config \<Rightarrow> bool" where
  "open_screen c cfg \<longleftrightarrow> (\<exists>fs. dx_tx_fields c = Some fs \<and> map shape fs = map (\<lambda>fc. (fc, True)) (screen_configs cfg)) \<and>
     dx_review_title c = Some (dc_review_title cfg) \<and> dx_review_finish c = Some (dc_review_finish cfg) \<and>
     dx_destination c = dc_destination cfg \<and> dx_amount_check c = dc_amount_check cfg"

definition deferred_ok :: "display_state \<Rightarrow> bool" where
  "deferred_ok s \<longleftrightarrow> (case metadata_display_conf s of None \<Rightarrow> True | Some cfg \<Rightarrow> cfg \<in> set DISPLAY_CONFIGS)"

definition may_open :: "display_ctx \<Rightarrow> display_config \<Rightarrow> bool" where
  "may_open c cfg \<longleftrightarrow> cfg \<in> set DISPLAY_CONFIGS \<and>
     (names_action cfg (dx_node_module c) (dx_node_entity c) (dx_node_choice_id c) \<and> dc_metadata_identifiers cfg = [] \<or>
      names_contract cfg (dx_node_module c) (dx_node_entity c))"

definition screen_rel :: "display_ctx \<Rightarrow> display_ctx \<Rightarrow> bool" where
  "screen_rel c c' \<longleftrightarrow> same_identity c c' \<and>
     (deferred_ok (dx_state c) \<longrightarrow> deferred_ok (dx_state c') \<and>
       (case dx_tx_fields c of
          None \<Rightarrow> dx_tx_fields c' = None \<or> (\<exists>cfg. may_open c cfg \<and> open_screen c' cfg)
        | Some fs \<Rightarrow> (\<exists>fs'. dx_tx_fields c' = Some fs' \<and> map shape fs' = map shape fs) \<and>
            dx_review_title c' = dx_review_title c \<and> dx_review_finish c' = dx_review_finish c \<and>
            dx_destination c' = dx_destination c \<and> dx_amount_check c' = dx_amount_check c)) \<and>
     clear_signing_available (dx_state c') = clear_signing_available (dx_state c) \<and>
     display_failed (dx_state c') = display_failed (dx_state c)"

lemma screen_rel_refl: "screen_rel c c"
  by (simp add: screen_rel_def same_identity_def split: option.split)

lemma may_open_same: "same_identity c d \<Longrightarrow> may_open d cfg \<longleftrightarrow> may_open c cfg"
  by (simp add: may_open_def same_identity_def)

lemma open_screen_kept:
  assumes "open_screen c cfg" "screen_rel c d" "deferred_ok (dx_state c)"
  shows "open_screen d cfg"
  using assms by (fastforce simp: open_screen_def screen_rel_def)

lemma screen_rel_trans:
  assumes "screen_rel c d" "screen_rel d e"
  shows "screen_rel c e"
proof -
  have "open_screen e cfg" if "open_screen d cfg" "deferred_ok (dx_state d)" for cfg
    using open_screen_kept [OF that(1) assms(2) that(2)] .
  moreover have "may_open d cfg \<longleftrightarrow> may_open c cfg" for cfg
    using assms(1) by (intro may_open_same) (simp add: screen_rel_def)
  ultimately show ?thesis
    using assms unfolding screen_rel_def same_identity_def
    by (cases "dx_tx_fields c"; cases "dx_tx_fields d") (auto simp: open_screen_def)
qed

interpretation sr: decode_rel screen_rel
  by unfold_locales (rule screen_rel_refl, erule screen_rel_trans)

section \<open>The walk\<close>

text \<open>Most steps of the walk touch only values, paths and counters.\<close>

definition quiet :: "display_ctx \<Rightarrow> display_ctx \<Rightarrow> bool" where
  "quiet c c' \<longleftrightarrow> same_identity c c' \<and> dx_state c' = dx_state c \<and>
     map_option (map shape) (dx_tx_fields c') = map_option (map shape) (dx_tx_fields c) \<and>
     dx_review_title c' = dx_review_title c \<and> dx_review_finish c' = dx_review_finish c \<and>
     dx_destination c' = dx_destination c \<and> dx_amount_check c' = dx_amount_check c"

lemma quiet_refl [simp, intro]: "quiet c c"
  by (simp add: quiet_def same_identity_def)

lemma quiet_trans: "quiet c d \<Longrightarrow> quiet d e \<Longrightarrow> quiet c e"
  by (simp add: quiet_def same_identity_def)

lemma quiet_screen: "quiet c c' \<Longrightarrow> screen_rel c c'"
  by (auto simp: quiet_def screen_rel_def split: option.split)

lemma quiet_flags [simp]:
  "quiet c (d\<lparr>dx_unreadable := b\<rparr>) \<longleftrightarrow> quiet c d" "quiet c (d\<lparr>dx_field_path := x\<rparr>) \<longleftrightarrow> quiet c d"
  "quiet c (d\<lparr>dx_values_opened := n\<rparr>) \<longleftrightarrow> quiet c d" "quiet c (d\<lparr>dx_record_depth := r\<rparr>) \<longleftrightarrow> quiet c d"
  "quiet c (d\<lparr>dx_allocs := a\<rparr>) \<longleftrightarrow> quiet c d" "quiet c (d\<lparr>dx_unknown_token := t\<rparr>) \<longleftrightarrow> quiet c d"
  by (simp_all add: quiet_def same_identity_def)

lemma map_config_update:
  "(\<And>f. shape (g f) = shape f) \<Longrightarrow> map shape (fs[i := g (fs ! i)]) = map shape fs"
  by (simp add: map_update) (metis list_update_beyond list_update_id map_update not_less nth_map)

lemma quiet_upd_field:
  assumes "\<And>f. shape (g f) = shape f"
  shows "quiet c (upd_field i g d) \<longleftrightarrow> quiet c d"
  using map_config_update [of g, OF assms]
  by (cases "dx_tx_fields d") (auto simp: quiet_def upd_field_def same_identity_def)

lemma set_field_value_quiet: "quiet c (set_field_value env i v ts c)"
  by (auto simp: set_field_value_def app_mem_alloc_def Let_def quiet_upd_field shape_def split: if_splits prod.split bool.split)

lemma take_field_value_quiet: "quiet c (take_field_value i v c)"
  by (auto simp: take_field_value_def Let_def quiet_upd_field shape_def)

lemma find_tx_field_quiet: "quiet c (find_tx_field env v c)"
  by (auto simp: find_tx_field_def set_field_value_quiet take_field_value_quiet quiet_upd_field shape_def
      split: option.split cbValue.split)

lemma path_quiet: "quiet c (push_path seg c)" "quiet c (pop_path n c)"
  by (auto simp: push_path_def pop_path_def split: option.split prod.split)

lemma read_path_segment_quiet: "read_path_segment p c = Some c' \<Longrightarrow> quiet c c'"
  by (auto simp: read_path_segment_def path_quiet split: if_splits)

lemma app_mem_strdup_quiet: "app_mem_strdup env s c = (r, c') \<Longrightarrow> quiet c c'"
  by (auto simp: app_mem_strdup_def app_mem_alloc_def split: option.splits)

lemma find_in_set: "find P xs = Some x \<Longrightarrow> P x \<and> x \<in> set xs"
  by (auto simp: find_Some_iff)

lemma set_display_config_opens: "open_screen (set_display_config env cfg c) cfg"
proof -
  let ?c1 = "c\<lparr>dx_tx_fields := Some (map (\<lambda>fc. \<lparr>tf_value = None, tf_config = Some fc, tf_matched = False, tf_display = True,
      tf_store_failed = False\<rparr>) (dc_fields cfg)), dx_review_title := Some (dc_review_title cfg),
      dx_review_finish := Some (dc_review_finish cfg), dx_destination := dc_destination cfg,
      dx_amount_check := dc_amount_check cfg, dx_state := init_transaction_pairs (dx_state c)\<rparr>"
  let ?c2 = "upd_field PREAPPROVAL_ASSET_FIELD_INDEX (\<lambda>f. f\<lparr>tf_config := Some PREAPPROVAL_ASSET_FIELD\<rparr>) ?c1"
  have "open_screen d cfg" if "quiet ?c2 d" "dc_review_title cfg = PREAPPROVAL_PROPOSAL_REVIEW_TITLE" for d
    using that by (cases "PREAPPROVAL_ASSET_FIELD_INDEX < length (dc_fields cfg)")
      (auto simp: quiet_def upd_field_def open_screen_def screen_configs_def map_update shape_def comp_def list_update_beyond not_less)
  then show ?thesis
    using set_field_value_quiet [of ?c2]
    by (auto simp: set_display_config_def Let_def open_screen_def screen_configs_def shape_def comp_def)
qed

lemma set_display_config_frame:
  "same_identity c (set_display_config env cfg c)" "dx_state (set_display_config env cfg c) = init_transaction_pairs (dx_state c)"
  using set_field_value_quiet
  by (auto simp: set_display_config_def Let_def quiet_def upd_field_def same_identity_def)

lemma open_allowed:
  assumes "may_open c cfg" "dx_tx_fields c = None"
  shows "screen_rel c (set_display_config env cfg c)"
  using assms set_display_config_opens [of env cfg c] set_display_config_frame [where c = c and env = env and cfg = cfg]
  by (auto simp: screen_rel_def deferred_ok_def init_transaction_pairs_def)

lemma action_named:
  assumes "match_identifier i (dc_identifier cfg)" "config_matches_node_action c cfg i"
  shows "names_action cfg (dx_node_module c) (dx_node_entity c) (dx_node_choice_id c)"
  using assms
  by (auto simp: match_identifier_def config_matches_node_action_def names_action_def is_node_template_def
      split: option.splits if_splits dest!: find_in_set)

lemma contract_named:
  assumes "metadata_match c i = Some cfg"
  shows "metadata_display_conf (dx_state c) = Some cfg \<and> names_contract cfg (dx_node_module c) (dx_node_entity c)"
  using assms
  by (auto simp: metadata_match_def names_contract_def list_ex_iff match_identifier_def is_node_template_def Let_def
      split: option.splits if_splits)

lemma find_tx_type_keeps: "screen_rel c (find_tx_type_and_config env i c)"
proof (cases "dx_tx_fields c = None")
  case True
  show ?thesis
  proof (cases "metadata_match c i")
    case (Some cfg)
    show ?thesis
    proof (cases "deferred_ok (dx_state c)")
      case True
      with Some contract_named [OF Some] have "may_open c cfg"
        by (simp add: may_open_def deferred_ok_def)
      with Some \<open>dx_tx_fields c = None\<close> open_allowed show ?thesis by (simp add: find_tx_type_and_config_def)
    next
      case False
      with Some \<open>dx_tx_fields c = None\<close> show ?thesis
        by (simp add: find_tx_type_and_config_def screen_rel_def set_display_config_frame init_transaction_pairs_def)
    qed
  next
    case None
    show ?thesis
    proof (cases "find (\<lambda>cfg. match_identifier i (dc_identifier cfg) \<and> config_matches_node_action c cfg i) DISPLAY_CONFIGS")
      case (Some cfg)
      note cfg = find_in_set [OF Some]
      obtain cid c1 where dup: "app_mem_strdup env (dx_contract_id c) c = (cid, c1)" by fastforce
      have "screen_rel c (c1\<lparr>dx_state := (dx_state c1)\<lparr>metadata_display_conf := Some cfg, expected_contract_id := cid\<rparr>\<rparr>)"
        using app_mem_strdup_quiet [OF dup] cfg True
        by (auto simp: quiet_def screen_rel_def deferred_ok_def same_identity_def)
      moreover have "may_open c cfg" if "dc_metadata_identifiers cfg = []"
        using cfg that action_named by (auto simp: may_open_def)
      ultimately show ?thesis
        using True None Some dup open_allowed by (simp add: find_tx_type_and_config_def)
    qed (simp add: True None find_tx_type_and_config_def screen_rel_refl)
  qed
qed (simp add: find_tx_type_and_config_def screen_rel_refl)

definition dp_room_keeps :: "dp_comp option \<Rightarrow> bool" where
  "dp_room_keeps room \<longleftrightarrow> (\<forall>sub t p. room = Some sub \<longrightarrow> keeps screen_rel (sub t p))"

text \<open>A label is read next to the flag that says so.\<close>

definition flag_rel :: "bool \<times> display_ctx \<Rightarrow> bool \<times> display_ctx \<Rightarrow> bool" where
  "flag_rel x y \<longleftrightarrow> screen_rel (snd x) (snd y)"

interpretation fr: decode_rel flag_rel
  by unfold_locales (auto simp: flag_rel_def intro: screen_rel_refl screen_rel_trans)

lemma labelled_walk:
  assumes "pb_decode (labelled_value_field (dp_decode_label n) (\<lambda>t p (l, c'). map_option (Pair l) (sub t p c'))) q (v, b, c) =
      Some (v', b', c')" "\<And>t p. keeps screen_rel (sub t p)"
  shows "screen_rel c c'"
proof -
  have "keeps flag_rel (dp_decode_label n p)" for p
    by (auto simp: keeps_def dp_decode_label_def Let_def flag_rel_def dest!: read_path_segment_quiet intro!: quiet_screen)
       (auto simp: quiet_def same_identity_def)
  moreover have "keeps flag_rel ((\<lambda>t p (l, c'). map_option (Pair l) (sub t p c')) t p)" for t p
    using keepsD [OF assms(2)] by (auto simp: keeps_def flag_rel_def)
  ultimately have "keeps2 flag_rel (pb_decode (labelled_value_field (dp_decode_label n)
      (\<lambda>t p (l, c'). map_option (Pair l) (sub t p c'))) q)"
    by (intro fr.pb_decode_keeps2 fr.labelled_value_field_keeps2)
  from keeps2D [OF this assms(1)] show ?thesis by (simp add: flag_rel_def)
qed

lemma after_walk:
  assumes "screen_rel c d"
  shows "screen_rel c (pop_path n (find_tx_field env v d))" "screen_rel c (find_tx_field env v d)"
    "screen_rel c (pop_path n (find_tx_field env v (d\<lparr>dx_unreadable := b\<rparr>)))"
proof -
  have "quiet d (d\<lparr>dx_unreadable := b\<rparr>)" by simp
  note q = this find_tx_field_quiet path_quiet(2)
  show "screen_rel c (pop_path n (find_tx_field env v d))"
    by (rule sr.trans [OF assms quiet_screen [OF quiet_trans [OF q(2,3)]]])
  show "screen_rel c (find_tx_field env v d)"
    by (rule sr.trans [OF assms quiet_screen [OF q(2)]])
  show "screen_rel c (pop_path n (find_tx_field env v (d\<lparr>dx_unreadable := b\<rparr>)))"
    by (rule sr.trans [OF assms quiet_screen [OF quiet_trans [OF q(1) quiet_trans [OF q(2,3)]]]])
qed

lemma dp_callbacks_keep:
  assumes "dp_room_keeps room"
  shows "keeps screen_rel (dp_decode_record_field env room q)" "keeps screen_rel (dp_decode_value env room q)"
    "keeps screen_rel (decode_value_text_map env room q)"
proof -
  have sub: "keeps screen_rel (f t p)" if "room = Some f" for f t p
    using assms that by (simp add: dp_room_keeps_def)
  show "keeps screen_rel (dp_decode_record_field env room q)"
    by (rule keepsI) (auto simp: dp_decode_record_field_def screen_rel_refl split: option.splits if_splits
        dest!: labelled_walk [OF _ sub] intro: after_walk)
  show "keeps screen_rel (dp_decode_value env room q)"
  proof (rule keepsI)
    fix c c'
    assume "dp_decode_value env room q c = Some c'"
    then obtain f v d where f: "room = Some f" "decode_cbValue f q (V_none, c) = Some (v, d)" "c' = find_tx_field env v d"
      by (auto simp: dp_decode_value_def split: option.splits)
    have "keeps2 screen_rel (decode_cbValue f q)"
      by (rule sr.decode_cbValue_keeps2) (rule sub [OF f(1)])
    from keeps2D [OF this f(2)] show "screen_rel c c'"
      unfolding f(3) by (rule after_walk(2))
  qed
  show "keeps screen_rel (decode_value_text_map env room q)"
    by (rule keepsI) (auto simp: decode_value_text_map_def split: option.splits if_splits
        dest!: labelled_walk [OF _ sub] intro: after_walk)
qed

lemma record_id_field_keeps: "keeps screen_rel (decode_record_id_field env p)"
  by (rule keepsI) (auto simp: decode_record_id_field_def find_tx_type_keeps screen_rel_refl split: option.splits)

lemma dp_variant_keeps:
  assumes "dp_room_keeps room"
  shows "keeps screen_rel (dp_decode_value_variant env room t p)"
proof (rule keepsI)
  fix c c'
  assume v: "dp_decode_value_variant env room t p c = Some c'"
  note callbacks = dp_callbacks_keep [OF assms] record_id_field_keeps
  have handler: "keeps screen_rel (\<lambda>c. if b then run_callback f w c else g c)"
    if "\<And>q. keeps screen_rel (f q)" "keeps screen_rel g" for b f w g
    using keepsD [OF sr.run_callback_keeps [OF that(1)]] keepsD [OF that(2)] by (auto simp: keeps_def)
  have some: "keeps screen_rel Some" by (simp add: keeps_def sr.refl)
  have decode: "screen_rel c e" if "quiet c d" "pb_decode f p d = Some e" "\<And>fw. keeps screen_rel (f fw)" for d e f
    using that quiet_screen by (blast intro: sr.trans keepsD [OF sr.pb_decode_keeps])
  have finish: "screen_rel c (e\<lparr>dx_record_depth := n\<rparr>)" if "screen_rel c e" for e n
    using that by (rule sr.trans) (rule quiet_screen, simp)
  have null: "screen_rel c e" if "comp_null t p (c\<lparr>dx_values_opened := n\<rparr>) = Some e" for e n
    using keepsD [OF sr.comp_null_keeps that] by (rule sr.trans [OF quiet_screen, rotated]) simp
  from v show "screen_rel c c'"
    unfolding dp_decode_value_variant_def Let_def
    by (auto split: if_splits intro!: finish handler some callbacks elim!: decode [rotated]
        dest: null)
qed

lemma dp_comp_keeps: "keeps screen_rel (dp_comp_at env n t p)"
  by (induction n arbitrary: t p) (auto intro!: dp_variant_keeps simp: dp_room_keeps_def)

lemma argument_field_keeps: "keeps screen_rel (argument_field env w)"
  by (rule keepsI) (auto simp: argument_field_def split: wire.splits
      dest: keeps2D [OF sr.decode_cbValue_keeps2 [OF dp_comp_keeps]])

section \<open>The screen of a node\<close>

text \<open>The action a member of the node oneof performs, read from its bytes. When an allocation fails the
  choice of an exercise may be lost, and the node is then taken for a create.\<close>

definition member_acts :: "display_env \<Rightarrow> nat \<times> wire \<Rightarrow> cstring \<Rightarrow> cstring \<Rightarrow> cstring \<Rightarrow> bool" where
  "member_acts env fw md en ch \<longleftrightarrow>
     (\<exists>p e. fw = (3, WLen p) \<and> decode_Exercise p Node_Exercise_init_zero = Some e \<and> ex_has_template_id e \<and>
        md = id_module (ex_template_id e) \<and> en = id_entity (ex_template_id e) \<and>
        (ch = ex_choice_id e \<or> ch = None \<and> (\<exists>n. \<not> de_mem env n))) \<or>
     (\<exists>p cr. fw = (1, WLen p) \<and> decode_Create p Node_Create_init_zero = Some cr \<and> cr_has_template_id cr \<and>
        md = id_module (cr_template_id cr) \<and> en = id_entity (cr_template_id cr) \<and> ch = None)"

definition screen_for :: "display_config \<Rightarrow> cstring \<Rightarrow> cstring \<Rightarrow> cstring \<Rightarrow> bool" where
  "screen_for cfg md en ch \<longleftrightarrow> cfg \<in> set DISPLAY_CONFIGS \<and>
     (names_action cfg md en ch \<and> dc_metadata_identifiers cfg = [] \<or> names_contract cfg md en)"

definition screen_inv :: "display_env \<Rightarrow> (nat \<times> wire) set \<Rightarrow> display_ctx \<Rightarrow> bool" where
  "screen_inv env members c \<longleftrightarrow> deferred_ok (dx_state c) \<and>
     (dx_tx_fields c = None \<or> (\<exists>cfg md en ch. open_screen c cfg \<and> screen_for cfg md en ch \<and>
        (\<exists>fw \<in> members. member_acts env fw md en ch)))"

lemma screen_inv_mono: "screen_inv env M c \<Longrightarrow> M \<subseteq> N \<Longrightarrow> screen_inv env N c"
  unfolding screen_inv_def by blast

lemma app_mem_strdup_result:
  "app_mem_strdup env s c = (r, c') \<Longrightarrow> r = s \<or> r = None \<and> (\<exists>n. \<not> de_mem env n)"
  by (cases "de_mem env (dx_allocs c)") (auto simp: app_mem_strdup_def app_mem_alloc_def split: option.splits)

lemma set_node_identity_result:
  assumes "set_node_identity env cid t ch c = c'"
  shows "dx_node_module c' = Option.bind t id_module \<or> dx_node_module c' = None"
    "dx_node_entity c' = Option.bind t id_entity \<or> dx_node_entity c' = None"
    "dx_node_choice_id c' = ch \<or> dx_node_choice_id c' = None \<and> (\<exists>n. \<not> de_mem env n)"
    "dx_state c' = dx_state c" "dx_tx_fields c' = dx_tx_fields c \<or> dx_tx_fields c \<noteq> None"
    "open_screen c cfg \<Longrightarrow> open_screen c' cfg" "dx_tx_fields c = None \<Longrightarrow> dx_tx_fields c' = None"
proof -
  obtain r1 c1 r2 c2 r3 c3 r4 c4 where dup: "app_mem_strdup env cid c = (r1, c1)"
    "app_mem_strdup env (Option.bind t id_module) c1 = (r2, c2)"
    "app_mem_strdup env (Option.bind t id_entity) c2 = (r3, c3)" "app_mem_strdup env ch c3 = (r4, c4)"
    by (metis surj_pair)
  then have c': "c' = c4\<lparr>dx_contract_id := r1, dx_node_module := r2, dx_node_entity := r3, dx_node_choice_id := r4\<rparr>"
    using assms by (simp add: set_node_identity_def)
  have q: "quiet c c4"
    using dup by (blast intro: quiet_trans dest: app_mem_strdup_quiet)
  show "dx_node_module c' = Option.bind t id_module \<or> dx_node_module c' = None"
    "dx_node_entity c' = Option.bind t id_entity \<or> dx_node_entity c' = None"
    "dx_node_choice_id c' = ch \<or> dx_node_choice_id c' = None \<and> (\<exists>n. \<not> de_mem env n)"
    using dup(2-4) by (auto simp: c' dest: app_mem_strdup_result)
  show "dx_state c' = dx_state c" "dx_tx_fields c' = dx_tx_fields c \<or> dx_tx_fields c \<noteq> None"
    "open_screen c cfg \<Longrightarrow> open_screen c' cfg" "dx_tx_fields c = None \<Longrightarrow> dx_tx_fields c' = None"
    using q by (auto simp: c' quiet_def open_screen_def)
qed

lemma identity_inv:
  assumes "screen_inv env M c"
  shows "screen_inv env M (set_node_identity env cid t ch c)"
  using assms set_node_identity_result [OF refl, where env = env and cid = cid and t = t and ch = ch and c = c] unfolding screen_inv_def by metis

lemma named_module: "screen_for cfg md en ch \<Longrightarrow> md \<noteq> None \<and> en \<noteq> None"
  by (auto simp: screen_for_def names_action_def names_contract_def split: option.splits)

lemma walk_inv:
  assumes "screen_inv env M c" "screen_rel c c'" "\<And>cfg. may_open c cfg \<Longrightarrow> member_acts env fw (dx_node_module c) (dx_node_entity c) (dx_node_choice_id c)"
  shows "screen_inv env (insert fw M) c'"
proof -
  have d: "deferred_ok (dx_state c)" "deferred_ok (dx_state c')"
    using assms(1,2) by (auto simp: screen_inv_def screen_rel_def)
  show ?thesis
  proof (cases "dx_tx_fields c")
    case None
    with assms(2) d consider "dx_tx_fields c' = None" | cfg where "may_open c cfg" "open_screen c' cfg"
      by (auto simp: screen_rel_def)
    then show ?thesis
    proof cases
      case 2
      then show ?thesis
        using assms(3) [OF 2(1)] d unfolding screen_inv_def screen_for_def may_open_def by blast
    qed (simp add: screen_inv_def d)
  next
    case (Some fs)
    with assms(1) obtain cfg md en ch fw' where "open_screen c cfg" "screen_for cfg md en ch" "fw' \<in> M" "member_acts env fw' md en ch"
      by (auto simp: screen_inv_def)
    with open_screen_kept [OF _ assms(2) d(1)] d show ?thesis unfolding screen_inv_def by blast
  qed
qed

lemma node_display_field_keeps: "keeps screen_rel (node_display_field env is_string tag fw)"
  by (rule keepsI) (auto simp: node_display_field_def Let_def screen_rel_refl split: if_splits
      dest: keepsD [OF argument_field_keeps])

lemma opened_by_identity:
  assumes "may_open (set_node_identity env cid t ch c) cfg"
  obtains i where "t = Some i" "dx_node_module (set_node_identity env cid t ch c) = id_module i"
    "dx_node_entity (set_node_identity env cid t ch c) = id_entity i"
    "dx_node_choice_id (set_node_identity env cid t ch c) = ch \<or>
       dx_node_choice_id (set_node_identity env cid t ch c) = None \<and> (\<exists>n. \<not> de_mem env n)"
proof -
  let ?c = "set_node_identity env cid t ch c"
  note r = set_node_identity_result(1-3) [OF refl, where env = env and cid = cid and t = t and ch = ch and c = c]
  have "dx_node_module ?c \<noteq> None" "dx_node_entity ?c \<noteq> None"
    using assms named_module by (auto simp: may_open_def screen_for_def)
  with r that show ?thesis by (cases t) auto
qed

lemma exercise_member_inv:
  assumes "pb_decode (node_display_field env f tag) p (read_exercise_identity env p c) = Some c'" "screen_inv env M c"
  shows "screen_inv env (insert (3, WLen p) M) c'"
proof (rule walk_inv [of env M "read_exercise_identity env p c"])
  show "screen_inv env M (read_exercise_identity env p c)"
    using identity_inv [OF assms(2)] by (simp add: read_exercise_identity_def split: option.split)
  show "screen_rel (read_exercise_identity env p c) c'"
    by (rule keepsD [OF sr.pb_decode_keeps assms(1)]) (rule node_display_field_keeps)
  show "member_acts env (3, WLen p) (dx_node_module (read_exercise_identity env p c))
      (dx_node_entity (read_exercise_identity env p c)) (dx_node_choice_id (read_exercise_identity env p c))"
    if "may_open (read_exercise_identity env p c) cfg" for cfg
    using that by (auto simp: read_exercise_identity_def member_acts_def split: option.splits if_splits elim!: opened_by_identity)
qed

lemma create_member_inv:
  assumes "pb_decode (node_display_field env f tag) p (read_create_identity env p c) = Some c'" "screen_inv env M c"
  shows "screen_inv env (insert (1, WLen p) M) c'"
proof (rule walk_inv [of env M "read_create_identity env p c"])
  show "screen_inv env M (read_create_identity env p c)"
    using identity_inv [OF assms(2)] by (simp add: read_create_identity_def split: option.split)
  show "screen_rel (read_create_identity env p c) c'"
    by (rule keepsD [OF sr.pb_decode_keeps assms(1)]) (rule node_display_field_keeps)
  show "member_acts env (1, WLen p) (dx_node_module (read_create_identity env p c))
      (dx_node_entity (read_create_identity env p c)) (dx_node_choice_id (read_create_identity env p c))"
    if "may_open (read_create_identity env p c) cfg" for cfg
    using that by (auto simp: read_create_identity_def member_acts_def split: option.splits if_splits elim!: opened_by_identity)
qed

lemma member_inv:
  assumes "dp_node_decode_callback env fw c = Some c'" "screen_inv env M c"
  shows "screen_inv env (insert fw M) c'"
  using assms screen_inv_mono [OF assms(2), of "insert fw M"]
  by (cases fw) (auto simp: dp_node_decode_callback_def split: wire.splits if_splits
      intro: exercise_member_inv create_member_inv [unfolded One_nat_def])

lemma members_inv:
  "fold_opt (dp_node_decode_callback env) fs c = Some c' \<Longrightarrow> screen_inv env M c \<Longrightarrow> screen_inv env (set fs \<union> M) c'"
proof (induction fs arbitrary: c M)
  case (Cons fw fs)
  then obtain d where "dp_node_decode_callback env fw c = Some d" "fold_opt (dp_node_decode_callback env) fs d = Some c'"
    by (auto split: option.splits)
  with Cons.IH member_inv [OF _ Cons.prems(2)] show ?case by fastforce
qed simp

text \<open>All members of the node oneof in a part.\<close>

definition node_members :: "byte list \<Rightarrow> (nat \<times> wire) set" where
  "node_members buf = {m. \<exists>fs p gs. pb_fields buf = Some fs \<and> (1000, WLen p) \<in> set fs \<and> pb_fields p = Some gs \<and> m \<in> set gs}"

lemma node_walk_inv:
  assumes "pb_decode (versioned_node_decode_callback env) buf c = Some c'" "screen_inv env {} c"
  shows "screen_inv env (node_members buf) c'"
proof -
  obtain fs where fs: "pb_fields buf = Some fs" "fold_opt (versioned_node_decode_callback env) fs c = Some c'"
    using assms(1) by (auto simp: pb_decode_def split: option.splits)
  have "fold_opt (versioned_node_decode_callback env) gs c = Some c' \<Longrightarrow> screen_inv env (node_members buf) c \<Longrightarrow>
      set gs \<subseteq> set fs \<Longrightarrow> screen_inv env (node_members buf) c'" for gs c
  proof (induction gs arbitrary: c)
    case (Cons fw gs)
    then obtain d where d: "versioned_node_decode_callback env fw c = Some d" "fold_opt (versioned_node_decode_callback env) gs d = Some c'"
      by (auto split: option.splits)
    have "screen_inv env (node_members buf) d"
    proof (cases "fst fw = 1000")
      case True
      then obtain p hs where p: "fw = (1000, WLen p)" "pb_fields p = Some hs" "fold_opt (dp_node_decode_callback env) hs c = Some d"
        using d(1) by (cases fw) (auto simp: versioned_node_decode_callback_def pb_decode_def split: wire.splits option.splits)
      then have "set hs \<union> node_members buf \<subseteq> node_members buf"
        using Cons.prems(3) fs(1) by (auto simp: node_members_def)
      with members_inv [OF p(3) Cons.prems(2)] show ?thesis by (rule screen_inv_mono)
    next
      case False
      then have "d = c" using d(1) by (auto simp: versioned_node_decode_callback_def pb_null_callback_def split: if_splits)
      then show ?thesis using Cons.prems(2) by simp
    qed
    with d(2) Cons show ?case by simp
  qed simp
  with fs assms(2) show ?thesis using screen_inv_mono by blast
qed

end
