(* ===== verification/Wire_Format.thy ===== *)
theory Wire_Format
  imports Nanopb
begin

text \<open>
  The decoder of \<^verbatim>\<open>pb_decode.c\<close> against the protobuf wire format: a reference writer for varints,
  tags and fields, and the proof that the decoder inverts it.
\<close>

section \<open>Varints\<close>

fun enc_varint :: "nat \<Rightarrow> byte list" where
  "enc_varint n = (if n < 128 then [of_nat n] else of_nat (128 + n mod 128) # enc_varint (n div 128))"

declare enc_varint.simps [simp del]

lemma nat_and_mask: "(n :: nat) AND 127 = n mod 128" "(n :: nat) AND 15 = n mod 16"
proof -
  have "n AND mask 7 = take_bit 7 n" "n AND mask 4 = take_bit 4 n"
    by (simp_all add: take_bit_eq_mask)
  then show "n AND 127 = n mod 128" "n AND 15 = n mod 16"
    by (simp_all add: mask_eq_exp_minus_1 take_bit_eq_mod)
qed

lemma byte_and_7F: "(of_nat n :: byte) AND 0x7F = of_nat (n mod 128)"
  using of_nat_and_eq [of n 127, where 'a = byte] by (simp add: nat_and_mask)

lemma byte_high_iff: "n < 256 \<Longrightarrow> (of_nat n :: byte) AND 0x80 = 0 \<longleftrightarrow> n < 128"
proof -
  assume n: "n < 256"
  have "(of_nat n :: byte) AND 2 ^ 7 = 0 \<longleftrightarrow> \<not> bit (of_nat n :: byte) 7"
    by (rule and_exp_eq_0_iff_not_bit)
  also have "\<dots> \<longleftrightarrow> even (n div 128)"
    by (subst bit_of_nat_iff) (simp add: bit_iff_odd)
  also have "\<dots> \<longleftrightarrow> n < 128"
  proof -
    have "n div 128 < 2" using n by (simp add: less_mult_imp_div_less)
    then consider "n div 128 = 0" | "n div 128 = 1" by linarith
    then show ?thesis by cases (auto simp: div_eq_0_iff intro: ccontr)
  qed
  finally show ?thesis by simp
qed

lemma byte_high:
  "n < 128 \<Longrightarrow> (of_nat n :: byte) AND 0x80 = 0"
  "n < 256 \<Longrightarrow> 128 \<le> n \<Longrightarrow> (of_nat n :: byte) AND 0x80 \<noteq> 0"
  using byte_high_iff [of n] by simp_all

lemma ucast_byte: "n < 256 \<Longrightarrow> (ucast (of_nat n :: byte) :: 'a::len word) = of_nat n"
  by (simp add: unsigned_of_nat take_bit_nat_eq_self)

lemma nat_varint_split: "(n mod 128) OR push_bit 7 (n div 128) = (n :: nat)"
proof (rule bit_eqI)
  fix i
  have "n mod 128 = take_bit 7 n" "n div 128 = drop_bit 7 n"
    by (simp_all add: take_bit_eq_mod drop_bit_eq_div)
  then show "bit ((n mod 128) OR push_bit 7 (n div 128)) i = bit n i"
    by (cases "i < 7") (auto simp: bit_simps)
qed

lemma varint_split:
  "push_bit k (of_nat (n mod 128) :: 'a::len word) OR push_bit (k + 7) (of_nat (n div 128)) = push_bit k (of_nat n)"
proof -
  have "push_bit k (of_nat (n mod 128) OR push_bit 7 (of_nat (n div 128)) :: 'a word) = push_bit k (of_nat n)"
    by (metis nat_varint_split of_nat_or_eq push_bit_of_nat)
  then show ?thesis
    by (simp add: push_bit_push_bit add.commute)
qed


lemma byte_and_0F: "n < 16 \<Longrightarrow> (of_nat n :: byte) AND 0x0F = of_nat n" "n < 16 \<Longrightarrow> (of_nat n :: byte) AND 0x70 = 0"
proof -
  assume n: "n < 16"
  show "(of_nat n :: byte) AND 0x0F = of_nat n"
    using of_nat_and_eq [of n 15, where 'a = byte] n by (simp add: nat_and_mask)
  have "(of_nat n :: byte) AND 0x70 = (of_nat n AND 0x0F) AND 0x70"
    using of_nat_and_eq [of n 15, where 'a = byte] n by (simp add: nat_and_mask)
  then show "(of_nat n :: byte) AND 0x70 = 0"
    by (simp add: and.assoc)
qed

lemma varint32_loop_enc:
  assumes "n < 2 ^ (32 - 7 * k)" "0 < k" "k \<le> 4"
  shows "varint32_loop (7 * k) r (enc_varint n @ rest) = Some (r OR push_bit (7 * k) (of_nat n), rest)"
  using assms
proof (induction n arbitrary: k r rule: enc_varint.induct)
  case (1 n)
  show ?case
  proof (cases "n < 128")
    case True
    have "k \<in> {1, 2, 3} \<or> k = 4"
      using "1.prems"(2,3) by auto
    then consider "k \<in> {1, 2, 3}" | "k = 4" "n < 16"
      using "1.prems"(1) by auto
    then show ?thesis
      by cases (use True in \<open>auto simp: enc_varint.simps [of n] byte_high byte_and_7F byte_and_0F ucast_byte\<close>)
  next
    case False
    with "1.prems" have k: "k \<in> {1, 2, 3}"
      by (cases "k = 4") (auto simp: numeral_eq_Suc)
    have bound: "n div 128 < 2 ^ (32 - 7 * Suc k)"
      using "1.prems"(1) k by (auto simp: less_mult_imp_div_less)
    have byte: "(of_nat (128 + n mod 128) :: byte) AND 0x7F = of_nat (n mod 128)"
      "(of_nat (128 + n mod 128) :: byte) AND 0x80 \<noteq> 0"
      using byte_and_7F [of "128 + n mod 128"] byte_high(2) [of "128 + n mod 128"] by simp_all
    have "varint32_loop (7 * Suc k) (r OR push_bit (7 * k) (of_nat (n mod 128))) (enc_varint (n div 128) @ rest) =
        Some (r OR push_bit (7 * k) (of_nat n), rest)"
    proof -
      have split: "(r OR push_bit (7 * k) (of_nat (n mod 128))) OR push_bit (7 * Suc k) (of_nat (n div 128)) =
          r OR push_bit (7 * k) (of_nat n)"
        using varint_split [of "7 * k" n, where 'a = 32] by (simp only: or.assoc mult_Suc_right add.commute)
      show ?thesis
        using "1.IH" [OF False bound, of "r OR push_bit (7 * k) (of_nat (n mod 128))"] k unfolding split by auto
    qed
    then show ?thesis
      using False k byte by (auto simp: enc_varint.simps [of n] ucast_byte Let_def)
  qed
qed

lemma pb_decode_varint32_enc:
  assumes "n < 2 ^ 32"
  shows "pb_decode_varint32 (enc_varint n @ rest) = Some (of_nat n, rest)"
proof (cases "n < 128")
  case True
  then show ?thesis
    by (simp add: enc_varint.simps [of n] byte_high ucast_byte)
next
  case False
  have byte: "(of_nat (128 + n mod 128) :: byte) AND 0x7F = of_nat (n mod 128)"
    "(of_nat (128 + n mod 128) :: byte) AND 0x80 \<noteq> 0"
    using byte_and_7F [of "128 + n mod 128"] byte_high(2) [of "128 + n mod 128"] by simp_all
  have "varint32_loop 7 (of_nat (n mod 128)) (enc_varint (n div 128) @ rest) = Some (of_nat n, rest)"
    using varint32_loop_enc [of "n div 128" 1 "of_nat (n mod 128)" rest] assms varint_split [of 0 n, where 'a = 32]
    by (simp add: less_mult_imp_div_less)
  then show ?thesis
    using False byte by (simp add: enc_varint.simps [of n] ucast_byte)
qed


lemma varint_loop_step:
  assumes "m < 256" "bitpos < 63 \<or> m < 2"
  shows "varint_loop bitpos r (of_nat m # bs) =
    (let r' = r OR push_bit bitpos (of_nat (m mod 128)) in if m < 128 then Some (r', bs) else varint_loop (bitpos + 7) r' bs)"
proof -
  have "(of_nat m :: byte) AND 0xFE = 0" if "m < 2"
    using that by (auto simp: less_2_cases_iff)
  with assms have g: "\<not> (63 \<le> bitpos \<and> (of_nat m :: byte) AND 0xFE \<noteq> 0)"
    by linarith
  have "m mod 128 < 256" by (rule less_trans [of _ 128]) simp_all
  with assms(1) g show ?thesis
    by (simp only: varint_loop.simps byte_and_7F byte_high_iff ucast_byte Let_def if_False not_less split: if_split) simp
qed

lemma varint_loop_enc:
  assumes "n < 2 ^ (64 - 7 * k)" "k \<le> 9"
  shows "varint_loop (7 * k) r (enc_varint n @ rest) = Some (r OR push_bit (7 * k) (of_nat n), rest)"
  using assms
proof (induction n arbitrary: k r rule: enc_varint.induct)
  case (1 n)
  show ?case
  proof (cases "n < 128")
    case True
    have "7 * k < 63 \<or> n < 2"
    proof (cases "k = 9")
      case True with "1.prems"(1) show ?thesis by simp
    qed (use "1.prems"(2) in simp)
    with True show ?thesis
      by (simp add: enc_varint.simps [of n] varint_loop_step Let_def del: varint_loop.simps)
  next
    case False
    have k: "k < 9"
    proof (rule ccontr)
      assume "\<not> k < 9"
      with "1.prems" False show False by simp
    qed
    have "64 - 7 * k = 7 + (57 - 7 * k)"
      using k by linarith
    moreover have "64 - 7 * Suc k = 57 - 7 * k"
      by simp
    ultimately
    obtain e where e: "64 - 7 * k = 7 + e" "64 - 7 * Suc k = e" by metis
    have bound: "n div 128 < 2 ^ (64 - 7 * Suc k)"
      using "1.prems"(1) unfolding e by (simp add: power_add less_mult_imp_div_less mult.commute)
    have split: "(r OR push_bit (7 * k) (of_nat (n mod 128))) OR push_bit (7 * Suc k) (of_nat (n div 128)) =
        r OR push_bit (7 * k) (of_nat n)"
      using varint_split [of "7 * k" n, where 'a = 64] by (simp only: or.assoc mult_Suc_right add.commute)
    have "Suc k \<le> 9" using k by simp
    from "1.IH" [OF False bound this, of "r OR push_bit (7 * k) (of_nat (n mod 128))"]
    have rec: "varint_loop (7 * k + 7) (r OR push_bit (7 * k) (of_nat (n mod 128))) (enc_varint (n div 128) @ rest) =
        Some (r OR push_bit (7 * k) (of_nat n), rest)"
      unfolding split by (simp only: mult_Suc_right add.commute)
    have m: "128 + n mod 128 < 256" "(128 + n mod 128) mod 128 = n mod 128" "\<not> 128 + n mod 128 < 128" "7 * k < 63"
      using k by simp_all
    have "enc_varint n @ rest = of_nat (128 + n mod 128) # (enc_varint (n div 128) @ rest)"
      using False by (subst enc_varint.simps) simp
    with varint_loop_step [of "128 + n mod 128" "7 * k" r "enc_varint (n div 128) @ rest"] m rec show ?thesis
      by (simp only: Let_def) simp
  qed
qed

lemma pb_decode_varint_enc: "n < 2 ^ 64 \<Longrightarrow> pb_decode_varint (enc_varint n @ rest) = Some (of_nat n, rest)"
  using varint_loop_enc [of n 0 0 rest] by (simp add: pb_decode_varint_def)

lemma pb_raw_varint_enc: "pb_raw_varint (enc_varint n @ rest) = Some (enc_varint n, rest)"
proof (induction n rule: enc_varint.induct)
  case (1 n)
  show ?case
    using 1 byte_high(2) [of "128 + n mod 128"] by (auto simp: enc_varint.simps [of n] byte_high)
qed

section \<open>Writing fields\<close>

text \<open>The writer the protobuf wire format prescribes, as the reference the decoder is measured
  against.\<close>

fun enc_wire :: "wire \<Rightarrow> byte list" where
  "enc_wire (WVarint v) = v"
| "enc_wire (W64 v) = v"
| "enc_wire (WLen p) = enc_varint (length p) @ p"
| "enc_wire (W32 v) = v"

fun wire_type :: "wire \<Rightarrow> nat" where
  "wire_type (WVarint v) = 0" | "wire_type (W64 v) = 1" | "wire_type (WLen p) = 2" | "wire_type (W32 v) = 5"

fun wire_wf :: "wire \<Rightarrow> bool" where
  "wire_wf (WVarint v) = (pb_raw_varint v = Some (v, []))"
| "wire_wf (W64 v) = (length v = 8)"
| "wire_wf (WLen p) = (length p < 2 ^ 32)"
| "wire_wf (W32 v) = (length v = 4)"

definition enc_field :: "nat \<times> wire \<Rightarrow> byte list" where
  "enc_field fw = enc_varint (8 * fst fw + wire_type (snd fw)) @ enc_wire (snd fw)"

definition field_wf :: "nat \<times> wire \<Rightarrow> bool" where
  "field_wf fw \<longleftrightarrow> 0 < fst fw \<and> fst fw < 2 ^ 29 \<and> wire_wf (snd fw)"

lemma pb_raw_varint_append: "pb_raw_varint v = Some (v', []) \<Longrightarrow> pb_raw_varint (v @ rest) = Some (v', rest)"
  by (induction v arbitrary: v') (auto split: if_splits)

lemma pb_wire_enc: "wire_wf w \<Longrightarrow> pb_wire (wire_type w) (enc_wire w @ rest) = Some (w, rest)"
  by (cases w) (auto simp: pb_wire_def pb_read_def pb_string_payload_def pb_raw_varint_append
      pb_decode_varint32_enc unat_of_nat)

lemma wire_type_less: "wire_type w < 8"
  by (cases w) simp_all

lemma u32_tag_parts:
  assumes "m < 2 ^ 32"
  shows "unat (drop_bit 3 (of_nat m :: u32)) = m div 8" "unat ((of_nat m :: u32) AND 7) = m mod 8"
proof -
  have m: "unat (of_nat m :: u32) = m"
    using assms by (simp add: unat_of_nat)
  show "unat (drop_bit 3 (of_nat m :: u32)) = m div 8"
    using unat_drop_bit_eq [of 3 "of_nat m :: u32"] unfolding m by (simp add: drop_bit_eq_div [where 'a = nat])
  have "(of_nat m :: u32) AND 7 = take_bit 3 (of_nat m)"
    by (simp add: take_bit_eq_mask mask_eq_exp_minus_1)
  then show "unat ((of_nat m :: u32) AND 7) = m mod 8"
    using unsigned_take_bit_eq [of 3 "of_nat m :: u32", where 'a = nat] unfolding m by (simp add: take_bit_eq_mod)
qed

lemma pb_decode_tag_enc:
  assumes "t < 2 ^ 29" "wt < 8"
  shows "pb_decode_tag (enc_varint (8 * t + wt) @ rest) = Some (t, wt, rest)"
proof -
  have m: "8 * t + wt < 2 ^ 32" "(8 * t + wt) div 8 = t" "(8 * t + wt) mod 8 = wt" using assms by simp_all
  show ?thesis
    by (simp only: pb_decode_tag_def pb_decode_varint32_enc [OF m(1)] option.simps prod.case u32_tag_parts [OF m(1)] m(2,3))
qed

lemma pb_next_field_enc: "field_wf fw \<Longrightarrow> pb_next_field (enc_field fw @ rest) = Some (fw, rest)"
  by (cases fw) (auto simp: pb_next_field_def enc_field_def field_wf_def pb_decode_tag_enc wire_type_less pb_wire_enc)

lemma enc_field_not_Nil [simp]: "enc_field fw \<noteq> []"
  by (simp add: enc_field_def enc_varint.simps)

lemma pb_fields_enc_Cons: "field_wf fw \<Longrightarrow> pb_fields (enc_field fw @ rest) = map_option (Cons fw) (pb_fields rest)"
  by (subst pb_fields.simps) (simp add: pb_next_field_enc)

lemma pb_fields_enc: "list_all field_wf fs \<Longrightarrow> pb_fields (concat (map enc_field fs)) = Some fs"
  by (induction fs) (simp_all add: pb_fields_enc_Cons, simp add: pb_fields.simps)

text \<open>Conversely, every field the decoder reads is well formed.\<close>

lemma pb_raw_varint_wf: "pb_raw_varint bs = Some (v, rest) \<Longrightarrow> pb_raw_varint v = Some (v, [])"
  by (induction bs arbitrary: v) (auto split: if_splits)

lemma unat_u32_less: "unat (a :: u32) < 4294967296"
  using unsigned_less [of a, where 'a = nat] by simp

lemma pb_wire_wf: "pb_wire wt bs = Some (w, rest) \<Longrightarrow> wire_wf w"
  by (auto simp: pb_wire_def pb_read_def pb_string_payload_def pb_raw_varint_wf unat_u32_less
      split: if_splits option.splits)

lemma pb_next_field_wf: "pb_next_field bs = Some (fw, rest) \<Longrightarrow> field_wf fw"
proof -
  assume "pb_next_field bs = Some (fw, rest)"
  then obtain temp :: u32 and r w where "pb_wire (unat (temp AND 7)) r = Some (w, rest)" "fw = (unat (drop_bit 3 temp), w)"
    "unat (drop_bit 3 temp) \<noteq> 0"
    by (auto simp: pb_next_field_def pb_decode_tag_def split: option.splits if_splits)
  moreover have "unat (drop_bit 3 temp) < 2 ^ 29" for temp :: u32
  proof -
    have "unat (drop_bit 3 temp) = unat temp div 8"
      using unat_drop_bit_eq [of 3 temp] by (simp add: drop_bit_eq_div [where 'a = nat])
    then show ?thesis
      using unsigned_less [of temp, where 'a = nat] by simp
  qed
  ultimately show ?thesis
    by (simp add: field_wf_def pb_wire_wf)
qed

lemma pb_fields_wf: "pb_fields bs = Some fs \<Longrightarrow> list_all field_wf fs"
  by (induction bs arbitrary: fs rule: pb_fields.induct)
     (subst (asm) (2) pb_fields.simps, auto split: if_splits option.splits dest: pb_next_field_wf)

section \<open>Building messages\<close>

definition msg :: "(nat \<times> wire) list \<Rightarrow> byte list" where
  "msg fs = concat (map enc_field fs)"

definition text_field :: "nat \<Rightarrow> string \<Rightarrow> nat \<times> wire" where
  "text_field t s = (t, WLen (str_bytes s))"

definition int_field :: "nat \<Rightarrow> nat \<Rightarrow> nat \<times> wire" where
  "int_field t n = (t, WVarint (enc_varint n))"

lemma fold_opt_append: "fold_opt f (xs @ ys) s = (case fold_opt f xs s of None \<Rightarrow> None | Some t \<Rightarrow> fold_opt f ys t)"
  by (induction xs arbitrary: s) (auto split: option.split)

lemma pb_decode_msg: "list_all field_wf fs \<Longrightarrow> pb_decode f (msg fs) s = fold_opt f fs s"
  by (simp add: pb_decode_def msg_def pb_fields_enc)

lemma int_field_wf: "0 < t \<Longrightarrow> t < 2 ^ 29 \<Longrightarrow> field_wf (int_field t n)"
  using pb_raw_varint_enc [of n "[]"] by (simp add: field_wf_def int_field_def)

lemma int_field_value: "n < 2 ^ 64 \<Longrightarrow> pb_dec_uint64 (snd (int_field t n)) = Some (of_nat n)"
  using pb_decode_varint_enc [of n "[]"] by (simp add: int_field_def pb_dec_uint64_def)

text \<open>C27. The field decoder inverts the wire format: a list of fields is well formed (tag between 1 and
  2^29 - 1, fixed-size values of their size, lengths below 2^32, a varint that ends) if and only if
  decoding the bytes of its fields gives that list back.\<close>

theorem pb_fields_roundtrip:
  "list_all field_wf fs \<longleftrightarrow> pb_fields (concat (map enc_field fs)) = Some fs"
  using pb_fields_enc pb_fields_wf by blast

end
