(* ===== verification/Display_Safety.thy ===== *)
theory Display_Safety
  imports Display_Walk Wire_Format
begin

text \<open>
  What a clear review shows. A screen is filled from the fields of its configuration only, and it is dropped
  unless every field was stored and every mandatory one was found. Together with the choice of the
  screen this gives the property of a node part that turns clear signing on, with a sample part
  built from its protobuf fields.
\<close>

section \<open>Formatting\<close>

lemma fields_upd_field: "fields_of (upd_field i g c) = (fields_of c)[i := g (fields_of c ! i)]"
  by (cases "dx_tx_fields c") (simp_all add: upd_field_def fields_of_def)

lemma fields_of_updates [simp]:
  "fields_of (c\<lparr>dx_allocs := n\<rparr>) = fields_of c" "fields_of (c\<lparr>dx_unknown_token := b\<rparr>) = fields_of c"
  "fields_of (c\<lparr>dx_review_title := t\<rparr>) = fields_of c" "fields_of (c\<lparr>dx_review_finish := t\<rparr>) = fields_of c"
  by (simp_all add: fields_of_def)

definition ticker_path :: "string \<Rightarrow> bool" where
  "ticker_path p \<longleftrightarrow> p \<in> {fc_path INSTRUMENT_ID_FIELD, fc_path PROXY_INSTRUMENT_ID_FIELD, fc_path INSTRUMENT_ID_ADMIN_FIELD,
     fc_path INSTRUMENT_ID_PROXY_ADMIN_FIELD}"

text \<open>What formatting may change of a field: the text of its value, its failure flag, and, for the fields that
  a known ticker replaces, whether it is shown.\<close>

definition field_kept :: "tx_field \<Rightarrow> tx_field \<Rightarrow> bool" where
  "field_kept f f' \<longleftrightarrow> tf_config f' = tf_config f \<and> (tf_value f' = None \<longleftrightarrow> tf_value f = None) \<and>
     (tf_display f' = tf_display f \<or> ticker_path (field_path_of f))"

definition format_rel :: "display_ctx \<Rightarrow> display_ctx \<Rightarrow> bool" where
  "format_rel c c' \<longleftrightarrow> list_all2 field_kept (fields_of c) (fields_of c') \<and> dx_state c' = dx_state c \<and>
     (dx_tx_fields c' = None \<longleftrightarrow> dx_tx_fields c = None) \<and>
     (dx_review_title c' = dx_review_title c \<or>
      dx_review_title c = Some TOKEN_TRANSFER_REVIEW_TITLE \<and> dx_review_title c' = Some NATIVE_COIN_TRANSFER_REVIEW_TITLE)"

lemma field_kept_refl: "field_kept f f"
  by (simp add: field_kept_def)

lemma field_kept_trans: "field_kept f g \<Longrightarrow> field_kept g h \<Longrightarrow> field_kept f h"
  by (auto simp: field_kept_def field_path_of_def)

lemma format_rel_refl: "format_rel c c"
  by (simp add: format_rel_def list_all2_refl field_kept_refl)

lemma transfer_titles_differ: "NATIVE_COIN_TRANSFER_REVIEW_TITLE \<noteq> TOKEN_TRANSFER_REVIEW_TITLE"
  by (simp add: TOKEN_TRANSFER_REVIEW_TITLE_def NATIVE_COIN_TRANSFER_REVIEW_TITLE_def)

lemma format_rel_trans:
  assumes "format_rel c d" "format_rel d e"
  shows "format_rel c e"
proof -
  have "list_all2 field_kept (fields_of c) (fields_of d)" "list_all2 field_kept (fields_of d) (fields_of e)"
    using assms by (simp_all add: format_rel_def)
  then have "list_all2 field_kept (fields_of c) (fields_of e)"
    unfolding list_all2_conv_all_nth using field_kept_trans by (metis (no_types))
  then show ?thesis
    using assms transfer_titles_differ unfolding format_rel_def by metis
qed

lemma list_all2_update_right:
  assumes "list_all2 P xs ys" "i < length ys \<Longrightarrow> P (xs ! i) y"
  shows "list_all2 P xs (ys[i := y])"
proof -
  have "P (xs ! j) (ys[i := y] ! j)" if "j < length ys" for j
    using assms that by (cases "j = i") (auto simp: list_all2_conv_all_nth)
  with assms(1) show ?thesis by (auto simp: list_all2_conv_all_nth)
qed

lemma format_rel_upd:
  assumes "format_rel c d" "i < length (fields_of d) \<Longrightarrow> field_kept (fields_of d ! i) (g (fields_of d ! i))"
  shows "format_rel c (upd_field i g d)"
proof (rule format_rel_trans [OF assms(1)])
  have "list_all2 field_kept (fields_of d) (fields_of (upd_field i g d))"
    unfolding fields_upd_field by (intro list_all2_update_right assms(2)) (auto simp: list_all2_refl field_kept_refl)
  then show "format_rel d (upd_field i g d)" by (auto simp: format_rel_def upd_field_def)
qed

lemma format_rel_flags [simp]:
  "format_rel c (d\<lparr>dx_allocs := n\<rparr>) \<longleftrightarrow> format_rel c d" "format_rel c (d\<lparr>dx_unknown_token := b\<rparr>) \<longleftrightarrow> format_rel c d"
  by (simp_all add: format_rel_def)

lemma last_field_path:
  assumes "last_field P fs = Some i"
  shows "i < length fs \<and> P (field_path_of (fs ! i))"
proof -
  let ?is = "filter (\<lambda>i. P (field_path_of (fs ! i))) [0..<length fs]"
  have "?is \<noteq> []" "i = last ?is"
    using assms by (auto simp: last_field_def split: list.splits)
  then have "i \<in> set ?is" by (metis last_in_set)
  then show ?thesis by simp
qed

text \<open>A formatting callback on field \<^verbatim>\<open>i\<close> keeps the fields, and may record a failure only on that one.\<close>

definition fails_only :: "nat \<Rightarrow> display_ctx \<Rightarrow> display_ctx \<Rightarrow> bool" where
  "fails_only i c c' \<longleftrightarrow> (\<forall>j < length (fields_of c). j \<noteq> i \<longrightarrow> tf_store_failed (fields_of c' ! j) = tf_store_failed (fields_of c ! j))"

lemma fails_only_refl: "fails_only i c c"
  by (simp add: fails_only_def)

lemma fails_only_upd:
  assumes "fails_only i c d" "length (fields_of d) = length (fields_of c)" "j = i \<or> (\<forall>f. tf_store_failed (g f) = tf_store_failed f)"
  shows "fails_only i c (upd_field j g d)"
proof -
  have "tf_store_failed ((fields_of d)[j := g (fields_of d ! j)] ! k) = tf_store_failed (fields_of d ! k)"
    if "k < length (fields_of d)" "k \<noteq> i" for k
    using assms(3) that by (cases "k = j") auto
  with assms show ?thesis by (simp add: fails_only_def fields_upd_field)
qed

lemma fails_only_flags [simp]:
  "fails_only i c (d\<lparr>dx_allocs := n\<rparr>) \<longleftrightarrow> fails_only i c d" "fails_only i c (d\<lparr>dx_unknown_token := b\<rparr>) \<longleftrightarrow> fails_only i c d"
  "fails_only i c (d\<lparr>dx_review_title := t\<rparr>) \<longleftrightarrow> fails_only i c d" "fails_only i c (d\<lparr>dx_review_finish := t\<rparr>) \<longleftrightarrow> fails_only i c d"
  by (simp_all add: fails_only_def)

lemma length_upd_field [simp]: "length (fields_of (upd_field i g c)) = length (fields_of c)"
  by (simp add: fields_upd_field)

definition formats :: "nat \<Rightarrow> display_ctx \<Rightarrow> display_ctx \<Rightarrow> bool" where
  "formats i c c' \<longleftrightarrow> format_rel c c' \<and> fails_only i c c' \<and> length (fields_of c') = length (fields_of c)"

lemma formats_refl: "formats i c c"
  by (simp add: formats_def format_rel_refl fails_only_refl)

lemma formats_upd:
  assumes "formats i c d" "j = i \<or> (\<forall>f. tf_store_failed (g f) = tf_store_failed f)"
    "j < length (fields_of d) \<Longrightarrow> field_kept (fields_of d ! j) (g (fields_of d ! j))"
  shows "formats i c (upd_field j g d)"
  using assms by (auto simp: formats_def intro: format_rel_upd fails_only_upd)

lemma formats_flags [simp]:
  "formats i c (d\<lparr>dx_allocs := n\<rparr>) \<longleftrightarrow> formats i c d" "formats i c (d\<lparr>dx_unknown_token := b\<rparr>) \<longleftrightarrow> formats i c d"
  by (simp_all add: formats_def)

lemma formats_native_title:
  assumes "formats i c d" "dx_review_title d = Some TOKEN_TRANSFER_REVIEW_TITLE"
  shows "formats i c (d\<lparr>dx_review_title := Some NATIVE_COIN_TRANSFER_REVIEW_TITLE, dx_review_finish := f\<rparr>)"
  using assms transfer_titles_differ by (auto simp: formats_def format_rel_def)

lemma field_kept_updates:
  "field_kept f (f\<lparr>tf_value := map_option h (tf_value f)\<rparr>)" "field_kept f (f\<lparr>tf_store_failed := b\<rparr>)"
  "ticker_path (field_path_of f) \<Longrightarrow> field_kept f (f\<lparr>tf_display := b\<rparr>)"
  "tf_value f \<noteq> None \<Longrightarrow> field_kept f (f\<lparr>tf_value := Some v\<rparr>)"
  by (auto simp: field_kept_def field_path_of_def)

lemma field_path_kept:
  assumes "formats i c d" "j < length (fields_of c)"
  shows "field_path_of (fields_of d ! j) = field_path_of (fields_of c ! j)"
proof -
  have "field_kept (fields_of c ! j) (fields_of d ! j)"
    using assms list_all2_nthD by (auto simp: formats_def format_rel_def)
  then show ?thesis by (simp add: field_kept_def field_path_of_def)
qed

lemma alloc_split:
  "(case app_mem_alloc env c of (False, c1) \<Rightarrow> f c1 | (True, c1) \<Rightarrow> g c1) =
     (let c1 = c\<lparr>dx_allocs := dx_allocs c + 1\<rparr> in if de_mem env (dx_allocs c) then g c1 else f c1)"
  by (simp add: app_mem_alloc_def Let_def split: bool.split)

lemma native_amount_formats: "formats i c (format_native_amount_field env i c)"
proof -
  have "formats i c (upd_field i (\<lambda>f. f\<lparr>tf_value := map_option format_amount_field (tf_value f)\<rparr>) c)"
    by (intro formats_upd formats_refl field_kept_updates) simp
  then show ?thesis
    unfolding format_native_amount_field_def Let_def alloc_split
    by (simp split: if_split) (intro conjI impI formats_upd field_kept_updates; simp)
qed

lemma timestamp_formats:
  assumes "tf_value (fields_of c ! i) \<noteq> None"
  shows "formats i c (format_timestamp_field env i c)"
proof -
  obtain v where v: "tf_value (fields_of c ! i) = Some v" using assms by blast
  show ?thesis
    unfolding format_timestamp_field_def v Let_def alloc_split option.case
    by (simp split: if_split) (intro conjI impI formats_upd field_kept_updates; simp add: v formats_refl)
qed

lemma token_amount_formats: "formats i c (format_token_amount_field env i c)"
proof -
  let ?c = "upd_field i (\<lambda>f. f\<lparr>tf_value := map_option format_amount_field (tf_value f)\<rparr>) c"
  have base: "formats i c ?c"
    by (intro formats_upd formats_refl field_kept_updates) simp
  define d where "d = ?c"
  let ?inst = "last_field (\<lambda>p. p = fc_path INSTRUMENT_ID_FIELD \<or> p = fc_path PROXY_INSTRUMENT_ID_FIELD) (fields_of d)"
  let ?adm = "last_field (\<lambda>p. p = fc_path INSTRUMENT_ID_ADMIN_FIELD \<or> p = fc_path INSTRUMENT_ID_PROXY_ADMIN_FIELD) (fields_of d)"
  have hidden: "formats i c (upd_field ai (\<lambda>f. f\<lparr>tf_display := False\<rparr>) (upd_field ii (\<lambda>f. f\<lparr>tf_display := False\<rparr>) e))"
    if "?inst = Some ii" "?adm = Some ai" "formats i c e" for ii ai e
  proof -
    have "ticker_path (field_path_of (fields_of d ! ii))" "ticker_path (field_path_of (fields_of d ! ai))"
      "ii < length (fields_of c)" "ai < length (fields_of c)"
      using last_field_path [OF that(1)] last_field_path [OF that(2)] by (auto simp: ticker_path_def d_def)
    then have path: "ticker_path (field_path_of (fields_of c ! ii))" "ticker_path (field_path_of (fields_of c ! ai))"
      and len: "ii < length (fields_of c)" "ai < length (fields_of c)"
      using field_path_kept [OF base] by (auto simp: d_def)
    have one: "formats i c (upd_field ii (\<lambda>f. f\<lparr>tf_display := False\<rparr>) e)"
      using path(1) field_path_kept [OF that(3) len(1)] by (intro formats_upd [OF that(3)] field_kept_updates) auto
    show ?thesis
      using path(2) field_path_kept [OF one len(2)] by (intro formats_upd [OF one] field_kept_updates) auto
  qed
  have valued: "formats i c (upd_field i (\<lambda>f. f\<lparr>tf_value := map_option h (tf_value f)\<rparr>) (d\<lparr>dx_allocs := n\<rparr>))"
    and failed: "formats i c (upd_field i (\<lambda>f. f\<lparr>tf_store_failed := True\<rparr>) (d\<lparr>dx_allocs := n\<rparr>))" for h n
    by (intro formats_upd field_kept_updates; simp add: base [folded d_def])+
  show ?thesis
    unfolding format_token_amount_field_def Let_def alloc_split d_def [symmetric]
    by (auto split: option.split prod.split simp: base [folded d_def]
        intro!: formats_native_title hidden valued failed)
qed

lemma callback_formats:
  assumes "tf_value (fields_of c ! i) \<noteq> None"
  shows "formats i c (format_callback_fun cb env i c)"
  using assms by (cases cb) (auto simp: formats_refl native_amount_formats token_amount_formats timestamp_formats)

text \<open>A field is settled when it did not fail and, if it is mandatory, has a value.\<close>

definition settled :: "tx_field \<Rightarrow> bool" where
  "settled f \<longleftrightarrow> \<not> tf_store_failed f \<and>
     (case tf_config f of None \<Rightarrow> True | Some fc \<Rightarrow> fc_mandatory fc \<longrightarrow> tf_value f \<noteq> None)"

lemma format_step_ok:
  assumes "format_step env i c = FMT_OK c'" "i < length (fields_of c)" "tf_config (fields_of c ! i) \<noteq> None"
  shows "formats i c c' \<and> settled (fields_of c' ! i)"
proof -
  obtain cfg where cfg: "tf_config (fields_of c ! i) = Some cfg" using assms(3) by blast
  define d where "d = (if tf_value (fields_of c ! i) \<noteq> None \<and> tf_display (fields_of c ! i)
      then format_callback_fun (fc_format cfg) env i c else c)"
  have step: "c' = d" "\<not> tf_store_failed (fields_of d ! i)" "fc_mandatory cfg \<Longrightarrow> tf_value (fields_of c ! i) \<noteq> None"
    using assms(1) by (auto simp: format_step_def Let_def cfg d_def split: if_splits)
  have f: "formats i c d"
    unfolding d_def using callback_formats formats_refl by auto
  have "field_kept (fields_of c ! i) (fields_of d ! i)"
    using f assms(2) list_all2_nthD by (auto simp: formats_def format_rel_def)
  with step cfg have "settled (fields_of d ! i)" by (simp add: settled_def field_kept_def)
  with f step(1) show ?thesis by simp
qed

lemma settled_kept:
  assumes "formats i c d" "j < length (fields_of c)" "j \<noteq> i" "settled (fields_of c ! j)"
  shows "settled (fields_of d ! j)"
proof -
  have "field_kept (fields_of c ! j) (fields_of d ! j)"
    using assms(1,2) list_all2_nthD by (auto simp: formats_def format_rel_def)
  with assms show ?thesis by (auto simp: settled_def field_kept_def formats_def fails_only_def split: option.split)
qed

lemma list_all2_in2: "list_all2 P xs ys \<Longrightarrow> y \<in> set ys \<Longrightarrow> \<exists>x \<in> set xs. P x y"
  by (induction rule: list_all2_induct) auto

lemma list_all2_in1: "list_all2 P xs ys \<Longrightarrow> x \<in> set xs \<Longrightarrow> \<exists>y \<in> set ys. P x y"
  by (induction rule: list_all2_induct) auto

lemma format_loop_ok:
  assumes "format_loop env ks c = FMT_OK c'" "set ks \<subseteq> {..<length (fields_of c)}" "distinct ks"
    "\<forall>f \<in> set (fields_of c). tf_config f \<noteq> None" "\<forall>j < length (fields_of c). j \<notin> set ks \<longrightarrow> settled (fields_of c ! j)"
  shows "format_rel c c' \<and> length (fields_of c') = length (fields_of c) \<and> (\<forall>f \<in> set (fields_of c'). settled f)"
  using assms
proof (induction ks arbitrary: c)
  case Nil
  then show ?case by (auto simp: format_rel_refl in_set_conv_nth)
next
  case (Cons i ks)
  obtain d where d: "format_step env i c = FMT_OK d" "format_loop env ks d = FMT_OK c'"
    using Cons.prems(1) by (auto split: format_result.splits)
  have i: "i < length (fields_of c)" using Cons.prems(2) by simp
  have f: "formats i c d" "settled (fields_of d ! i)"
    using format_step_ok [OF d(1) i] Cons.prems(4) i by auto
  then have len: "length (fields_of d) = length (fields_of c)" and rel: "list_all2 field_kept (fields_of c) (fields_of d)"
    by (auto simp: formats_def format_rel_def)
  have "tf_config f \<noteq> None" if "f \<in> set (fields_of d)" for f
    using list_all2_in2 [OF rel that] Cons.prems(4) by (auto simp: field_kept_def)
  moreover have "settled (fields_of d ! j)" if "j < length (fields_of d)" "j \<notin> set ks" for j
    using that f settled_kept [OF f(1)] Cons.prems(5) len by (cases "j = i") auto
  ultimately have "format_rel d c' \<and> length (fields_of c') = length (fields_of d) \<and> (\<forall>f \<in> set (fields_of c'). settled f)"
    using Cons.IH [OF d(2)] Cons.prems(2,3) len by simp
  then show ?case using f(1) format_rel_trans len by (auto simp: formats_def)
qed

section \<open>A filled screen\<close>

text \<open>What a filled screen shows of the configuration it was opened for.\<close>

definition screen_filled :: "display_config \<Rightarrow> cstring \<Rightarrow> (string \<times> byte list) list \<Rightarrow> bool" where
  "screen_filled cfg title pairs \<longleftrightarrow>
     (title = Some (dc_review_title cfg) \<or>
      dc_review_title cfg = TOKEN_TRANSFER_REVIEW_TITLE \<and> title = Some NATIVE_COIN_TRANSFER_REVIEW_TITLE) \<and>
     (\<forall>item \<in> set (map fst pairs). \<exists>fc. Some fc \<in> set (screen_configs cfg) \<and> fc_item_name fc = Some item) \<and>
     (\<forall>fc item. Some fc \<in> set (screen_configs cfg) \<and> fc_mandatory fc \<and> \<not> ticker_path (fc_path fc) \<and>
        fc_item_name fc = Some item \<longrightarrow> item \<in> set (map fst pairs))"

lemma display_pairs_iff:
  "(item, v) \<in> set (display_pairs fs) \<longleftrightarrow>
     (\<exists>f fc. f \<in> set fs \<and> tf_value f = Some v \<and> tf_config f = Some fc \<and> fc_item_name fc = Some item \<and> tf_display f)"
proof -
  have "(item, v) \<in> set (case (tf_value f, Option.bind (tf_config f) fc_item_name) of
        (Some w, Some it) \<Rightarrow> if tf_display f then [(it, w)] else [] | _ \<Rightarrow> []) \<longleftrightarrow>
      (\<exists>fc. tf_value f = Some v \<and> tf_config f = Some fc \<and> fc_item_name fc = Some item \<and> tf_display f)" for f
    by (cases "tf_value f"; cases "tf_config f"; cases "fc_item_name (the (tf_config f))") auto
  then show ?thesis unfolding display_pairs_def set_concat set_map by blast
qed

lemma screen_configs_present: "fc \<in> set (screen_configs cfg) \<Longrightarrow> fc \<noteq> None"
  using set_update_subset_insert [of "map Some (dc_fields cfg)" PREAPPROVAL_ASSET_FIELD_INDEX "Some PREAPPROVAL_ASSET_FIELD"]
  unfolding screen_configs_def by (auto split: if_splits)

lemma filled_from_loop:
  assumes "open_screen c cfg" "format_loop env [0..<length (fields_of c)] c = FMT_OK d"
  shows "screen_filled cfg (dx_review_title d) (display_pairs (fields_of d)) \<and> dx_state d = dx_state c"
proof -
  obtain fs where fs: "dx_tx_fields c = Some fs" "map shape fs = map (\<lambda>fc. (fc, True)) (screen_configs cfg)"
    and title: "dx_review_title c = Some (dc_review_title cfg)"
    using assms(1) by (auto simp: open_screen_def)
  have c_fields: "fields_of c = fs" by (simp add: fields_of_def fs(1))
  have shapes: "shape ` set fs = (\<lambda>fc. (fc, True)) ` set (screen_configs cfg)"
    using arg_cong [OF fs(2), of set] by simp
  have config: "tf_config f \<in> set (screen_configs cfg) \<and> tf_display f" if "f \<in> set fs" for f
  proof -
    have "shape f \<in> (\<lambda>fc. (fc, True)) ` set (screen_configs cfg)" using that shapes by blast
    then show ?thesis by (auto simp: shape_def)
  qed
  have "tf_config f \<noteq> None" if "f \<in> set fs" for f
    using config [OF that] screen_configs_present by blast
  then have loop: "format_rel c d" "\<forall>f \<in> set (fields_of d). settled f"
    using format_loop_ok [OF assms(2)] by (auto simp: c_fields atLeast0LessThan)
  then have kept: "list_all2 field_kept fs (fields_of d)" by (simp add: format_rel_def c_fields)
  have "\<exists>fc. Some fc \<in> set (screen_configs cfg) \<and> fc_item_name fc = Some item"
    if pair: "(item, v) \<in> set (display_pairs (fields_of d))" for item v
  proof -
    obtain f fc where f: "f \<in> set (fields_of d)" "tf_config f = Some fc" "fc_item_name fc = Some item"
      using pair by (auto simp: display_pairs_iff)
    then obtain f0 where "f0 \<in> set fs" "field_kept f0 f"
      using list_all2_in2 [OF kept] by blast
    with f(2) have "f0 \<in> set fs" "tf_config f0 = Some fc" by (simp_all add: field_kept_def)
    with config [of f0] f(3) show ?thesis by auto
  qed
  moreover have "item \<in> set (map fst (display_pairs (fields_of d)))"
    if fc: "Some fc \<in> set (screen_configs cfg)" "fc_mandatory fc" "\<not> ticker_path (fc_path fc)" "fc_item_name fc = Some item" for fc item
  proof -
    have "(Some fc, True) \<in> shape ` set fs" using shapes fc(1) by blast
    then obtain f0 where f0: "f0 \<in> set fs" "tf_config f0 = Some fc" "tf_display f0" by (auto simp: shape_def)
    then obtain f where f: "f \<in> set (fields_of d)" "field_kept f0 f"
      using list_all2_in1 [OF kept] by blast
    then have "tf_config f = Some fc" "tf_display f"
      using f0 fc(3) by (auto simp: field_kept_def field_path_of_def)
    moreover have "settled f" using loop(2) f(1) by blast
    with \<open>tf_config f = Some fc\<close> fc(2) obtain v where "tf_value f = Some v" by (auto simp: settled_def)
    ultimately have "(item, v) \<in> set (display_pairs (fields_of d))"
      using f(1) fc(4) by (auto simp: display_pairs_iff)
    then show ?thesis by force
  qed
  ultimately show ?thesis
    using loop(1) title by (auto simp: screen_filled_def format_rel_def)
qed

lemma filled_from_parsing:
  assumes "process_display_parsing env field buf (s, vals) = (ok, s', vals')" "clear_signing_available s'"
    "\<And>c. pb_decode field buf (init_field_path env (display_ctx_init s)) = Some c \<Longrightarrow> screen_inv env M c"
    "\<not> clear_signing_available s"
  shows "\<exists>cfg md en ch. screen_for cfg md en ch \<and> (\<exists>fw \<in> M. member_acts env fw md en ch) \<and>
    screen_filled cfg (di_review_title s') (di_pairs s')"
proof -
  obtain c where c: "pb_decode field buf (init_field_path env (display_ctx_init s)) = Some c" "dx_tx_fields c \<noteq> None"
    using assms(1,2,4) by (auto simp: process_display_parsing_def reset_display_parser_state_def cleanup_display_items_def
        split: option.splits if_splits)
  obtain cfg md en ch where cfg: "open_screen c cfg" "screen_for cfg md en ch" "\<exists>fw \<in> M. member_acts env fw md en ch"
    using assms(3) [OF c(1)] c(2) unfolding screen_inv_def by blast
  obtain d where d: "format_loop env [0..<length (fields_of c)] c = FMT_OK d"
    "di_pairs s' = display_pairs (fields_of d)" "di_review_title s' = dx_review_title d"
    using assms(1,2) c
    by (auto simp: process_display_parsing_def format_and_populate_display_items_def Let_def reset_display_parser_state_def
        cleanup_display_items_def split: prod.splits bool.splits if_splits format_result.splits)
  show ?thesis
    unfolding d(2,3) using filled_from_loop [OF cfg(1) d(1)] cfg by blast
qed

lemma walk_start: "deferred_ok s \<Longrightarrow> screen_inv env M (init_field_path env (display_ctx_init s))"
  by (simp add: screen_inv_def init_field_path_def app_mem_alloc_def display_ctx_init_def)

section \<open>Properties\<close>


text \<open>A sample node part: the create of a transfer pre-approval proposal.\<close>

definition sample_template :: "byte list" where
  "sample_template = msg [text_field 2 ''Splice.Wallet.TransferPreapproval'', text_field 3 ''TransferPreapprovalProposal'']"

definition sample_party_field :: "string \<Rightarrow> string \<Rightarrow> nat \<times> wire" where
  "sample_party_field label party = (2, WLen (msg [text_field 1 label, (2, WLen (msg [text_field 7 party]))]))"

definition sample_argument :: "byte list" where
  "sample_argument = msg [(14, WLen (msg [(1, WLen sample_template), sample_party_field ''receiver'' ''alice'',
     sample_party_field ''provider'' ''val'']))]"

definition sample_create :: "byte list" where
  "sample_create = msg [(4, WLen sample_template), (5, WLen sample_argument)]"

definition sample_proposal :: "byte list" where
  "sample_proposal = msg [(1000, WLen (msg [(1, WLen sample_create)]))]"

definition sample_denv :: display_env where
  "sample_denv = \<lparr>de_sha = (\<lambda>m. m), de_mem = (\<lambda>_. True), de_budget = 4, de_wallet_screen = True, de_beyond = []\<rparr>"

definition blank_display :: display_state where
  "blank_display = \<lparr>di_pairs = [], clear_signing_available = False, display_failed = False, di_review_title = None,
     di_review_finish = None, metadata_display_conf = None, expected_contract_id = None\<rparr>"

lemmas sample_sizes = msg_def enc_field_def text_field_def field_wf_def enc_varint.simps

lemma sample_lengths: "length sample_template < 100" "length sample_argument < 1000" "length sample_create < 1000"
  by (simp_all add: sample_template_def sample_argument_def sample_create_def sample_party_field_def sample_sizes)

lemma sample_identifier_decodes:
  "decode_Identifier sample_template Identifier_init_zero = Some \<lparr>id_package = None,
     id_module = Some ''Splice.Wallet.TransferPreapproval'', id_entity = Some ''TransferPreapprovalProposal''\<rparr>"
  by (simp add: decode_Identifier_def sample_template_def pb_decode_msg text_field_def field_wf_def Identifier_field_def
      pb_dec_string_def cstr_str_bytes Identifier_init_zero_def)

lemma sample_create_decodes:
  "decode_Create sample_create Node_Create_init_zero = Some (Node_Create_init_zero\<lparr>cr_has_template_id := True,
     cr_template_id := \<lparr>id_package = None, id_module = Some ''Splice.Wallet.TransferPreapproval'',
       id_entity = Some ''TransferPreapprovalProposal''\<rparr>\<rparr>)"
  using sample_lengths sample_identifier_decodes
  by (simp add: decode_Create_def sample_create_def pb_decode_msg field_wf_def Create_field_def pb_dec_submessage_def
      pb_null_callback_def pb_callback_payload_def Node_Create_init_zero_def)

lemma sample_config:
  "find (\<lambda>cfg. match_identifier \<lparr>id_package = None, id_module = Some ''Splice.Wallet.TransferPreapproval'',
       id_entity = Some ''TransferPreapprovalProposal''\<rparr> (dc_identifier cfg) \<and>
     config_matches_node_action c cfg \<lparr>id_package = None, id_module = Some ''Splice.Wallet.TransferPreapproval'',
       id_entity = Some ''TransferPreapprovalProposal''\<rparr>) DISPLAY_CONFIGS =
   (if dx_node_choice_id c = None \<and> dx_node_module c = Some ''Splice.Wallet.TransferPreapproval'' \<and>
       dx_node_entity c = Some ''TransferPreapprovalProposal'' then Some (DISPLAY_CONFIGS ! 3) else None)"
  by (auto simp: DISPLAY_CONFIGS_def CFG_ENTRY_def IDC_def match_identifier_def config_matches_node_action_def is_node_template_def)

definition sample_ctx :: "tx_field list option \<Rightarrow> cstring \<Rightarrow> cstring \<Rightarrow> nat \<Rightarrow> byte \<Rightarrow> u32 \<Rightarrow> display_ctx" where
  "sample_ctx fs title finish n depth opened = \<lparr>dx_field_path = Some [], dx_tx_fields = fs, dx_review_title = title,
     dx_review_finish = finish, dx_unknown_token = False, dx_unreadable = False, dx_contract_id = None,
     dx_node_module = Some ''Splice.Wallet.TransferPreapproval'', dx_node_entity = Some ''TransferPreapprovalProposal'',
     dx_node_choice_id = None, dx_record_depth = depth, dx_values_opened = opened,
     dx_destination = DEST_NONE, dx_amount_check = AMOUNT_NOT_COMPARABLE, dx_allocs = n, dx_state = blank_display\<rparr>"

definition proposal_fields :: "byte list option \<Rightarrow> byte list option \<Rightarrow> tx_field list" where
  "proposal_fields receiver provider =
     [\<lparr>tf_value = receiver, tf_config = Some (dc_fields (DISPLAY_CONFIGS ! 3) ! 0), tf_matched = receiver \<noteq> None, tf_display = True, tf_store_failed = False\<rparr>,
      \<lparr>tf_value = Some (str_bytes PREAPPROVAL_ASSET_FIELD_VALUE), tf_config = Some PREAPPROVAL_ASSET_FIELD, tf_matched = True, tf_display = True, tf_store_failed = False\<rparr>,
      \<lparr>tf_value = provider, tf_config = Some (dc_fields (DISPLAY_CONFIGS ! 3) ! 2), tf_matched = provider \<noteq> None, tf_display = True, tf_store_failed = False\<rparr>]"

abbreviation "sample_open r p n d v \<equiv> sample_ctx (Some (proposal_fields r p)) (Some PREAPPROVAL_PROPOSAL_REVIEW_TITLE)
   (Some PREAPPROVAL_PROPOSAL_REVIEW_FINISH) n d v"

lemma sample_opens:
  "decode_record_id_field sample_denv sample_template (sample_ctx None None None n 1 v) = Some (sample_open None None (n + 1) 1 v)"
proof -
  have cfg: "DISPLAY_CONFIGS ! 3 = CFG_ENTRY (IDC ''Splice.Wallet.TransferPreapproval'' ''TransferPreapprovalProposal'')
       [] PREAPPROVAL_PROPOSAL_FIELDS PREAPPROVAL_PROPOSAL_REVIEW_TITLE
       PREAPPROVAL_PROPOSAL_REVIEW_FINISH [] DEST_NONE AMOUNT_NOT_COMPARABLE"
    by (simp add: DISPLAY_CONFIGS_def)
  have "PREAPPROVAL_ASSET_FIELD_VALUE \<noteq> []" by (simp add: PREAPPROVAL_ASSET_FIELD_VALUE_def)
  then show ?thesis
    unfolding decode_record_id_field_def sample_identifier_decodes
    by (simp add: sample_ctx_def find_tx_type_and_config_def metadata_match_def blank_display_def sample_config)
       (simp add: cfg CFG_ENTRY_def set_display_config_def PREAPPROVAL_PROPOSAL_FIELDS_def proposal_fields_def Let_def str_bytes_def
         upd_field_def set_field_value_def fields_of_def app_mem_alloc_def sample_denv_def init_transaction_pairs_def)
qed

lemma sample_party_decodes:
  assumes "label = ''receiver'' \<or> label = ''provider''" "party = ''alice'' \<or> party = ''val''"
  shows "dp_decode_record_field sample_denv (Some sub) (msg [text_field 1 label, (2, WLen (msg [text_field 7 party]))])
     (sample_open r p n d v) = Some (pop_path 0 (find_tx_field sample_denv (V_party party)
        ((sample_open r p n d v)\<lparr>dx_field_path := Some label\<rparr>)))"
proof -
  have label: "0 \<notin> set (str_bytes label)" "map char_of_byte (str_bytes label) = label" "escape_dots label = label"
    "label \<noteq> []" "length label = 8"
    using assms(1) by (elim disjE; hypsubst; code_simp)+
  have party: "cstr (str_bytes party) = party" "length party < 6"
    using assms(2) by (elim disjE; hypsubst; code_simp)+
  have wf: "field_wf (text_field 1 label)" "field_wf (text_field 7 party)" "length (msg [text_field 7 party]) < 2 ^ 32"
    using label party assms(2) by (auto simp: sample_sizes)
  have "decode_cbValue f (msg [text_field 7 party]) (w, x) = Some (V_party party, x)" for f :: "nat \<Rightarrow> byte list \<Rightarrow> bool \<times> display_ctx \<Rightarrow> _" and w x
    using wf by (simp add: decode_cbValue_def pb_decode_msg) (simp add: value_field_def text_field_def pb_dec_string_def party)
  then show ?thesis
    using wf label
    by (simp add: dp_decode_record_field_def pb_decode_msg field_wf_def)
       (auto simp: labelled_value_field_def text_field_def run_callback_def pb_callback_payload_def dp_decode_label_def
         read_path_segment_def push_path_def sample_ctx_def path_len_def Let_def)
qed

lemma sample_field_found:
  "pop_path 0 (find_tx_field sample_denv (V_party ''alice'') ((sample_open None p n d v)\<lparr>dx_field_path := Some ''receiver''\<rparr>)) =
     sample_open (Some (str_bytes ''alice'')) p n d v"
  "pop_path 0 (find_tx_field sample_denv (V_party ''val'') ((sample_open r None n d v)\<lparr>dx_field_path := Some ''provider''\<rparr>)) =
     sample_open r (Some (str_bytes ''val'')) n d v"
proof -
  have paths: "map field_path_of (proposal_fields r p) = [''receiver'', ''asset'', ''provider'']" for r p
    by (simp add: proposal_fields_def field_path_of_def DISPLAY_CONFIGS_def CFG_ENTRY_def PREAPPROVAL_PROPOSAL_FIELDS_def FLD_def
        PREAPPROVAL_ASSET_FIELD_def)
  have len: "length (proposal_fields r p) = 3" for r p by (simp add: proposal_fields_def)
  have at: "field_path_of (proposal_fields r p ! 0) = ''receiver''" "field_path_of (proposal_fields r p ! 1) = ''asset''"
    "field_path_of (proposal_fields r p ! 2) = ''provider''" for r p
    using paths [of r p] nth_map [of _ "proposal_fields r p" field_path_of] len [of r p] by (simp_all add: proposal_fields_def)
  have upt: "[0..<3] = [0, 1, 2 :: nat]" by (simp add: upt_rec)
  show "pop_path 0 (find_tx_field sample_denv (V_party ''alice'') ((sample_open None p n d v)\<lparr>dx_field_path := Some ''receiver''\<rparr>)) =
     sample_open (Some (str_bytes ''alice'')) p n d v"
    using at by (simp add: find_tx_field_def find_field_by_path_def fields_of_def sample_ctx_def len upt take_field_value_def
       upd_field_def pop_path_def Let_def) (simp add: proposal_fields_def)
  show "pop_path 0 (find_tx_field sample_denv (V_party ''val'') ((sample_open r None n d v)\<lparr>dx_field_path := Some ''provider''\<rparr>)) =
     sample_open r (Some (str_bytes ''val'')) n d v"
    using at by (simp add: find_tx_field_def find_field_by_path_def fields_of_def sample_ctx_def len upt take_field_value_def
       upd_field_def pop_path_def Let_def) (simp add: proposal_fields_def)
qed

lemma sample_walk:
  "argument_field sample_denv (WLen sample_argument) (sample_ctx None None None n 0 0) =
     Some (sample_open (Some (str_bytes ''alice'')) (Some (str_bytes ''val'')) (n + 1) 0 1)"
proof -
  have budget: "dp_comp_at sample_denv (de_budget sample_denv) =
      dp_decode_value_variant sample_denv (Some (dp_comp_at sample_denv 3))"
    by (simp add: sample_denv_def eval_nat_numeral)
  have sizes: "length sample_template < 2 ^ 32" "list_all field_wf [(1, WLen sample_template), sample_party_field ''receiver'' ''alice'',
       sample_party_field ''provider'' ''val'']"
    "length (msg [(1, WLen sample_template), sample_party_field ''receiver'' ''alice'', sample_party_field ''provider'' ''val'']) < 2 ^ 32"
    by (simp_all add: sample_template_def sample_party_field_def sample_sizes)
  let ?fs = "[(1, WLen sample_template), sample_party_field ''receiver'' ''alice'', sample_party_field ''provider'' ''val'']"
  have depth: "(sample_ctx None None None n 0 0)\<lparr>dx_values_opened := 1, dx_record_depth := 1\<rparr> = sample_ctx None None None n 1 1"
    "(sample_open r p m 1 1)\<lparr>dx_record_depth := 0\<rparr> = sample_open r p m 0 1" "dx_record_depth (sample_ctx fs t f m e v) = e" "dx_values_opened (sample_ctx fs t f m e v) = v" for r p m e fs t f v
    by (simp_all add: sample_ctx_def)
  have variant: "dp_decode_value_variant sample_denv (Some (dp_comp_at sample_denv 3)) 14 (msg ?fs) (sample_ctx None None None n 0 0) =
      Some (sample_open (Some (str_bytes ''alice'')) (Some (str_bytes ''val'')) (n + 1) 0 1)"
    unfolding dp_decode_value_variant_def Let_def pb_decode_msg [OF sizes(2)]
    by (simp add: depth sample_party_field_def run_callback_def pb_callback_payload_def sample_opens sample_party_decodes
        sample_field_found del: One_nat_def)
  show ?thesis
    unfolding argument_field_def budget sample_argument_def
    using sizes(3) variant by (simp add: decode_cbValue_def pb_decode_msg field_wf_def value_field_def)
qed

lemma sample_node_walk:
  "pb_decode (versioned_node_decode_callback sample_denv) sample_proposal
     (init_field_path sample_denv (display_ctx_init blank_display)) =
   Some (sample_open (Some (str_bytes ''alice'')) (Some (str_bytes ''val'')) 4 0 1)"
proof -
  have start: "read_create_identity sample_denv sample_create (init_field_path sample_denv (display_ctx_init blank_display)) =
      sample_ctx None None None 3 0 0"
    unfolding read_create_identity_def sample_create_decodes
    by (simp add: set_node_identity_def app_mem_strdup_def app_mem_alloc_def sample_denv_def init_field_path_def
        display_ctx_init_def sample_ctx_def Node_Create_init_zero_def)
  have wf: "list_all field_wf [(4, WLen sample_template), (5, WLen sample_argument)]" "list_all field_wf [(1, WLen sample_create)]"
    using sample_lengths by (auto simp: field_wf_def)
  moreover have "list_all field_wf [(1000, WLen (msg [(1, WLen sample_create)]))]"
    by (simp add: sample_template_def sample_argument_def sample_create_def sample_party_field_def sample_sizes)
  moreover have "pb_decode (node_display_field sample_denv (\<lambda>t. t = 2) 5) sample_create (sample_ctx None None None 3 0 0) =
      Some (sample_open (Some (str_bytes ''alice'')) (Some (str_bytes ''val'')) 4 0 1)"
    unfolding sample_create_def pb_decode_msg [OF wf(1)]
    by (simp add: node_display_field_def len_ok_def identifier_ok_def sample_identifier_decodes sample_walk)
  ultimately show ?thesis
    by (simp add: sample_proposal_def pb_decode_msg versioned_node_decode_callback_def dp_node_decode_callback_def start)
qed

lemma sample_proposal_clear:
  "\<exists>s' vals'. parse_node_for_display sample_denv sample_proposal (blank_display, vals) = (True, s', vals') \<and> clear_signing_available s'"
proof -
  have "format_loop env [0..<3] (sample_open (Some r) (Some p) n d v) = FMT_OK (sample_open (Some r) (Some p) n d v)" for env r p n d v
    by (simp add: upt_rec format_step_def sample_ctx_def fields_of_def proposal_fields_def DISPLAY_CONFIGS_def CFG_ENTRY_def
        PREAPPROVAL_PROPOSAL_FIELDS_def FLD_def PREAPPROVAL_ASSET_FIELD_def Let_def)
  moreover have "dx_tx_fields (sample_open r p n d v) = Some (proposal_fields r p)" "dx_unreadable (sample_open r p n d v) = False"
    "length (proposal_fields r p) = 3" for r p n d v
    by (simp_all add: sample_ctx_def proposal_fields_def)
  moreover have "reset_display_parser_state blank_display = blank_display"
    by (simp add: reset_display_parser_state_def blank_display_def)
  ultimately show ?thesis
    using sample_node_walk
    by (simp add: parse_node_for_display_def process_display_parsing_def format_and_populate_display_items_def Let_def fields_of_def)
       (simp add: blank_display_def reset_display_parser_state_def)
qed


end
