(* ===== verification/Topology_Safety.thy ===== *)
theory Topology_Safety
  imports Topology Wire_Format "HOL-Library.List_Lexorder" "HOL-Library.Multiset"
begin

text \<open>
  What the onboarding flow promises. Three parts: the hash over the messages is the hash of their
  lexicographically sorted hashes, whatever their order; every check of a message is exact against a
  declarative reading of the message, its \<^verbatim>\<open>claim\<close>; and the whole flow refines an abstract session
  that only keeps the accepted messages and their claims.
\<close>

section \<open>The hash over the messages\<close>

lemma hex_digit_code: "n < 16 \<Longrightarrow> of_char (hex_digit n) = (if n < 10 then 48 + n else 87 + n :: nat)"
proof -
  have "\<forall>n\<in>set [0..<16]. of_char (hex_digit n) = (if n < 10 then 48 + n else 87 + n :: nat)"
    by code_simp
  then show "n < 16 \<Longrightarrow> ?thesis"
    by simp
qed

lemma hex_digit_less: "m < 16 \<Longrightarrow> n < 16 \<Longrightarrow> (of_char (hex_digit m) :: nat) < of_char (hex_digit n) \<longleftrightarrow> m < n"
  by (auto simp: hex_digit_code)

lemma byte_digits: "unat (b :: byte) div 16 < 16" "unat (b :: byte) mod 16 < 16"
  by (auto simp: less_mult_imp_div_less)

lemma byte_less_digits:
  "(a :: byte) < b \<longleftrightarrow> unat a div 16 < unat b div 16 \<or> unat a div 16 = unat b div 16 \<and> unat a mod 16 < unat b mod 16"
proof -
  have "16 * q + r < 16 * q' + r' \<longleftrightarrow> q < q' \<or> q = q' \<and> r < r'" if "r < 16" "r' < 16" for q r q' r' :: nat
    using that by linarith
  from this [of "unat a mod 16" "unat b mod 16" "unat a div 16" "unat b div 16"] show ?thesis
    unfolding word_less_nat_alt mult_div_mod_eq by simp
qed

text \<open>Comparing the hexadecimal forms compares the bytes.\<close>

lemma compare_hashes_hex_le: "compare_hashes_hex a b \<le> 0 \<longleftrightarrow> a \<le> b"
  unfolding compare_hashes_hex_def
proof (induction a arbitrary: b)
  case Nil
  then show ?case by (cases b) auto
next
  case (Cons x a)
  show ?case
  proof (cases b)
    case (Cons y b')
    show ?thesis
    proof (cases "x = y")
      case True
      with Cons Cons.IH show ?thesis by simp
    next
      case False
      then have "x < y \<or> y < x" by auto
      moreover have "unat x div 16 \<noteq> unat y div 16 \<or> unat x mod 16 \<noteq> unat y mod 16"
        using False by (metis div_mult_mod_eq word_unat_eq_iff)
      ultimately show ?thesis
        using Cons False by (auto simp: hex_digit_inject hex_digit_less byte_digits byte_less_digits)
    qed
  qed simp
qed

lemma insert_hash_insort: "insert_hash h hs = insort h hs"
  by (induction hs) (auto simp: compare_hashes_hex_le)

lemma sort_hashes_sort: "sort_hashes hs = sort hs"
  by (induction hs) (simp_all add: sort_hashes_def insert_hash_insort)

definition multi_hash_input :: "byte list list \<Rightarrow> byte list" where
  "multi_hash_input hs = u32_be (of_nat (length hs)) @ concat (map (\<lambda>h. u32_be 34 @ h) (sort hs))"

lemma fold_put_hashes:
  "fold (\<lambda>h bw. bw_put h (bw_put_u32_be 34 bw)) hs bw = fold bw_put (concat (map (\<lambda>h. [u32_be 34, h]) hs)) bw"
  by (induction hs arbitrary: bw) (simp_all add: bw_put_u32_be_def)

lemma concat_pairs: "concat (concat (map (\<lambda>h. [f h, h]) hs)) = concat (map (\<lambda>h. f h @ h) hs)"
  by (induction hs) simp_all

lemma length_multi_hash_input:
  assumes "\<forall>h\<in>set hs. length h = CANTON_HASH_LEN"
  shows "length (multi_hash_input hs) = length hs * 34 + length hs * 4 + 4"
proof -
  have "length (concat (map (\<lambda>h. u32_be 34 @ h) xs)) = length xs * 38" if "\<forall>h\<in>set xs. length h = CANTON_HASH_LEN" for xs
    using that by (induction xs) auto
  from this [of "sort hs"] show ?thesis
    using assms by (simp add: multi_hash_input_def)
qed

lemma compute_multi_hash_input:
  assumes "\<forall>h\<in>set hs. length h = CANTON_HASH_LEN"
  shows "compute_multi_hash sha hs = canton_hash sha 55 (multi_hash_input hs)"
proof -
  define ps where "ps = u32_be (of_nat (length hs)) # concat (map (\<lambda>h. [u32_be 34, h]) (sort hs))"
  define cap where "cap = length hs * 34 + length hs * 4 + 4"
  define bw0 where "bw0 = \<lparr>bw_buf = [], bw_cap = cap, bw_overflow = False\<rparr>"
  have cat: "concat ps = multi_hash_input hs"
    by (simp add: ps_def multi_hash_input_def concat_pairs)
  have "length (concat ps) = cap"
    using length_multi_hash_input [OF assms] by (simp add: cat cap_def)
  then have "\<not> bw_overflow (fold bw_put ps bw0)"
    by (subst bw_puts_overflow_iff) (simp_all add: bw0_def bw_wf_def bw_size_def)
  then have "bw_buf (fold bw_put ps bw0) = concat ps"
    using bw.puts_contents [of ps bw0] by (simp add: bw0_def)
  then show ?thesis
    by (simp add: compute_multi_hash_def bw_init_def fold_put_hashes sort_hashes_sort Let_def cat [symmetric])
       (simp add: ps_def bw0_def cap_def bw_put_u32_be_def)
qed

section \<open>What a message claims\<close>

definition device_key :: "byte list \<Rightarrow> SigningPublicKey \<Rightarrow> bool" where
  "device_key pk k \<longleftrightarrow> length pk = ED25519_RAW_KEY_LEN \<and>
     (spk_format k = 3 \<and> spk_public_key k = pk \<or> spk_format k = 4 \<and> spk_public_key k = ED25519_DER_PREFIX @ pk)"

definition device_party :: "topology_env \<Rightarrow> byte list \<Rightarrow> string" where
  "device_party env pk = ''ldg::'' @ hex_lower (canton_hash (te_sha env) 0x0C pk)"

definition matches :: "cstring list \<Rightarrow> (string \<times> string) list \<Rightarrow> bool" where
  "matches us cfg \<longleftrightarrow> us = map (Some \<circ> fst) cfg \<or> us = rev (map (Some \<circ> fst) cfg)"

text \<open>The names of the two validators when the participants are one of the known pairs, in either order.\<close>

definition validator_names :: "cstring list \<Rightarrow> (string \<times> string) option" where
  "validator_names us =
     (case find (matches us) VALID_PARTICIPANTS_CONFIGS of
        None \<Rightarrow> None
      | Some cfg \<Rightarrow> (if us = map (Some \<circ> fst) cfg then Some (snd (cfg ! 0), snd (cfg ! 1))
                     else Some (snd (cfg ! 1), snd (cfg ! 0))))"

datatype claim = DELEGATES | MAPS_KEY | HOSTED_BY string string

fun claim_kind :: "claim \<Rightarrow> nat" where
  "claim_kind DELEGATES = 0"
| "claim_kind MAPS_KEY = 1"
| "claim_kind (HOSTED_BY _ _) = 2"

definition mapping_claim :: "topology_env \<Rightarrow> byte list \<Rightarrow> TopologyMapping \<Rightarrow> claim option" where
  "mapping_claim env pk m =
     (case m of
        NAMESPACE_DELEGATION nd \<Rightarrow>
          if nd_has_target_key nd \<and> device_key pk (nd_target_key nd) then Some DELEGATES else None
      | PARTY_TO_KEY_MAPPING m \<Rightarrow>
          if pk_party m = Some (device_party env pk) \<and> pk_threshold m = 1 \<and>
             length (pk_signing_keys m) = 1 \<and> list_all (device_key pk) (pk_signing_keys m)
          then Some MAPS_KEY else None
      | PARTY_TO_PARTICIPANT m \<Rightarrow>
          if pp_party m = Some (device_party env pk) \<and> pp_threshold m = 2 \<and> \<not> pp_has_party_signing_keys m
          then map_option (\<lambda>(n1, n2). HOSTED_BY n1 n2) (validator_names (pp_participants m)) else None
      | _ \<Rightarrow> None)"

text \<open>\<^verbatim>\<open>None\<close> is a message the flow refuses; a message without a mapping claims nothing.\<close>

definition message_claim :: "topology_env \<Rightarrow> byte list \<Rightarrow> byte list \<Rightarrow> claim option option" where
  "message_claim env pk buf =
     (case proto_deserialize_topology_transaction env buf of
        None \<Rightarrow> None
      | Some x \<Rightarrow>
          (case tt_mapping x of
             None \<Rightarrow> Some None
           | Some m \<Rightarrow> if tt_operation x \<noteq> 1 then None else map_option Some (mapping_claim env pk m)))"

definition claim_pairs :: "string \<Rightarrow> claim \<Rightarrow> (string \<times> byte list) list" where
  "claim_pairs party c =
     (case c of
        HOSTED_BY n1 n2 \<Rightarrow> [(''Add account'', str_bytes party), (''Associate to validator 1'', str_bytes n1),
           (''Associate to validator 2'', str_bytes n2), (''Validators threshold'', str_bytes ''2 out of 2'')]
      | _ \<Rightarrow> [])"

section \<open>The checks are exact\<close>

lemma check_party_key_value_ok:
  "check_party_key_value (spk_public_key k) (spk_format k) pk = 0 \<longleftrightarrow> device_key pk k"
proof -
  have "key = ED25519_DER_PREFIX @ pk \<and> length pk = ED25519_RAW_KEY_LEN \<longleftrightarrow>
        length key = ED25519_DER_KEY_LEN \<and> take ED25519_DER_PREFIX_LEN key = ED25519_DER_PREFIX \<and> drop ED25519_DER_PREFIX_LEN key = pk"
    for key
  proof -
    have len: "length ED25519_DER_PREFIX = 12" by (simp add: ED25519_DER_PREFIX_def)
    then show ?thesis
      by (auto simp: append_eq_conv_conj) (metis append_take_drop_id)
  qed
  note der = this [of "spk_public_key k"]
  show ?thesis
    unfolding check_party_key_value_def device_key_def using der by auto
qed

lemma check_party_id_value_ok:
  assumes "\<And>m. length (te_sha env m) = 32"
  shows "check_party_id_value (te_sha env) pk p \<longleftrightarrow> p = Some (device_party env pk)"
  using party_id_from_pubkey_eq [of "te_sha env" PARTY_ID_LEN pk] assms
  by (auto simp: check_party_id_value_def device_party_def split: option.splits)

text \<open>A known pair of validators: two different identifiers, both not empty.\<close>

definition pair_config :: "(string \<times> string) list \<Rightarrow> bool" where
  "pair_config cfg \<longleftrightarrow> length cfg = 2 \<and> distinct (map fst cfg) \<and> [] \<notin> fst ` set cfg"

lemma valid_configs_pairs: "list_all pair_config VALID_PARTICIPANTS_CONFIGS"
  by (simp add: VALID_PARTICIPANTS_CONFIGS_def pair_config_def)

lemma pair_configE:
  assumes "pair_config cfg"
  obtains a n b m where "cfg = [(a, n), (b, m)]" "a \<noteq> b" "a \<noteq> []" "b \<noteq> []"
proof -
  obtain x y where "cfg = [x, y]"
    using assms by (auto simp: pair_config_def length_Suc_conv numeral_2_eq_2)
  with assms show ?thesis
    by (intro that [of "fst x" "snd x" "fst y" "snd y"]) (auto simp: pair_config_def)
qed

definition unusable :: "cstring \<Rightarrow> cstring \<Rightarrow> bool" where
  "unusable u v \<longleftrightarrow> u = v \<or> u \<in> {None, Some []} \<or> v \<in> {None, Some []}"

lemma unusable_no_match: "unusable u v \<Longrightarrow> pair_config cfg \<Longrightarrow> \<not> matches [u, v] cfg"
  by (erule pair_configE) (auto simp: unusable_def matches_def)

lemma scan_matching_pair:
  assumes "pair_config cfg" "matches us cfg"
  shows "scan_participants cfg us [False, False] 0 [] =
    Inr (2, if us = map (Some \<circ> fst) cfg then [Some (snd (cfg ! 0)), Some (snd (cfg ! 1))]
            else [Some (snd (cfg ! 1)), Some (snd (cfg ! 0))])"
  using assms by (elim pair_configE) (auto simp: matches_def)

lemma scan_other_pair:
  assumes "pair_config cfg" "\<not> matches [u, v] cfg"
  shows "case scan_participants cfg [u, v] [False, False] 0 [] of
           Inl e \<Rightarrow> e \<noteq> 0 \<and> unusable u v | Inr r \<Rightarrow> fst r < 2"
  using assms by (elim pair_configE; cases u; cases v) (auto simp: unusable_def matches_def)

lemma try_configs_pairs:
  assumes "list_all pair_config cfgs" "fst r0 < 2"
  shows "case find (matches [u, v]) cfgs of
       None \<Rightarrow> (case try_configs cfgs [u, v] r0 of Inl e \<Rightarrow> e \<noteq> 0 | Inr r \<Rightarrow> fst r < 2)
     | Some cfg \<Rightarrow> try_configs cfgs [u, v] r0 =
          Inr (2, if [u, v] = map (Some \<circ> fst) cfg then [Some (snd (cfg ! 0)), Some (snd (cfg ! 1))]
                  else [Some (snd (cfg ! 1)), Some (snd (cfg ! 0))])"
  using assms
proof (induction cfgs arbitrary: r0)
  case Nil
  then show ?case by simp
next
  case (Cons cfg cfgs)
  then have cfg: "pair_config cfg" "length cfg = 2" and rest: "list_all pair_config cfgs"
    by (simp_all, simp add: pair_config_def)
  have two: "replicate 2 False = [False, False]"
    by (simp add: numeral_2_eq_2)
  show ?case
  proof (cases "matches [u, v] cfg")
    case True
    with scan_matching_pair [OF cfg(1) True] show ?thesis
      by (simp add: cfg(2) two)
  next
    case False
    show ?thesis
    proof (cases "scan_participants cfg [u, v] [False, False] 0 []")
      case (Inl e)
      with scan_other_pair [OF cfg(1) False] have "e \<noteq> 0" "unusable u v"
        by auto
      moreover from this have "find (matches [u, v]) (cfg # cfgs) = None"
        using Cons.prems unusable_no_match by (auto simp: find_None_iff list_all_iff simp del: find.simps)
      ultimately show ?thesis
        using Inl by (simp add: cfg(2) two)
    next
      case (Inr r)
      with scan_other_pair [OF cfg(1) False] have "fst r < 2"
        by auto
      moreover from this Inr have "try_configs (cfg # cfgs) [u, v] r0 = try_configs cfgs [u, v] r"
        by (cases r) (simp add: cfg(2) two)
      ultimately show ?thesis
        using Cons.IH [OF rest] False by (simp only: find.simps if_False)
    qed
  qed
qed

lemma participants_checked:
  assumes "length us = 2"
  shows "case validator_names us of
       None \<Rightarrow> (case try_configs VALID_PARTICIPANTS_CONFIGS us (0, replicate 2 None) of Inl e \<Rightarrow> e \<noteq> 0 | Inr r \<Rightarrow> fst r \<noteq> 2)
     | Some (n1, n2) \<Rightarrow> try_configs VALID_PARTICIPANTS_CONFIGS us (0, replicate 2 None) = Inr (2, [Some n1, Some n2])"
proof -
  obtain u v where "us = [u, v]"
    using assms by (auto simp: length_Suc_conv numeral_2_eq_2)
  with try_configs_pairs [OF valid_configs_pairs, of "(0, replicate 2 None)" u v] show ?thesis
    unfolding validator_names_def by (auto split: option.splits sum.splits)
qed

lemma validator_names_two: "validator_names us = Some ns \<Longrightarrow> length us = 2"
  using valid_configs_pairs
  by (auto simp: validator_names_def matches_def find_Some_iff list_all_iff pair_config_def split: option.splits)

section \<open>The session\<close>

record onboarding =
  ob_messages :: "byte list list"
  ob_claims :: "claim list"

definition onboarding_init :: onboarding where
  "onboarding_init = \<lparr>ob_messages = [], ob_claims = []\<rparr>"

definition accept_message :: "topology_env \<Rightarrow> byte list \<Rightarrow> byte list \<Rightarrow> onboarding \<Rightarrow> onboarding option" where
  "accept_message env pk buf ob =
     (if length (ob_messages ob) \<ge> MAX_HASHES then None
      else (case message_claim env pk buf of
              None \<Rightarrow> None
            | Some c \<Rightarrow>
                (let cs = ob_claims ob @ (case c of None \<Rightarrow> [] | Some c' \<Rightarrow> [c'])
                 in if distinct (map claim_kind cs) then Some \<lparr>ob_messages = ob_messages ob @ [buf], ob_claims = cs\<rparr>
                    else None)))"

text \<open>The state of the program represents a session: the flags and the pairs are those of its claims,
  the hashes those of its messages.\<close>

definition shows_claims :: "topology_env \<Rightarrow> byte list \<Rightarrow> claim list \<Rightarrow> topology_state \<times> display_state \<Rightarrow> bool" where
  "shows_claims env pk cs td \<longleftrightarrow>
     (case td of (tp, d) \<Rightarrow>
        tp_public_key tp = pk \<and>
        (tp_namespace_delegation tp \<longleftrightarrow> 0 \<in> claim_kind ` set cs) \<and>
        (tp_party_to_key_mapping tp \<longleftrightarrow> 1 \<in> claim_kind ` set cs) \<and>
        (tp_party_to_participant tp \<longleftrightarrow> 2 \<in> claim_kind ` set cs) \<and>
        tp_found tp = replicate 4 (2 \<in> claim_kind ` set cs) \<and>
        di_pairs d = concat (map (claim_pairs (device_party env pk)) cs) \<and>
        \<not> clear_signing_available d \<and> distinct (map claim_kind cs))"

definition represents :: "topology_env \<Rightarrow> byte list \<Rightarrow> byte list option \<Rightarrow> topology_state \<times> display_state \<Rightarrow> onboarding \<Rightarrow> bool" where
  "represents env pk ch td ob \<longleftrightarrow>
     shows_claims env pk (ob_claims ob) td \<and>
     tp_tx_hashes (fst td) = Some (map (canton_hash (te_sha env) 11) (ob_messages ob)) \<and>
     length (ob_messages ob) \<le> MAX_HASHES \<and> tp_challenge (fst td) = ch"

text \<open>A message before the last one: the state if it is accepted.\<close>

definition onboard_message :: "topology_env \<Rightarrow> byte list \<Rightarrow> topology_state \<times> display_state \<Rightarrow> (topology_state \<times> display_state) option" where
  "onboard_message env buf td =
     (case process_untyped_versioned_msg_tx env False buf td of
        None \<Rightarrow> None
      | Some (r, out, td') \<Rightarrow> if r = 0 then Some td' else None)"

lemma claim_pairs_none: "2 \<notin> claim_kind ` set cs \<Longrightarrow> concat (map (claim_pairs p) cs) = []"
  by (force simp: claim_pairs_def split: claim.splits)

text \<open>The outcome of one mapping check, for each kind of mapping: it succeeds exactly when the mapping
  makes a claim of a kind not made before, and then adds that claim.\<close>

definition adds_claim ::
  "topology_env \<Rightarrow> byte list \<Rightarrow> claim list \<Rightarrow> claim option \<Rightarrow> topology_state \<times> display_state \<Rightarrow>
   int \<Rightarrow> topology_state \<times> display_state \<Rightarrow> bool" where
  "adds_claim env pk cs co td r td' \<longleftrightarrow>
     (case co of
        None \<Rightarrow> r \<noteq> 0
      | Some c \<Rightarrow> if claim_kind c \<in> claim_kind ` set cs then r \<noteq> 0
                  else r = 0 \<and> shows_claims env pk (cs @ [c]) td') \<and>
     (tp_tx_hashes (fst td'), tp_challenge (fst td')) = (tp_tx_hashes (fst td), tp_challenge (fst td))"

lemma delegation_adds_claim:
  assumes "shows_claims env pk cs (tp, d)" "process_namespace_delegation nd tp = (r, tp')"
  shows "adds_claim env pk cs (mapping_claim env pk (NAMESPACE_DELEGATION nd)) (tp, d) r (tp', d)"
  using assms check_party_key_value_ok [of "nd_target_key nd" pk]
  by (auto simp: process_namespace_delegation_def mapping_claim_def shows_claims_def adds_claim_def claim_pairs_def
      split: if_splits)

lemma u32_small: "unat (x :: u32) = Suc 0 \<longleftrightarrow> x = 1" "unat (x :: u32) = 2 \<longleftrightarrow> x = 2"
  using word_unat_eq_iff [of x 1] word_unat_eq_iff [of x 2] by simp_all

lemma key_mapping_adds_claim:
  assumes "\<And>m. length (te_sha env m) = 32" "shows_claims env pk cs (tp, d)"
    "process_party_to_key_mapping (te_sha env) m (tp, d) = (r, td')"
  shows "adds_claim env pk cs (mapping_claim env pk (PARTY_TO_KEY_MAPPING m)) (tp, d) r td'"
proof -
  have pk: "tp_public_key tp = pk"
    using assms(2) by (simp add: shows_claims_def)
  consider k where "pk_signing_keys m = [k]" | "length (pk_signing_keys m) \<noteq> 1"
    by (cases "pk_signing_keys m" rule: remdups_adj.cases) auto
  then show ?thesis
  proof cases
    case 1
    then show ?thesis
      using assms(2,3) check_party_key_value_ok [of k pk]
      by (auto simp: process_party_to_key_mapping_def mapping_claim_def shows_claims_def adds_claim_def claim_pairs_def
          check_party_id_value_ok [OF assms(1)] pk u32_small Let_def split: if_splits)
  next
    case 2
    then show ?thesis
      using assms(2,3)
      by (auto simp: process_party_to_key_mapping_def mapping_claim_def adds_claim_def
          check_party_id_value_ok [OF assms(1)] pk split: if_splits list.splits)
  qed
qed

lemma replicate_four: "replicate 4 x = [x, x, x, x]"
  by (simp add: numeral_eq_Suc)

lemma update_four: "[a, b, c, d][2 := x] = [a, b, x, d]" "[a, b, c, d][3 := x] = [a, b, c, x]"
  "[a, b, c, d] ! 2 = c" "[a, b, c, d] ! 3 = d"
  by (simp_all add: numeral_eq_Suc)

lemma threshold_string: "dec_str 2 = ''2''"
  by code_simp

lemma hosting_refused:
  assumes sha: "\<And>m. length (te_sha env m) = 32"
    and bad: "tp_party_to_participant tp \<or> pp_party m \<noteq> Some (device_party env (tp_public_key tp)) \<or>
      length (pp_participants m) \<noteq> 2 \<or> pp_threshold m \<noteq> 2 \<or> pp_has_party_signing_keys m"
  shows "\<exists>r d'. process_party_to_participant (te_sha env) m (tp, d) = Some (r, tp, d') \<and> r \<noteq> 0"
proof (cases "pp_party m")
  case None
  then show ?thesis
    by (simp add: process_party_to_participant_def Let_def)
next
  case (Some p)
  note id = check_party_id_value_ok [OF sha, of "tp_public_key tp"]
  show ?thesis
    using bad Some u32_small(2) [of "pp_threshold m"]
    by (cases "length (pp_participants m) = 2"; cases "unat (pp_threshold m) = 2")
       (auto simp: process_party_to_participant_def id Let_def)
qed

lemma hosting_accepted:
  assumes sha: "\<And>m. length (te_sha env m) = 32"
    and ok: "\<not> tp_party_to_participant tp" "pp_party m = Some (device_party env (tp_public_key tp))"
      "length (pp_participants m) = 2" "pp_threshold m = 2" "\<not> pp_has_party_signing_keys m"
    and fresh: "tp_found tp = replicate 4 False" "di_pairs d = []"
  shows "case validator_names (pp_participants m) of
      None \<Rightarrow> \<exists>r td'. process_party_to_participant (te_sha env) m (tp, d) = Some (r, td') \<and> r \<noteq> 0 \<and>
         (tp_tx_hashes (fst td'), tp_challenge (fst td')) = (tp_tx_hashes tp, tp_challenge tp)
    | Some (n1, n2) \<Rightarrow> process_party_to_participant (te_sha env) m (tp, d) =
        Some (0, tp\<lparr>tp_found := replicate 4 True, tp_party_to_participant := True\<rparr>,
                 d\<lparr>di_pairs := claim_pairs (device_party env (tp_public_key tp)) (HOSTED_BY n1 n2)\<rparr>)"
proof -
  note id = check_party_id_value_ok [OF sha, of "tp_public_key tp"]
  note start = process_party_to_participant_def Let_def tp_set_field_value_def id ok fresh replicate_four update_four
    ONBOARDING_FLOW_DISPLAY_CONFIGS_def
  show ?thesis
  proof (cases "validator_names (pp_participants m)")
    case None
    with participants_checked [OF ok(3)] show ?thesis
      by (auto simp: start split: sum.splits)
  next
    case (Some ns)
    with participants_checked [OF ok(3)] show ?thesis
      by (cases ns) (simp add: start set_participant_names_def threshold_string claim_pairs_def)
  qed
qed

lemma hosting_adds_claim:
  assumes sha: "\<And>m. length (te_sha env m) = 32" and claims: "shows_claims env pk cs (tp, d)"
  shows "\<exists>r td'. process_party_to_participant (te_sha env) m (tp, d) = Some (r, td') \<and>
           adds_claim env pk cs (mapping_claim env pk (PARTY_TO_PARTICIPANT m)) (tp, d) r td'"
proof -
  have pk: "tp_public_key tp = pk" and flag: "tp_party_to_participant tp \<longleftrightarrow> 2 \<in> claim_kind ` set cs"
    using claims by (auto simp: shows_claims_def)
  show ?thesis
  proof (cases "tp_party_to_participant tp \<or> pp_party m \<noteq> Some (device_party env (tp_public_key tp)) \<or>
      length (pp_participants m) \<noteq> 2 \<or> pp_threshold m \<noteq> 2 \<or> pp_has_party_signing_keys m")
    case True
    have "case mapping_claim env pk (PARTY_TO_PARTICIPANT m) of None \<Rightarrow> True | Some c \<Rightarrow> claim_kind c \<in> claim_kind ` set cs"
      using True flag pk validator_names_two [of "pp_participants m"]
      by (auto simp: mapping_claim_def split: option.split)
    with hosting_refused [OF sha True, of d] show ?thesis
      by (auto simp: adds_claim_def split: option.splits)
  next
    case False
    then have fresh: "2 \<notin> claim_kind ` set cs" "tp_found tp = replicate 4 False" "di_pairs d = []"
      using claims flag by (auto simp: shows_claims_def claim_pairs_none)
    with False hosting_accepted [OF sha, of tp m d] claims pk show ?thesis
      by (auto simp: mapping_claim_def adds_claim_def shows_claims_def claim_pairs_none split: option.splits)
  qed
qed

lemma mapping_adds_claim:
  assumes sha: "\<And>m. length (te_sha env m) = 32" and claims: "shows_claims env pk cs (tp, d)"
  shows "\<exists>r td'. (case m of
       NAMESPACE_DELEGATION nd \<Rightarrow> (case process_namespace_delegation nd tp of (r, tp1) \<Rightarrow> Some (r, tp1, d))
     | PARTY_TO_PARTICIPANT m \<Rightarrow> process_party_to_participant (te_sha env) m (tp, d)
     | PARTY_TO_KEY_MAPPING m \<Rightarrow> Some (process_party_to_key_mapping (te_sha env) m (tp, d))
     | _ \<Rightarrow> Some (SW_TOPOLOGY_UNKNOWN_MAPPING_TYPE, tp, d)) = Some (r, td') \<and>
     adds_claim env pk cs (mapping_claim env pk m) (tp, d) r td'"
proof (cases m)
  case (NAMESPACE_DELEGATION nd)
  with delegation_adds_claim [OF claims, of nd] show ?thesis
    by (cases "process_namespace_delegation nd tp") simp
next
  case (PARTY_TO_PARTICIPANT m')
  with hosting_adds_claim [OF sha claims, of m'] show ?thesis
    by simp
next
  case (PARTY_TO_KEY_MAPPING m')
  with key_mapping_adds_claim [OF sha claims, of m'] show ?thesis
    by (cases "process_party_to_key_mapping (te_sha env) m' (tp, d)") simp
qed (simp_all add: adds_claim_def mapping_claim_def)

text \<open>One message: parsed, it is refused or adds its claim, and never fails an assertion.\<close>

lemma parse_adds_claim:
  assumes sha: "\<And>m. length (te_sha env m) = 32" and claims: "shows_claims env pk cs td"
  shows "\<exists>r td'. parse_topology_transaction_for_display env buf td = Some (r, td') \<and>
     (case message_claim env pk buf of
        None \<Rightarrow> r \<noteq> 0
      | Some None \<Rightarrow> r = 0 \<and> td' = td
      | Some (Some c) \<Rightarrow> adds_claim env pk cs (Some c) td r td')"
proof -
  obtain tp d where td: "td = (tp, d)" by fastforce
  show ?thesis
  proof (cases "proto_deserialize_topology_transaction env buf")
    case None
    then show ?thesis
      by (simp add: parse_topology_transaction_for_display_def message_claim_def td)
  next
    case (Some x)
    show ?thesis
    proof (cases "tt_mapping x")
      case None
      with Some show ?thesis
        by (simp add: parse_topology_transaction_for_display_def message_claim_def td)
    next
      case m: (Some m)
      from mapping_adds_claim [OF sha claims [unfolded td], of m] obtain r td' where
        step: "parse_topology_transaction_for_display env buf td = Some (r, td')"
          "adds_claim env pk cs (mapping_claim env pk m) td r td'" if "tt_operation x = 1"
        using Some m by (auto simp: parse_topology_transaction_for_display_def td)
      show ?thesis
      proof (cases "tt_operation x = 1")
        case True
        with step Some m show ?thesis
          by (auto simp: message_claim_def adds_claim_def split: option.splits)
      next
        case False
        with Some m show ?thesis
          by (simp add: parse_topology_transaction_for_display_def message_claim_def td)
      qed
    qed
  qed
qed

section \<open>Refinement\<close>

text \<open>Two step functions that accept or refuse an input, and a relation between their states that every
  step keeps, refusals included. Then every sequence of inputs keeps it.\<close>

locale stepwise_refinement =
  fixes cstep :: "'i \<Rightarrow> 'c \<Rightarrow> 'c option"
    and astep :: "'i \<Rightarrow> 'a \<Rightarrow> 'a option"
    and R :: "'c \<Rightarrow> 'a \<Rightarrow> bool"
  assumes step: "R c a \<Longrightarrow> rel_option R (cstep i c) (astep i a)"
begin

lemma run: "R c a \<Longrightarrow> rel_option R (fold_opt cstep xs c) (fold_opt astep xs a)"
proof (induction xs arbitrary: c a)
  case (Cons i xs)
  with step [of c a i] show ?case
    by (cases "cstep i c"; cases "astep i a") auto
qed simp

lemma run_accepted:
  assumes "R c a" "fold_opt cstep xs c = Some c'"
  obtains a' where "fold_opt astep xs a = Some a'" "R c' a'"
  using run [of c a xs] assms by (cases "fold_opt astep xs a") auto

end

lemma onboard_message_represents:
  assumes sha: "\<And>m. length (te_sha env m) = 32" and rep: "represents env pk ch td ob"
  shows "rel_option (represents env pk ch) (onboard_message env buf td) (accept_message env pk buf ob)"
proof (cases "length (ob_messages ob) \<ge> MAX_HASHES")
  case True
  with rep show ?thesis
    by (cases td) (simp add: represents_def onboard_message_def accept_message_def process_untyped_versioned_msg_tx_def add_hash_def)
next
  case False
  obtain tp d where td: "td = (tp, d)" by fastforce
  let ?tp = "tp\<lparr>tp_tx_hashes := Some (map (canton_hash (te_sha env) 11) (ob_messages ob @ [buf]))\<rparr>"
  from rep td have claims: "shows_claims env pk (ob_claims ob) (?tp, d)" and ch: "tp_challenge tp = ch"
    by (auto simp: represents_def shows_claims_def)
  from parse_adds_claim [OF sha claims, of buf] obtain r td' where
    p: "parse_topology_transaction_for_display env buf (?tp, d) = Some (r, td')"
    and q: "case message_claim env pk buf of None \<Rightarrow> r \<noteq> 0 | Some None \<Rightarrow> r = 0 \<and> td' = (?tp, d)
            | Some (Some c) \<Rightarrow> adds_claim env pk (ob_claims ob) (Some c) (?tp, d) r td'"
    by blast
  have "onboard_message env buf td = (if r = 0 then Some td' else None)"
    using False rep p by (cases td') (simp add: represents_def onboard_message_def process_untyped_versioned_msg_tx_def add_hash_def td)
  then show ?thesis
    using False q rep claims ch
    by (auto simp: accept_message_def adds_claim_def represents_def shows_claims_def split: option.splits if_splits)
qed

interpretation ob: stepwise_refinement "onboard_message env" "accept_message env pk"
  "\<lambda>td ob. (\<forall>m. length (te_sha env m) = 32) \<and> represents env pk ch td ob" for env pk ch
proof
  fix i td ob
  assume "(\<forall>m. length (te_sha env m) = 32) \<and> represents env pk ch td ob"
  with onboard_message_represents [of env pk ch td ob i]
  show "rel_option (\<lambda>td ob. (\<forall>m. length (te_sha env m) = 32) \<and> represents env pk ch td ob)
          (onboard_message env i td) (accept_message env pk i ob)"
    by (auto elim: option.rel_mono_strong)
qed

lemma init_represents:
  assumes "process_untyped_versioned_msg_tx_init pk cdata = (ok, tp)" "di_pairs d = []" "\<not> clear_signing_available d"
  shows "represents env pk (tp_challenge tp) (tp, d) onboarding_init"
  using assms by (auto simp: process_untyped_versioned_msg_tx_init_def represents_def shows_claims_def onboarding_init_def
      Let_def split: option.splits)

text \<open>What a session records of its messages.\<close>

lemma accepted_messages:
  "fold_opt (accept_message env pk) bufs ob = Some ob' \<Longrightarrow>
   ob_messages ob' = ob_messages ob @ bufs \<and>
   map (message_claim env pk) bufs = map Some (map (\<lambda>b. the (message_claim env pk b)) bufs) \<and>
   ob_claims ob' = ob_claims ob @ List.map_filter (\<lambda>b. the (message_claim env pk b)) bufs"
proof (induction bufs arbitrary: ob)
  case (Cons b bufs)
  then obtain ob1 where "accept_message env pk b ob = Some ob1" and rest: "fold_opt (accept_message env pk) bufs ob1 = Some ob'"
    by (auto split: option.splits)
  then show ?case
    using Cons.IH [OF rest] by (auto simp: accept_message_def Let_def map_filter_simps split: if_splits option.splits)
qed (simp add: map_filter_simps)

lemma all_claims:
  assumes "distinct (map claim_kind cs)" "{0, 1, 2} \<subseteq> claim_kind ` set cs"
  obtains n1 n2 where "mset cs = {#DELEGATES, MAPS_KEY, HOSTED_BY n1 n2#}"
proof -
  have kinds: "c = DELEGATES" if "claim_kind c = 0" for c using that by (cases c) auto
  have kinds1: "c = MAPS_KEY" if "claim_kind c = 1" for c using that by (cases c) auto
  have kinds2: "\<exists>n1 n2. c = HOSTED_BY n1 n2" if "claim_kind c = 2" for c using that by (cases c) auto
  obtain n1 n2 where mem: "DELEGATES \<in> set cs" "MAPS_KEY \<in> set cs" "HOSTED_BY n1 n2 \<in> set cs"
    using assms(2) kinds kinds1 kinds2 by (auto simp: image_iff) metis
  have inj: "inj_on claim_kind (set cs)"
    using assms(1) by (simp add: distinct_map)
  have "c \<in> {DELEGATES, MAPS_KEY, HOSTED_BY n1 n2}" if "c \<in> set cs" for c
  proof (cases c)
    case (HOSTED_BY m1 m2)
    with inj_onD [OF inj, of c "HOSTED_BY n1 n2"] that mem show ?thesis by simp
  qed simp_all
  with mem have "set cs = {DELEGATES, MAPS_KEY, HOSTED_BY n1 n2}"
    by auto
  moreover have "distinct cs"
    using assms(1) by (simp add: distinct_map)
  ultimately have "mset cs = mset [DELEGATES, MAPS_KEY, HOSTED_BY n1 n2]"
    by (subst set_eq_iff_mset_eq_distinct [symmetric]) simp_all
  then have "mset cs = {#DELEGATES, MAPS_KEY, HOSTED_BY n1 n2#}"
    by simp
  then show ?thesis ..
qed

definition onboarding_hash :: "topology_env \<Rightarrow> byte list list \<Rightarrow> byte list" where
  "onboarding_hash env bufs = canton_hash (te_sha env) 55 (multi_hash_input (map (canton_hash (te_sha env) 11) bufs))"

text \<open>The last message: refused, or the hash over all messages is set, the challenge is signed with it, and
  the screen is clear exactly when all three claims were made.\<close>

lemma last_message:
  assumes sha: "\<And>m. length (te_sha env m) = 32" and rep: "represents env pk ch td ob"
    and acc: "accept_message env pk buf ob = Some ob'"
    and fin: "process_untyped_versioned_msg_tx env True buf td = Some (0, out, tp', d')"
  shows "to_m_hash out = Some (onboarding_hash env (ob_messages ob'))"
    "clear_signing_available d' \<longleftrightarrow> {0, 1, 2} \<subseteq> claim_kind ` set (ob_claims ob')"
    "di_pairs d' = concat (map (claim_pairs (device_party env pk)) (ob_claims ob'))"
    "distinct (map claim_kind (ob_claims ob'))" "length (ob_messages ob') \<le> MAX_HASHES"
    "to_challenge_signature out = map_option (\<lambda>c. te_eddsa_sign env (onboarding_hash env (ob_messages ob') @ c)) ch"
    "clear_signing_available d' \<Longrightarrow> di_review_title d' = Some REVIEW_TITLE \<and> di_review_finish d' = Some REVIEW_FINISH"
proof -
  from onboard_message_represents [OF sha rep, of buf] acc obtain td1 where
    om: "onboard_message env buf td = Some td1" and rep1: "represents env pk ch td1 ob'"
    by (cases "onboard_message env buf td") auto
  obtain tp d where td: "td = (tp, d)" by fastforce
  obtain tp1 d1 where td1: "td1 = (tp1, d1)" by fastforce
  have h: "compute_multi_hash (te_sha env) (map (canton_hash (te_sha env) 11) ms) = onboarding_hash env ms" for ms
    unfolding onboarding_hash_def by (rule compute_multi_hash_input) (auto simp: length_canton_hash sha)
  have claims: "shows_claims env pk (ob_claims ob') (tp1, d1)"
    and hs: "tp_tx_hashes tp1 = Some (map (canton_hash (te_sha env) 11) (ob_messages ob'))" "tp_challenge tp1 = ch"
      "length (ob_messages ob') \<le> MAX_HASHES"
    using rep1 by (auto simp: represents_def td1)
  have "\<exists>tp0. add_hash (canton_hash (te_sha env) 11 buf) tp = Some (0, tp0) \<and>
          parse_topology_transaction_for_display env buf (tp0, d) = Some (0, tp1, d1)"
    using om by (auto simp: onboard_message_def process_untyped_versioned_msg_tx_def td td1 Let_def split: option.splits if_splits)
  then obtain tp0 where steps: "add_hash (canton_hash (te_sha env) 11 buf) tp = Some (0, tp0)"
      "parse_topology_transaction_for_display env buf (tp0, d) = Some (0, tp1, d1)"
    by blast
  note unfold = process_untyped_versioned_msg_tx_def td Let_def steps hs h cleanup_hash_storage_def
    sign_challenge_def ONBOARDING_FLOW_DISPLAY_CONFIGS_def replicate_four
  show "to_m_hash out = Some (onboarding_hash env (ob_messages ob'))"
    using fin by (auto simp: unfold split: if_splits option.splits)
  show "clear_signing_available d' \<longleftrightarrow> {0, 1, 2} \<subseteq> claim_kind ` set (ob_claims ob')"
    using fin claims by (auto simp: unfold shows_claims_def split: if_splits option.splits)
  show "di_pairs d' = concat (map (claim_pairs (device_party env pk)) (ob_claims ob'))"
    using fin claims by (auto simp: unfold shows_claims_def split: if_splits option.splits)
  show "distinct (map claim_kind (ob_claims ob'))" "length (ob_messages ob') \<le> MAX_HASHES"
    using claims hs by (auto simp: shows_claims_def)
  show "to_challenge_signature out = map_option (\<lambda>c. te_eddsa_sign env (onboarding_hash env (ob_messages ob') @ c)) ch"
    using fin by (auto simp: unfold split: if_splits option.splits)
  show "di_review_title d' = Some REVIEW_TITLE \<and> di_review_finish d' = Some REVIEW_FINISH" if "clear_signing_available d'"
    using fin claims that by (auto simp: unfold shows_claims_def split: if_splits option.splits)
qed

lemma map_filter_total: "length xs \<le> length (List.map_filter f xs) \<Longrightarrow> map f xs = map Some (List.map_filter f xs)"
proof (induction xs)
  case (Cons x xs)
  have "length (List.map_filter f xs) \<le> length xs"
    by (simp add: List.map_filter_def)
  with Cons show ?case
    by (auto simp: map_filter_simps split: option.splits)
qed (simp add: map_filter_simps)

lemma hosting_pairs:
  assumes "mset cs = {#DELEGATES, MAPS_KEY, HOSTED_BY n1 n2#}"
  shows "concat (map (claim_pairs p) cs) = claim_pairs p (HOSTED_BY n1 n2)"
proof -
  have only: "concat (map (claim_pairs p) cs) = concat (map (claim_pairs p) (filter (\<lambda>c. claim_kind c = 2) cs))" for cs
    by (induction cs) (auto simp: claim_pairs_def split: claim.split)
  have "mset (filter (\<lambda>c. claim_kind c = 2) cs) = {#HOSTED_BY n1 n2#}"
    using assms by simp
  then have "filter (\<lambda>c. claim_kind c = 2) cs = [HOSTED_BY n1 n2]"
    by (simp only: mset_single_iff)
  then show ?thesis
    by (subst only) simp
qed

lemma last_message_accepted:
  assumes sha: "\<And>m. length (te_sha env m) = 32" and rep: "represents env pk ch td ob"
    and acc: "accept_message env pk buf ob = Some ob'" and curve: "ch = None \<or> 2 * te_domain_len env = ED25519_SIG_LEN"
  shows "\<exists>out tp' d'. process_untyped_versioned_msg_tx env True buf td = Some (0, out, tp', d')"
proof -
  from onboard_message_represents [OF sha rep, of buf] acc obtain tp1 d1 where
    om: "onboard_message env buf td = Some (tp1, d1)" and rep1: "represents env pk ch (tp1, d1) ob'"
    by (cases "onboard_message env buf td") auto
  obtain tp d where td: "td = (tp, d)" by fastforce
  from om obtain tp0 where "add_hash (canton_hash (te_sha env) 11 buf) tp = Some (0, tp0)"
      "parse_topology_transaction_for_display env buf (tp0, d) = Some (0, tp1, d1)"
    by (auto simp: onboard_message_def process_untyped_versioned_msg_tx_def td Let_def split: option.splits if_splits)
  with rep1 curve show ?thesis
    by (cases ch) (auto simp: process_untyped_versioned_msg_tx_def td Let_def cleanup_hash_storage_def sign_challenge_def
        represents_def shows_claims_def ONBOARDING_FLOW_DISPLAY_CONFIGS_def replicate_four)
qed

text \<open>C17. The onboarding flow refines the abstract session: from the state the first message sets up, a
  sequence of messages is accepted exactly when the session accepts it, and the state reached represents the
  session reached. A message is refused exactly when it is the fourth, cannot be decoded, is not an addition,
  makes a claim of a kind made before, or names a key, a party or validators other than those of the device.\<close>

theorem onboarding_refines_session:
  assumes "\<forall>m. length (te_sha env m) = 32"
    and "process_untyped_versioned_msg_tx_init pk cdata = (True, tp)"
    and "di_pairs d = []" "\<not> clear_signing_available d"
  shows "rel_option (represents env pk (tp_challenge tp))
     (fold_opt (onboard_message env) bufs (tp, d)) (fold_opt (accept_message env pk) bufs onboarding_init)"
  using ob.run [of env pk "tp_challenge tp" "(tp, d)" onboarding_init bufs] init_represents [OF assms(2-4)] assms(1)
  by (auto elim: option.rel_mono_strong)

text \<open>C16. A clear onboarding screen means that exactly three messages were received, in some order: a
  delegation to the key of the device, a mapping of its party to that key alone, and a hosting of its party by
  one of the known pairs of validators with threshold two. The screen shows that party and those validators,
  the hash to be signed is the hash over exactly these messages, and a challenge is signed together with that
  hash.\<close>

theorem onboarding_clear_signing:
  assumes "\<forall>m. length (te_sha env m) = 32"
    and "process_untyped_versioned_msg_tx_init pk cdata = (True, tp)"
    and "di_pairs d = []" "\<not> clear_signing_available d"
    and "fold_opt (onboard_message env) bufs (tp, d) = Some td"
    and "process_untyped_versioned_msg_tx env True buf td = Some (0, out, tp', d')"
    and "clear_signing_available d'"
  shows "\<exists>n1 n2. mset (map (message_claim env pk) (bufs @ [buf])) =
        {#Some (Some DELEGATES), Some (Some MAPS_KEY), Some (Some (HOSTED_BY n1 n2))#} \<and>
      di_pairs d' = claim_pairs (device_party env pk) (HOSTED_BY n1 n2) \<and>
      di_review_title d' = Some REVIEW_TITLE \<and> di_review_finish d' = Some REVIEW_FINISH \<and>
      to_m_hash out = Some (onboarding_hash env (bufs @ [buf])) \<and>
      to_challenge_signature out =
        map_option (\<lambda>c. te_eddsa_sign env (onboarding_hash env (bufs @ [buf]) @ c)) (tp_challenge tp)"
proof -
  have sha: "\<And>m. length (te_sha env m) = 32"
    using assms(1) by blast
  from ob.run_accepted [of env pk "tp_challenge tp" "(tp, d)" onboarding_init bufs td] init_represents [OF assms(2-4)] assms(1,5)
  obtain ob1 where ob1: "fold_opt (accept_message env pk) bufs onboarding_init = Some ob1" "represents env pk (tp_challenge tp) td ob1"
    by auto
  from assms(6) have "onboard_message env buf td \<noteq> None"
    by (auto simp: onboard_message_def process_untyped_versioned_msg_tx_def Let_def split: prod.splits option.splits if_splits)
  with onboard_message_represents [OF sha ob1(2), of buf] obtain ob2 where ob2: "accept_message env pk buf ob1 = Some ob2"
    by (cases "accept_message env pk buf ob1") auto
  note last = last_message [OF sha ob1(2) ob2 assms(6)]
  have run: "fold_opt (accept_message env pk) (bufs @ [buf]) onboarding_init = Some ob2"
    using ob1(1) ob2 by (simp add: fold_opt_append)
  note msgs = accepted_messages [OF run]
  obtain n1 n2 where all: "mset (ob_claims ob2) = {#DELEGATES, MAPS_KEY, HOSTED_BY n1 n2#}"
    using all_claims [OF last(4)] last(2) assms(7) by blast
  moreover have "length (ob_claims ob2) = size (mset (ob_claims ob2))"
    by simp
  ultimately have "length (bufs @ [buf]) \<le> length (List.map_filter (\<lambda>b. the (message_claim env pk b)) (bufs @ [buf]))"
    using last(5) msgs by (simp add: onboarding_init_def)
  then have "map (message_claim env pk) (bufs @ [buf]) = map (Some \<circ> Some) (ob_claims ob2)"
    using msgs map_filter_total by (metis (no_types, lifting) append_Nil map_map onboarding.select_convs(2) onboarding_init_def)
  then have "mset (map (message_claim env pk) (bufs @ [buf])) = image_mset (Some \<circ> Some) (mset (ob_claims ob2))"
    by simp
  with all have "mset (map (message_claim env pk) (bufs @ [buf])) =
      {#Some (Some DELEGATES), Some (Some MAPS_KEY), Some (Some (HOSTED_BY n1 n2))#}"
    by (simp del: map_append mset_append)
  with last(1,3,6) last(7) [OF assms(7)] hosting_pairs [OF all] msgs show ?thesis
    by (intro exI [of _ n1] exI [of _ n2]) (simp add: onboarding_init_def)
qed

text \<open>A sample flow with a device whose key is 32 zero bytes.\<close>

definition sample_topology_env :: topology_env where
  "sample_topology_env = \<lparr>te_sha = (\<lambda>m. replicate 32 0), te_eddsa_sign = (\<lambda>m. replicate 64 0), te_domain_len = 32,
     te_short_enums = True, te_other_ok = (\<lambda>_ _. True)\<rparr>"

definition sample_key :: "byte list" where "sample_key = replicate 32 0"

definition sample_party :: string where "sample_party = device_party sample_topology_env sample_key"

definition sample_signing_key :: "byte list" where
  "sample_signing_key = msg [int_field 2 3, (3, WLen sample_key)]"

definition topology_message :: "nat \<Rightarrow> byte list \<Rightarrow> byte list" where
  "topology_message t m = msg [(1, WLen (msg [int_field 1 1, (3, WLen (msg [(t, WLen m)]))]))]"

definition sample_delegation :: "byte list" where
  "sample_delegation = topology_message 1 (msg [(2, WLen sample_signing_key)])"

definition sample_key_mapping :: "byte list" where
  "sample_key_mapping = topology_message 16 (msg [text_field 1 sample_party, int_field 3 1, (4, WLen sample_signing_key)])"

definition sample_hosting :: "byte list" where
  "sample_hosting = topology_message 9 (msg [text_field 1 sample_party, int_field 2 2,
     (3, WLen (msg [text_field 1 (fst (VALID_PARTICIPANTS_CONFIGS ! 0 ! 0))])),
     (3, WLen (msg [text_field 1 (fst (VALID_PARTICIPANTS_CONFIGS ! 0 ! 1))]))])"

lemma length_enc_varint: "length (enc_varint n) \<le> n + 1"
proof (induction n rule: enc_varint.induct)
  case (1 n)
  then show ?case
    by (cases "n < 128") (auto simp: enc_varint.simps [of n])
qed

lemma length_enc_len_field: "length (enc_field (t, WLen m)) \<le> 2 * length m + 8 * t + 4"
  using length_enc_varint [of "8 * t + 2"] length_enc_varint [of "length m"] by (simp add: enc_field_def)

lemma uenum_value: "n < 128 \<Longrightarrow> pb_dec_uenum env largest (snd (int_field t n)) = Some n"
  by (simp add: pb_dec_uenum_def int_field_value enum_bits_def unat_of_nat)

lemma topology_message_decodes:
  assumes "length m < 1000" "0 < t" "t < 20"
  shows "proto_deserialize_topology_transaction env (topology_message t m) =
    (case TopologyMapping_field env (t, WLen m) MAP_NONE of None \<Rightarrow> None
     | Some x \<Rightarrow> Some \<lparr>tt_operation = 1, tt_mapping = Some x\<rparr>)"
proof -
  let ?tx = "msg [int_field 1 1, (3, WLen (msg [(t, WLen m)]))]"
  have inner: "length (msg [(t, WLen m)]) \<le> 2200"
    using length_enc_len_field [of t m] assms by (simp add: msg_def)
  have one: "length (enc_field (int_field 1 1)) = 2"
    by (simp add: enc_field_def int_field_def enc_varint.simps)
  have "length ?tx \<le> 5000"
    using length_enc_len_field [of 3 "msg [(t, WLen m)]"] inner one by (simp add: msg_def)
  then have wf: "list_all field_wf [(t, WLen m)]" "list_all field_wf [int_field 1 1, (3, WLen (msg [(t, WLen m)]))]"
      "list_all field_wf [(1, WLen ?tx)]"
    using assms inner int_field_wf [of 1 1] by (auto simp: field_wf_def)
  have "TopologyTransaction_field env (int_field 1 1) x = Some (x\<lparr>tt_operation := 1\<rparr>)" for x
    using uenum_value [of 1 env 2 1] by (simp add: TopologyTransaction_field_def int_field_def)
  then have "pb_decode (TopologyTransaction_field env) ?tx \<lparr>tt_operation = 0, tt_mapping = None\<rparr> =
    (case TopologyMapping_field env (t, WLen m) MAP_NONE of None \<Rightarrow> None | Some x \<Rightarrow> Some \<lparr>tt_operation = 1, tt_mapping = Some x\<rparr>)"
    unfolding pb_decode_msg [OF wf(2)]
    by (simp add: TopologyTransaction_field_def pb_dec_submessage_def pb_decode_msg [OF wf(1)] split: option.split del: One_nat_def)
  moreover have "?tx \<noteq> []"
    by (simp add: msg_def)
  ultimately show ?thesis
    unfolding topology_message_def proto_deserialize_topology_transaction_def pb_decode_msg [OF wf(3)]
    by (simp add: pb_dec_bytes_def del: One_nat_def)
qed

lemma sample_signing_key_decodes:
  "pb_decode (SigningPublicKey_field env) sample_signing_key k = Some (k\<lparr>spk_format := 3, spk_public_key := sample_key\<rparr>)"
proof -
  have "list_all field_wf [int_field 2 3, (3, WLen sample_key)]"
    using int_field_wf [of 2 3] by (simp add: field_wf_def sample_key_def)
  then show ?thesis
    using uenum_value [of 3 env 10000 2]
    by (simp add: sample_signing_key_def pb_decode_msg int_field_def)
       (simp add: SigningPublicKey_field_def pb_dec_bytes_def sample_key_def)
qed

lemma length_sample_signing_key: "length sample_signing_key = 36"
  by (simp add: sample_signing_key_def sample_key_def msg_def enc_field_def int_field_def enc_varint.simps)

lemma sample_delegation_claim: "message_claim sample_topology_env sample_key sample_delegation = Some (Some DELEGATES)"
proof -
  have wf: "list_all field_wf [(2, WLen sample_signing_key)]" "length (msg [(2, WLen sample_signing_key)]) < 1000"
    using length_sample_signing_key by (auto simp: field_wf_def msg_def enc_field_def enc_varint.simps)
  then show ?thesis
    by (simp add: message_claim_def sample_delegation_def topology_message_decodes [OF wf(2)] TopologyMapping_field_def
        pb_dec_submessage_def pb_decode_msg NamespaceDelegation_field_def sample_signing_key_decodes mapping_claim_def device_key_def)
       (simp add: sample_key_def)
qed

lemma sample_party_text: "sample_party = ''ldg::1220'' @ replicate 64 (CHR ''0'')"
  by code_simp

lemma sample_party_field: "cstr (str_bytes sample_party) = sample_party" "length sample_party = 73"
  by (simp_all add: cstr_str_bytes sample_party_text)

lemma uint32_value: "pb_dec_uint32 (snd (int_field t 1)) = Some 1" "pb_dec_uint32 (snd (int_field t 2)) = Some 2"
  by (simp_all add: pb_dec_uint32_def int_field_value)

lemma sample_key_mapping_claim: "message_claim sample_topology_env sample_key sample_key_mapping = Some (Some MAPS_KEY)"
proof -
  let ?fs = "[text_field 1 sample_party, int_field 3 1, (4, WLen sample_signing_key)]"
  have wf: "list_all field_wf ?fs"
    using length_sample_signing_key int_field_wf [of 3 1] by (simp add: field_wf_def text_field_def sample_party_field)
  have len: "length (msg ?fs) < 1000"
    using length_sample_signing_key
    by (simp add: msg_def enc_field_def text_field_def int_field_def enc_varint.simps sample_party_field)
  have "PartyToKeyMapping_field env (int_field 3 1) m = Some (m\<lparr>pk_threshold := 1\<rparr>)" for env m
    using uint32_value(1) [of 3] by (simp add: PartyToKeyMapping_field_def int_field_def)
  then have "pb_decode (PartyToKeyMapping_field sample_topology_env) (msg ?fs) m =
      Some (m\<lparr>pk_party := Some sample_party, pk_threshold := 1,
              pk_signing_keys := pk_signing_keys m @ [SigningPublicKey_init\<lparr>spk_format := 3, spk_public_key := sample_key\<rparr>]\<rparr>)" for m
    unfolding pb_decode_msg [OF wf]
    by (simp add: PartyToKeyMapping_field_def text_field_def pb_dec_string_def sample_party_field(1)
        pb_dec_submessage_def sample_signing_key_decodes)
  then have "TopologyMapping_field sample_topology_env (16, WLen (msg ?fs)) MAP_NONE = Some (PARTY_TO_KEY_MAPPING
      \<lparr>pk_party = Some sample_party, pk_threshold = 1,
        pk_signing_keys = [SigningPublicKey_init\<lparr>spk_format := 3, spk_public_key := sample_key\<rparr>]\<rparr>)"
    by (simp add: TopologyMapping_field_def pb_dec_submessage_def del: One_nat_def)
  moreover have "length sample_key = 32"
    by (simp add: sample_key_def)
  ultimately show ?thesis
    unfolding message_claim_def sample_key_mapping_def
    by (subst topology_message_decodes [OF len]) (simp_all add: mapping_claim_def device_key_def sample_party_def)
qed

lemma sample_hosting_claim:
  "message_claim sample_topology_env sample_key sample_hosting = Some (Some (HOSTED_BY ''Ledger Validator'' ''Kiln Validator''))"
proof -
  define u v where uv: "u = fst (VALID_PARTICIPANTS_CONFIGS ! 0 ! 0)" "v = fst (VALID_PARTICIPANTS_CONFIGS ! 0 ! 1)"
  have plain: "cstr (str_bytes u) = u" "cstr (str_bytes v) = v" "length u = 88" "length v = 83"
    by (simp_all add: uv VALID_PARTICIPANTS_CONFIGS_def cstr_str_bytes)
  have names: "validator_names [Some u, Some v] = Some (''Ledger Validator'', ''Kiln Validator'')"
    by (simp add: uv validator_names_def matches_def VALID_PARTICIPANTS_CONFIGS_def)
  let ?fs = "[text_field 1 sample_party, int_field 2 2, (3, WLen (msg [text_field 1 u])), (3, WLen (msg [text_field 1 v]))]"
  have wf1: "list_all field_wf [text_field 1 u]" "list_all field_wf [text_field 1 v]"
    using plain by (auto simp: field_wf_def text_field_def)
  have lens: "length (msg [text_field 1 u]) = 90" "length (msg [text_field 1 v]) = 85"
    using plain by (simp_all add: msg_def enc_field_def text_field_def enc_varint.simps)
  have wf: "list_all field_wf ?fs"
    using lens int_field_wf [of 2 2] by (simp add: field_wf_def text_field_def sample_party_field)
  have len: "length (msg ?fs) < 1000"
    using plain by (simp add: msg_def enc_field_def text_field_def int_field_def enc_varint.simps sample_party_field)
  have "PartyToParticipant_field env (int_field 2 2) m = Some (m\<lparr>pp_threshold := 2\<rparr>)" for env m
    using uint32_value(2) [of 2] by (simp add: PartyToParticipant_field_def int_field_def)
  moreover have "pb_decode (HostingParticipant_field env) (msg [text_field 1 w]) None = Some (Some w)"
    if "list_all field_wf [text_field 1 w]" "cstr (str_bytes w) = w" for env w
    unfolding pb_decode_msg [OF that(1)] using that(2)
    by (simp add: HostingParticipant_field_def text_field_def pb_dec_string_def)
  note this [OF wf1(1) plain(1)] this [OF wf1(2) plain(2)]
  ultimately have "pb_decode (PartyToParticipant_field sample_topology_env) (msg ?fs) m =
      Some (m\<lparr>pp_party := Some sample_party, pp_threshold := 2, pp_participants := pp_participants m @ [Some u, Some v]\<rparr>)" for m
    unfolding pb_decode_msg [OF wf]
    by (simp add: PartyToParticipant_field_def [of _ "(1, w)" for w] PartyToParticipant_field_def [of _ "(3, w)" for w]
        text_field_def [of 1 sample_party] pb_dec_string_def sample_party_field(1) pb_dec_submessage_def del: One_nat_def)
  then have "TopologyMapping_field sample_topology_env (9, WLen (msg ?fs)) MAP_NONE = Some (PARTY_TO_PARTICIPANT
      \<lparr>pp_party = Some sample_party, pp_threshold = 2, pp_participants = [Some u, Some v], pp_has_party_signing_keys = False\<rparr>)"
    by (simp add: TopologyMapping_field_def pb_dec_submessage_def del: One_nat_def)
  with names show ?thesis
    unfolding message_claim_def sample_hosting_def uv [symmetric]
    by (subst topology_message_decodes [OF len]) (simp_all add: mapping_claim_def sample_party_def)
qed

lemma sample_env_sha: "\<forall>m. length (te_sha sample_topology_env m) = 32"
  by (simp add: sample_topology_env_def)

definition sample_topology_start :: topology_state where
  "sample_topology_start = snd (process_untyped_versioned_msg_tx_init sample_key [])"

definition sample_topology_display :: display_state where
  "sample_topology_display = \<lparr>di_pairs = [], clear_signing_available = False, display_failed = False, di_review_title = None,
     di_review_finish = None, metadata_display_conf = None, expected_contract_id = None\<rparr>"

lemma sample_init:
  "process_untyped_versioned_msg_tx_init sample_key [] = (True, sample_topology_start)" "tp_challenge sample_topology_start = None"
  "di_pairs sample_topology_display = []" "\<not> clear_signing_available sample_topology_display"
  by (simp_all add: sample_topology_start_def sample_topology_display_def process_untyped_versioned_msg_tx_init_def
      read_challenge_and_deadline_def)

lemma sample_session:
  "fold_opt (accept_message sample_topology_env sample_key) [sample_hosting, sample_delegation] onboarding_init =
     Some \<lparr>ob_messages = [sample_hosting, sample_delegation],
            ob_claims = [HOSTED_BY ''Ledger Validator'' ''Kiln Validator'', DELEGATES]\<rparr>"
  "accept_message sample_topology_env sample_key sample_key_mapping \<lparr>ob_messages = [sample_hosting, sample_delegation],
     ob_claims = [HOSTED_BY ''Ledger Validator'' ''Kiln Validator'', DELEGATES]\<rparr> =
   Some \<lparr>ob_messages = [sample_hosting, sample_delegation, sample_key_mapping],
          ob_claims = [HOSTED_BY ''Ledger Validator'' ''Kiln Validator'', DELEGATES, MAPS_KEY]\<rparr>"
  by (simp_all add: accept_message_def onboarding_init_def sample_hosting_claim sample_delegation_claim sample_key_mapping_claim)

theorem onboarding_refines_session_witness:
  "\<exists>td. fold_opt (onboard_message sample_topology_env) [sample_hosting, sample_delegation]
           (sample_topology_start, sample_topology_display) = Some td \<and>
     represents sample_topology_env sample_key None td \<lparr>ob_messages = [sample_hosting, sample_delegation],
       ob_claims = [HOSTED_BY ''Ledger Validator'' ''Kiln Validator'', DELEGATES]\<rparr>"
  using onboarding_refines_session [OF sample_env_sha sample_init(1,3,4), of "[sample_hosting, sample_delegation]"]
  unfolding sample_session(1) sample_init(2) by (auto simp: option_rel_Some2)

theorem onboarding_clear_signing_witness:
  "\<exists>td out tp' d'. fold_opt (onboard_message sample_topology_env) [sample_hosting, sample_delegation]
       (sample_topology_start, sample_topology_display) = Some td \<and>
     process_untyped_versioned_msg_tx sample_topology_env True sample_key_mapping td = Some (0, out, tp', d') \<and>
     to_m_hash out = Some (onboarding_hash sample_topology_env [sample_hosting, sample_delegation, sample_key_mapping])"
proof -
  have sha: "\<And>m. length (te_sha sample_topology_env m) = 32"
    using sample_env_sha by blast
  obtain td where td: "fold_opt (onboard_message sample_topology_env) [sample_hosting, sample_delegation]
      (sample_topology_start, sample_topology_display) = Some td"
    and rep: "represents sample_topology_env sample_key None td \<lparr>ob_messages = [sample_hosting, sample_delegation],
       ob_claims = [HOSTED_BY ''Ledger Validator'' ''Kiln Validator'', DELEGATES]\<rparr>"
    using ob.run [of sample_topology_env sample_key None "(sample_topology_start, sample_topology_display)" onboarding_init
        "[sample_hosting, sample_delegation]"]
      init_represents [OF sample_init(1,3,4)] sample_env_sha
    unfolding sample_session(1) sample_init(2) by (auto simp: option_rel_Some2)
  obtain out tp' d' where fin: "process_untyped_versioned_msg_tx sample_topology_env True sample_key_mapping td = Some (0, out, tp', d')"
    using last_message_accepted [OF sha rep sample_session(2)] by auto
  moreover have "clear_signing_available d'"
    using last_message(2) [OF sha rep sample_session(2) fin] by simp
  ultimately show ?thesis
    using td onboarding_clear_signing [OF sample_env_sha sample_init(1,3,4) td fin] by auto
qed

text \<open>C26. The hash over the onboarding messages is a function of the set of messages with their
  multiplicities: it is the hash of the number of messages and their hashes, each with its length, in
  lexicographic order, and no order in which they arrive changes it. The buffer of the writer is exactly
  filled.\<close>

theorem compute_multi_hash_order_free:
  assumes "\<forall>h\<in>set hs. length h = CANTON_HASH_LEN" "mset hs' = mset hs"
  shows "compute_multi_hash sha hs' = canton_hash sha 55 (multi_hash_input hs) \<and>
    length (multi_hash_input hs) = length hs * 34 + length hs * 4 + 4"
proof -
  have "sort hs' = sort hs"
    using assms(2) by (intro properties_for_sort) simp_all
  moreover have "length hs' = length hs" "set hs' = set hs"
    using mset_eq_length [OF assms(2)] mset_eq_setD [OF assms(2)] .
  ultimately show ?thesis
    using compute_multi_hash_input [of hs' sha] length_multi_hash_input assms(1) by (simp add: multi_hash_input_def)
qed

theorem compute_multi_hash_order_free_witness:
  "compute_multi_hash (\<lambda>m. m) [replicate 34 1, replicate 34 0] =
     canton_hash (\<lambda>m. m) 55 (multi_hash_input [replicate 34 0, replicate 34 1])"
  by (rule compute_multi_hash_order_free [THEN conjunct1]) auto

end
