(* ===== verification/Value_Spec.thy ===== *)
theory Value_Spec
  imports Hashing_Parser Wire_Format
begin

text \<open>
  What hashing a value computes. A ledger value is a datatype with the sixteen kinds of
  \<^verbatim>\<open>value.proto\<close>; \<^verbatim>\<open>enc_value\<close> writes it as the protobuf message the host sends and
  \<^verbatim>\<open>canon\<close> as the bytes the hashing scheme prescribes for it. The streaming parser of
  \<^verbatim>\<open>pb_hashing_parser.c\<close>, which never holds the value, writes exactly these bytes.
\<close>

section \<open>Values\<close>

datatype daml_value =
    DUnit
  | DBool bool
  | DInt64 u64
  | DDate u32
  | DTimestamp u64
  | DNumeric string
  | DParty string
  | DText string
  | DContractId "byte list"
  | DOptional "daml_value option"
  | DList "daml_value list"
  | DTextMap "(string \<times> daml_value) list"
  | DGenMap "(daml_value \<times> daml_value) list"
  | DRecord Identifier "(string \<times> daml_value) list"
  | DVariant Identifier string daml_value
  | DEnum Identifier string

definition enc_ident :: "Identifier \<Rightarrow> byte list" where
  "enc_ident i = msg [text_field 1 (the (id_package i)), text_field 2 (the (id_module i)), text_field 3 (the (id_entity i))]"

definition zigzag :: "u64 \<Rightarrow> u64" where
  "zigzag x = push_bit 1 x XOR (if bit x 63 then NOT 0 else 0)"

definition u64_le :: "u64 \<Rightarrow> byte list" where
  "u64_le x = rev (u64_be x)"

definition labelled :: "string \<Rightarrow> byte list \<Rightarrow> byte list" where
  "labelled l b = msg [text_field 1 l, (2, WLen b)]"

definition entry :: "byte list \<Rightarrow> byte list \<Rightarrow> byte list" where
  "entry k v = msg [(1, WLen k), (2, WLen v)]"

fun value_wire :: "daml_value \<Rightarrow> nat \<times> wire" where
  "value_wire DUnit = (1, WLen [])"
| "value_wire (DBool b) = int_field 2 (if b then 1 else 0)"
| "value_wire (DInt64 x) = int_field 3 (unat (zigzag x))"
| "value_wire (DDate d) = int_field 4 (unat (scast d :: u64))"
| "value_wire (DTimestamp x) = (5, W64 (u64_le x))"
| "value_wire (DNumeric s) = text_field 6 s"
| "value_wire (DParty s) = text_field 7 s"
| "value_wire (DText s) = text_field 8 s"
| "value_wire (DContractId b) = text_field 9 (hex_lower b)"
| "value_wire (DOptional None) = (10, WLen (msg []))"
| "value_wire (DOptional (Some v)) = (10, WLen (msg [(1, WLen (msg [value_wire v]))]))"
| "value_wire (DList vs) = (11, WLen (msg (map (\<lambda>v. (1, WLen (msg [value_wire v]))) vs)))"
| "value_wire (DTextMap es) = (12, WLen (msg (map (\<lambda>(k, v). (1, WLen (labelled k (msg [value_wire v])))) es)))"
| "value_wire (DGenMap es) = (13, WLen (msg (map (\<lambda>(k, v). (1, WLen (entry (msg [value_wire k]) (msg [value_wire v])))) es)))"
| "value_wire (DRecord i fs) =
     (14, WLen (msg ((1, WLen (enc_ident i)) # map (\<lambda>(l, v). (2, WLen (labelled l (msg [value_wire v])))) fs)))"
| "value_wire (DVariant i c v) = (15, WLen (msg [(1, WLen (enc_ident i)), text_field 2 c, (3, WLen (msg [value_wire v]))]))"
| "value_wire (DEnum i c) = (16, WLen (msg [(1, WLen (enc_ident i)), text_field 2 c]))"

definition enc_value :: "daml_value \<Rightarrow> byte list" where
  "enc_value v = msg [value_wire v]"

fun canon :: "daml_value \<Rightarrow> byte list" where
  "canon DUnit = [0x00]"
| "canon (DBool b) = [0x01, if b then 1 else 0]"
| "canon (DInt64 x) = 0x02 # u64_be x"
| "canon (DDate d) = 0x05 # u32_be d"
| "canon (DTimestamp x) = 0x04 # u64_be x"
| "canon (DNumeric s) = 0x03 # enc_str s"
| "canon (DParty s) = 0x06 # enc_str s"
| "canon (DText s) = 0x07 # enc_str s"
| "canon (DContractId b) = 0x08 # enc_bytes b"
| "canon (DOptional None) = [0x09, 0x00]"
| "canon (DOptional (Some v)) = 0x09 # 0x01 # canon v"
| "canon (DList vs) = 0x0A # u32_be (of_nat (length vs)) @ concat (map canon vs)"
| "canon (DTextMap es) = 0x0B # u32_be (of_nat (length es)) @ concat (map (\<lambda>(k, v). enc_str k @ canon v) es)"
| "canon (DGenMap es) = 0x0F # u32_be (of_nat (length es)) @ concat (map (\<lambda>(k, v). canon k @ canon v) es)"
| "canon (DRecord i fs) = 0x0C # 0x01 # enc_identifier i @ u32_be (of_nat (length fs)) @
     concat (map (\<lambda>(l, v). 0x01 # enc_str l @ canon v) fs)"
| "canon (DVariant i c v) = 0x0D # 0x01 # enc_identifier i @ enc_str c @ canon v"
| "canon (DEnum i c) = 0x0E # 0x01 # enc_identifier i @ enc_str c"

text \<open>How many nested values the deepest path of a value opens.\<close>

fun vdepth :: "daml_value \<Rightarrow> nat" where
  "vdepth (DOptional (Some v)) = Suc (vdepth v)"
| "vdepth (DList vs) = fold max (map (\<lambda>v. Suc (vdepth v)) vs) 0"
| "vdepth (DTextMap es) = fold max (map (\<lambda>(k, v). Suc (vdepth v)) es) 0"
| "vdepth (DGenMap es) = fold max (map (\<lambda>(k, v). Suc (max (vdepth k) (vdepth v))) es) 0"
| "vdepth (DRecord i fs) = fold max (map (\<lambda>(l, v). Suc (vdepth v)) fs) 0"
| "vdepth (DVariant i c v) = Suc (vdepth v)"
| "vdepth _ = 0"

definition plain_text :: "string \<Rightarrow> bool" where
  "plain_text s \<longleftrightarrow> CHR 0x00 \<notin> set s"

definition short_text :: "string \<Rightarrow> bool" where
  "short_text s \<longleftrightarrow> plain_text s \<and> s \<noteq> [] \<and> length s \<le> 63"

definition plain_identifier :: "Identifier \<Rightarrow> bool" where
  "plain_identifier i \<longleftrightarrow> list_all (\<lambda>s. s \<noteq> None \<and> plain_text (the s)) [id_package i, id_module i, id_entity i]"

text \<open>A value without elements to count.\<close>

fun uncounted :: "daml_value \<Rightarrow> bool" where
  "uncounted (DOptional v) = False"
| "uncounted (DList vs) = False"
| "uncounted (DTextMap es) = False"
| "uncounted (DGenMap es) = False"
| "uncounted (DRecord i fs) = False"
| "uncounted (DVariant i c v) = False"
| "uncounted _ = True"

fun value_wf :: "daml_value \<Rightarrow> bool" where
  "value_wf (DNumeric s) = plain_text s"
| "value_wf (DParty s) = plain_text s"
| "value_wf (DText s) = plain_text s"
| "value_wf (DOptional (Some v)) = value_wf v"
| "value_wf (DList vs) = list_all value_wf vs"
| "value_wf (DTextMap es) = list_all (\<lambda>(k, v). short_text k \<and> value_wf v) es"
| "value_wf (DGenMap es) = list_all (\<lambda>(k, v). uncounted k \<and> value_wf k \<and> value_wf v) es"
| "value_wf (DRecord i fs) = (plain_identifier i \<and> list_all (\<lambda>(l, v). short_text l \<and> value_wf v) fs)"
| "value_wf (DVariant i c v) = (plain_identifier i \<and> short_text c \<and> value_wf v)"
| "value_wf (DEnum i c) = (plain_identifier i \<and> plain_text c)"
| "value_wf _ = True"

section \<open>Scalars\<close>

lemma u64_field_value: "pb_dec_uint64 (snd (int_field t (unat w))) = Some w"
  using int_field_value [of "unat w" t] unsigned_less [of w] by simp

lemma zigzag_decodes: "pb_dec_sint64 (snd (int_field t (unat (zigzag x)))) = Some x"
proof -
  let ?z = "zigzag x"
  have z: "bit ?z n \<longleftrightarrow> n < 64 \<and> ((0 < n \<and> bit x (n - 1)) \<noteq> bit x 63)" for n
    unfolding zigzag_def bit_xor_iff bit_push_bit_iff by (auto simp: bit_simps Suc_le_eq dest: bit_imp_le_length)
  have "?z AND 1 \<noteq> 0 \<longleftrightarrow> bit x 63"
    using z [of 0] by (simp add: and_one_eq mod_2_eq_odd flip: bit_0)
  moreover have "(if bit x 63 then NOT (drop_bit 1 ?z) else drop_bit 1 ?z) = x"
  proof (rule bit_word_eqI)
    fix n
    assume "n < LENGTH(64)"
    then consider "n < 63" | "n = 63" by fastforce
    then show "bit (if bit x 63 then NOT (drop_bit 1 ?z) else drop_bit 1 ?z) n = bit x n"
      by cases (auto simp: bit_simps z)
  qed
  ultimately show ?thesis
    by (simp add: pb_dec_sint64_def u64_field_value)
qed

lemma date_decodes: "pb_dec_int32 (snd (int_field t (unat (scast d :: u64)))) = Some (sint (d :: u32))"
proof -
  have "(ucast (scast d :: u64) :: u32) = d"
    by (rule bit_word_eqI) (auto simp: bit_simps)
  then show ?thesis
    by (simp add: pb_dec_int32_def u64_field_value)
qed

lemma hex_nibbles: "push_bit 4 (hex_val (hex_digit (unat b div 16))) OR hex_val (hex_digit (unat b mod 16)) = (b :: byte)"
proof -
  have "\<forall>n\<in>set [0..<16]. hex_val (hex_digit n) = of_nat n"
    by code_simp
  then have digit: "hex_val (hex_digit n) = of_nat n" if "n < 16" for n
    using that by simp
  have "drop_bit 4 (unat b) = unat b div 16" "take_bit 4 (unat b) = unat b mod 16"
    by (simp_all add: drop_bit_eq_div take_bit_eq_mod)
  moreover have "of_nat (unat w) = w" for w :: byte
    by simp
  note this [of "drop_bit 4 b", unfolded unat_drop_bit_eq] this [of "take_bit 4 b", unfolded unsigned_take_bit_eq]
  ultimately have "of_nat (unat b div 16) = drop_bit 4 b" "of_nat (unat b mod 16) = take_bit 4 b"
    by simp_all
  then show ?thesis
    using digit [of "unat b div 16"] digit [of "unat b mod 16"]
    by (simp add: less_mult_imp_div_less) (rule bit_word_eqI, auto simp: bit_simps)
qed

lemma hex_bytes_hex_lower [simp]: "hex_bytes (hex_lower b) = b"
  by (induction b) (simp_all add: hex_nibbles)

lemma encode_contract_id: "encode_hex_string (Some (hex_lower b)) = hw_put (enc_bytes b)"
  by (simp add: encode_hex_string_Some enc_hex_def)

lemma hex_lower_plain: "plain_text (hex_lower b)"
  using hex_lower_chars [of b] by (auto simp: plain_text_def)

text \<open>The struct a value message is decoded into.\<close>

fun value_struct :: "daml_value \<Rightarrow> cbValue" where
  "value_struct DUnit = V_unit"
| "value_struct (DBool b) = V_bool b"
| "value_struct (DInt64 x) = V_int64 x"
| "value_struct (DDate d) = V_date (sint d)"
| "value_struct (DTimestamp x) = V_timestamp x"
| "value_struct (DNumeric s) = V_numeric s"
| "value_struct (DParty s) = V_party s"
| "value_struct (DText s) = V_text s"
| "value_struct (DContractId b) = V_contract_id (hex_lower b)"
| "value_struct (DOptional v) = V_composite 10"
| "value_struct (DList vs) = V_composite 11"
| "value_struct (DTextMap es) = V_composite 12"
| "value_struct (DGenMap es) = V_composite 13"
| "value_struct (DRecord i fs) = V_composite 14"
| "value_struct (DVariant i c v) = V_composite 15"
| "value_struct (DEnum i c) = V_composite 16"

text \<open>A value that is a message of its own: its tag and its fields.\<close>

fun value_tag :: "daml_value \<Rightarrow> nat" where
  "value_tag DUnit = 1"
| "value_tag (DOptional v) = 10"
| "value_tag (DList vs) = 11"
| "value_tag (DTextMap es) = 12"
| "value_tag (DGenMap es) = 13"
| "value_tag (DRecord i fs) = 14"
| "value_tag (DVariant i c v) = 15"
| "value_tag (DEnum i c) = 16"
| "value_tag _ = 0"

fun value_fields :: "daml_value \<Rightarrow> (nat \<times> wire) list" where
  "value_fields (DOptional (Some v)) = [(1, WLen (enc_value v))]"
| "value_fields (DList vs) = map (\<lambda>v. (1, WLen (enc_value v))) vs"
| "value_fields (DTextMap es) = map (\<lambda>(k, v). (1, WLen (labelled k (enc_value v)))) es"
| "value_fields (DGenMap es) = map (\<lambda>(k, v). (1, WLen (entry (enc_value k) (enc_value v)))) es"
| "value_fields (DRecord i fs) = (1, WLen (enc_ident i)) # map (\<lambda>(l, v). (2, WLen (labelled l (enc_value v)))) fs"
| "value_fields (DVariant i c v) = [(1, WLen (enc_ident i)), text_field 2 c, (3, WLen (enc_value v))]"
| "value_fields (DEnum i c) = [(1, WLen (enc_ident i)), text_field 2 c]"
| "value_fields _ = []"

definition scalar :: "daml_value \<Rightarrow> bool" where
  "scalar v \<longleftrightarrow> value_tag v < 10"

lemma value_wire_message: "value_tag v \<noteq> 0 \<Longrightarrow> value_wire v = (value_tag v, WLen (msg (value_fields v)))"
  by (cases v rule: value_fields.cases) (simp_all add: enc_value_def msg_def [of "[]"])

lemma scalar_written:
  "scalar v \<Longrightarrow> decode_value_primitive_variants (value_struct v) c = hashing (hw_put (canon v)) c"
  by (cases v) (simp_all add: scalar_def hashing_def hw_put_byte_def encode_bool_def encode_int64_def encode_int32_def
      hw_put_u64_be_def hw_put_u32_be_def encode_contract_id hw_put_def)

section \<open>Decoding the messages\<close>

definition field_shape :: "nat \<times> wire \<Rightarrow> bool" where
  "field_shape fw \<longleftrightarrow> 0 < fst fw \<and> fst fw < 2 ^ 29 \<and> (case snd fw of WLen p \<Rightarrow> True | w \<Rightarrow> wire_wf w)"

lemma length_member: "(t, WLen p) \<in> set fs \<Longrightarrow> length p < length (msg fs)"
proof (induction fs)
  case (Cons fw fs)
  have "enc_varint n \<noteq> []" for n
    by (simp add: enc_varint.simps [of n])
  then have "length p < length (enc_field (t, WLen p))"
    by (simp add: enc_field_def)
  with Cons show ?case
    by (auto simp: msg_def)
qed simp

lemma msg_wf:
  assumes "length (msg fs) < 2 ^ 32" "list_all field_shape fs"
  shows "list_all field_wf fs"
  unfolding list_all_iff
proof
  fix fw
  assume "fw \<in> set fs"
  with assms show "field_wf fw"
    using length_member [of "fst fw" _ fs]
    by (cases fw; cases "snd fw") (fastforce simp: list_all_iff field_shape_def field_wf_def)+
qed

lemma text_shape: "0 < t \<Longrightarrow> t < 2 ^ 29 \<Longrightarrow> field_shape (text_field t s)"
  by (simp add: field_shape_def text_field_def)

lemma int_shape: "0 < t \<Longrightarrow> t < 2 ^ 29 \<Longrightarrow> field_shape (int_field t n)"
  using int_field_wf [of t n] by (simp add: field_shape_def field_wf_def int_field_def)

lemma len_shape: "field_shape (t, WLen p) \<longleftrightarrow> 0 < t \<and> t < 2 ^ 29" "field_shape (t, W64 b) \<longleftrightarrow> 0 < t \<and> t < 2 ^ 29 \<and> length b = 8"
  by (simp_all add: field_shape_def)

lemma value_wire_shape: "field_shape (value_wire v)"
  by (cases v rule: value_wire.cases) (simp_all add: text_shape int_shape len_shape u64_le_def)

lemma value_wire_wf: "length (enc_value v) < 2 ^ 32 \<Longrightarrow> list_all field_wf [value_wire v]"
  unfolding enc_value_def by (rule msg_wf) (simp_all add: value_wire_shape)

lemma value_fields_len:
  assumes "fw \<in> set (value_fields v)"
  obtains t p where "fw = (t, WLen p)" "0 < t" "t < 4"
  using assms by (cases v rule: value_fields.cases) (auto simp: text_field_def)

lemma value_fields_wf:
  assumes "length (msg (value_fields v)) < 2 ^ 32"
  shows "list_all field_wf (value_fields v)"
  by (rule msg_wf [OF assms]) (auto simp: list_all_iff field_shape_def elim: value_fields_len)

lemma decode_text: "plain_text s \<Longrightarrow> pb_dec_string (snd (text_field t s)) = Some s"
  by (simp add: text_field_def pb_dec_string_def plain_text_def cstr_str_bytes)

text \<open>A value message: a scalar is stored, any other member goes to the nested decode.\<close>

lemma decode_value_msg:
  assumes "value_wf v" "length (enc_value v) < 2 ^ 32"
  shows "decode_cbValue sub (enc_value v) (x, s) =
    (if value_tag v = 0 then Some (value_struct v, s)
     else map_option (\<lambda>s'. (value_struct v, s')) (sub (value_tag v) (msg (value_fields v)) s))"
proof (cases "value_tag v = 0")
  case True
  have bool: "pb_dec_bool (snd (int_field 2 (if b then 1 else 0))) = Some b" for b
    using pb_decode_varint32_enc [of "if b then 1 else 0" "[]"] by (cases b) (simp_all add: pb_dec_bool_def int_field_def)
  have "value_field sub (value_wire v) (x, s) = Some (value_struct v, s)"
    using True assms(1) bool zigzag_decodes date_decodes decode_text hex_lower_plain
    by (cases v) (simp_all add: value_field_def int_field_def text_field_def pb_dec_fixed64_def u64_le_def be_simps Let_def)
  with True show ?thesis
    using value_wire_wf [OF assms(2)] unfolding decode_cbValue_def enc_value_def by (subst pb_decode_msg) simp_all
next
  case False
  then have "value_field sub (value_wire v) (x, s) = map_option (\<lambda>s'. (value_struct v, s')) (sub (value_tag v) (msg (value_fields v)) s)"
    unfolding value_wire_message [OF False] by (cases v) (simp_all add: value_field_def)
  with False show ?thesis
    using value_wire_wf [OF assms(2)] unfolding decode_cbValue_def enc_value_def
    by (subst pb_decode_msg) (simp_all split: option.split)
qed

section \<open>Counting\<close>

lemma ident_msg_wf:
  assumes "length (enc_ident i) < 2 ^ 32"
  shows "list_all field_wf [text_field 1 (the (id_package i)), text_field 2 (the (id_module i)), text_field 3 (the (id_entity i))]"
  using assms unfolding enc_ident_def by (rule msg_wf) (simp add: text_shape)

lemma decode_ident:
  assumes "plain_identifier i" "length (enc_ident i) < 2 ^ 32"
  shows "decode_Identifier (enc_ident i) j = Some i"
proof -
  obtain p m e where i: "i = \<lparr>id_package = Some p, id_module = Some m, id_entity = Some e\<rparr>"
    "plain_text p" "plain_text m" "plain_text e"
    using assms(1) by (cases i) (auto simp: plain_identifier_def)
  then show ?thesis
    unfolding decode_Identifier_def enc_ident_def pb_decode_msg [OF ident_msg_wf [OF assms(2)]]
    using decode_text [of p 1] decode_text [of m 2] decode_text [of e 3]
    by (simp add: Identifier_field_def text_field_def)
qed

lemma decode_enum_msg:
  assumes "plain_identifier i" "plain_text c" "length (msg (value_fields (DEnum i c))) < 2 ^ 32"
  shows "decode_cbEnum (msg (value_fields (DEnum i c))) = Some \<lparr>en_has_id = True, en_id = i, en_constructor = Some c\<rparr>"
proof -
  have small: "length (enc_ident i) < 2 ^ 32"
    using length_member [of 1 "enc_ident i" "value_fields (DEnum i c)"] assms(3) by simp
  show ?thesis
    unfolding decode_cbEnum_def pb_decode_msg [OF value_fields_wf [OF assms(3)]]
    using decode_text [OF assms(2), of 2] decode_ident [OF assms(1) small]
    by (simp add: text_field_def pb_dec_submessage_def)
qed

lemma all_fields_msg: "list_all field_wf fs \<Longrightarrow> all_fields P (msg fs) \<longleftrightarrow> list_all P fs"
  by (simp add: all_fields_def msg_def pb_fields_enc)

lemma comp_null_msg:
  assumes "value_wf v" "length (msg (value_fields v)) < 2 ^ 32"
  shows "comp_null (value_tag v) (msg (value_fields v)) s = Some s"
proof (cases "value_tag v = 16")
  case True
  then obtain i c where "v = DEnum i c"
    by (cases v) auto
  with assms show ?thesis
    using decode_enum_msg [of i c] by (simp add: comp_null_def)
next
  case False
  have "list_all (\<lambda>(u, w). if u \<in> T then pb_callback_payload w \<noteq> None else True) (value_fields v)" for T
    by (auto simp: list_all_iff pb_callback_payload_def elim!: value_fields_len)
  with False show ?thesis
    using value_fields_wf [OF assms(2)] by (simp add: comp_null_def all_fields_msg Let_def list_all_iff)
qed

lemma fields_small: "length (enc_value v) < 2 ^ 32 \<Longrightarrow> value_tag v \<noteq> 0 \<Longrightarrow> length (msg (value_fields v)) < 2 ^ 32"
  using length_member [of "value_tag v" "msg (value_fields v)" "[value_wire v]"]
  by (simp add: enc_value_def value_wire_message)

lemma decode_value_null:
  assumes "value_wf v" "length (enc_value v) < 2 ^ 32"
  shows "decode_cbValue comp_null (enc_value v) (x, s) = Some (value_struct v, s)"
  using decode_value_msg [OF assms, of comp_null x s] comp_null_msg [OF assms(1) fields_small [OF assms(2)], of s] by simp

text \<open>The two messages around a value.\<close>

lemma labelled_wf:
  assumes "length (labelled l b) < 2 ^ 32"
  shows "list_all field_wf [text_field 1 l, (2, WLen b)]"
  using assms unfolding labelled_def by (rule msg_wf) (simp add: text_shape len_shape)

lemma entry_wf:
  assumes "length (entry k v) < 2 ^ 32"
  shows "list_all field_wf [(1, WLen k), (2, WLen v)]"
  using assms unfolding entry_def by (rule msg_wf) (simp add: len_shape)

lemma length_labelled: "length b < length (labelled l b)"
  unfolding labelled_def by (rule length_member [of 2]) simp

lemma length_entry: "length k < length (entry k v)" "length v < length (entry k v)"
  unfolding entry_def by (rule length_member [of 1], simp) (rule length_member [of 2], simp)

lemma labelled_decode:
  assumes "length (labelled l b) < 2 ^ 32"
  shows "pb_decode (labelled_value_field label sub) (labelled l b) (x, s) =
    (case label (str_bytes l) s of None \<Rightarrow> None | Some s' \<Rightarrow> decode_cbValue sub b (x, s'))"
  unfolding labelled_def pb_decode_msg [OF labelled_wf [OF assms]]
  by (simp add: labelled_value_field_def text_field_def run_callback_def pb_callback_payload_def split: option.split)

lemma entry_decode:
  assumes "length (entry k v) < 2 ^ 32"
  shows "pb_decode (gen_map_entry_field f g) (entry k v) ((x, y), s) =
    (case decode_cbValue f k (x, s) of None \<Rightarrow> None
     | Some (x', s') \<Rightarrow> map_option (\<lambda>(y', s''). ((x', y'), s'')) (decode_cbValue g v (y, s')))"
  unfolding entry_def pb_decode_msg [OF entry_wf [OF assms]]
  by (simp add: gen_map_entry_field_def split: option.split)

fun value_count :: "daml_value \<Rightarrow> nat" where
  "value_count (DOptional (Some v)) = 1"
| "value_count (DList vs) = length vs"
| "value_count (DTextMap es) = length es"
| "value_count (DGenMap es) = length es"
| "value_count (DRecord i fs) = length fs"
| "value_count (DVariant i c v) = 1"
| "value_count _ = 0"

lemma fold_opt_count: "(\<And>x n. x \<in> set xs \<Longrightarrow> f x n = Some (n + 1)) \<Longrightarrow> fold_opt f xs n = Some (n + int (length xs))"
  by (induction xs arbitrary: n) auto

lemma count_callbacks:
  "value_wf v \<Longrightarrow> length (enc_value v) < 2 ^ 32 \<Longrightarrow> count_list_elem (enc_value v) n = Some (n + 1)"
  "value_wf v \<Longrightarrow> length (labelled l (enc_value v)) < 2 ^ 32 \<Longrightarrow> count_labelled (labelled l (enc_value v)) n = Some (n + 1)"
  "value_wf k \<Longrightarrow> value_wf v \<Longrightarrow> length (entry (enc_value k) (enc_value v)) < 2 ^ 32 \<Longrightarrow>
     count_gen_map_entry (entry (enc_value k) (enc_value v)) n = Some (n + 1)"
  using length_labelled [of "enc_value v" l] length_entry(1) [of "enc_value k" "enc_value v"] length_entry(2) [of "enc_value v" "enc_value k"]
  by (simp_all add: count_list_elem_def value_plain_ok_def count_labelled_def count_gen_map_entry_def decode_value_null
      labelled_decode entry_decode null_label_def)

lemma count_value_msg:
  assumes "value_wf v" "length (msg (value_fields v)) < 2 ^ 32" "value_tag v \<noteq> 0"
  shows "count_value (value_tag v) (msg (value_fields v)) old = Some (int (value_count v))"
proof -
  note wf = value_fields_wf [OF assms(2)]
  have callback: "run_callback f (WLen p) s = f p s" for f p and s :: int
    by (simp add: run_callback_def pb_callback_payload_def)
  show ?thesis
  proof (cases v rule: value_fields.cases)
    case (2 vs)
    have "fold_opt (\<lambda>fw n. if fst fw = 1 then run_callback count_list_elem (snd fw) n else if fst fw \<in> {} then pb_null_callback (snd fw) n else Some n)
        (value_fields v) 0 = Some (0 + int (length (value_fields v)))"
      by (rule fold_opt_count) (use 2 assms(1) wf in \<open>auto simp: callback list_all_iff field_wf_def intro!: count_callbacks\<close>)
    then show ?thesis
      using 2 wf by (simp add: count_value_def pb_decode_msg)
  next
    case (3 es)
    have "fold_opt (\<lambda>fw n. if fst fw = 1 then run_callback count_labelled (snd fw) n else if fst fw \<in> {} then pb_null_callback (snd fw) n else Some n)
        (value_fields v) 0 = Some (0 + int (length (value_fields v)))"
      by (rule fold_opt_count) (use 3 assms(1) wf in \<open>auto simp: callback list_all_iff field_wf_def dest!: bspec intro!: count_callbacks\<close>)
    then show ?thesis
      using 3 wf by (simp add: count_value_def pb_decode_msg)
  next
    case (4 es)
    have "fold_opt (\<lambda>fw n. if fst fw = 1 then run_callback count_gen_map_entry (snd fw) n else if fst fw \<in> {} then pb_null_callback (snd fw) n else Some n)
        (value_fields v) 0 = Some (0 + int (length (value_fields v)))"
      by (rule fold_opt_count) (use 4 assms(1) wf in \<open>auto simp: callback list_all_iff field_wf_def dest!: bspec intro!: count_callbacks\<close>)
    then show ?thesis
      using 4 wf by (simp add: count_value_def pb_decode_msg)
  next
    case (5 i fs)
    have "fold_opt (\<lambda>fw n. if fst fw = 2 then run_callback count_labelled (snd fw) n else if fst fw \<in> {1} then pb_null_callback (snd fw) n else Some n)
        (tl (value_fields v)) 0 = Some (0 + int (length (tl (value_fields v))))"
      by (rule fold_opt_count) (use 5 assms(1) wf in \<open>auto simp: callback list_all_iff field_wf_def dest!: bspec intro!: count_callbacks\<close>)
    then show ?thesis
      using 5 wf by (simp add: count_value_def pb_decode_msg pb_null_callback_def pb_callback_payload_def del: One_nat_def)
  next
    case (1 w)
    with assms(1) wf show ?thesis
      by (simp add: count_value_def pb_decode_msg callback count_callbacks field_wf_def)
  next
    case (6 i c w)
    with assms(1) wf show ?thesis
      by (simp add: count_value_def pb_decode_msg callback count_identifier_def identifier_ok_def decode_ident field_wf_def)
         (simp add: text_field_def pb_null_callback_def pb_callback_payload_def)
  next
    case (7 i c)
    with comp_null_msg [OF assms(1,2)] show ?thesis
      by (simp add: count_value_def)
  qed (use assms wf comp_null_msg [OF assms(1,2)] in \<open>simp_all add: count_value_def pb_decode_msg\<close>)
qed

text \<open>Before a value is hashed its elements are counted: the counter then holds the number of elements, or
  what it held before if the value has none to count.\<close>

definition counted :: "daml_value \<Rightarrow> int \<Rightarrow> int" where
  "counted v n = (if value_tag v = 0 then n else int (value_count v))"

lemma count_helpers:
  "value_wf v \<Longrightarrow> length (enc_value v) < 2 ^ 32 \<Longrightarrow> count_value_helper (enc_value v) n = Some (counted v n)"
  "value_wf v \<Longrightarrow> length (labelled l (enc_value v)) < 2 ^ 32 \<Longrightarrow> count_record_field_helper (labelled l (enc_value v)) n = Some (counted v n)"
  "value_wf v \<Longrightarrow> length (labelled l (enc_value v)) < 2 ^ 32 \<Longrightarrow> count_text_map_helper (labelled l (enc_value v)) n = Some (counted v n)"
  "value_wf k \<Longrightarrow> value_wf v \<Longrightarrow> length (entry (enc_value k) (enc_value v)) < 2 ^ 32 \<Longrightarrow>
     count_gen_map_helper (entry (enc_value k) (enc_value v)) n = Some (counted v n)"
proof -
  have dec: "decode_cbValue count_value (enc_value v) (x, n) = Some (value_struct v, counted v n)"
    if "value_wf v" "length (enc_value v) < 2 ^ 32" for v x n
    using decode_value_msg [OF that, of count_value x n] count_value_msg [OF that(1) fields_small [OF that(2)]]
    by (simp add: counted_def)
  show "value_wf v \<Longrightarrow> length (enc_value v) < 2 ^ 32 \<Longrightarrow> count_value_helper (enc_value v) n = Some (counted v n)"
    by (simp add: count_value_helper_def dec)
  show "value_wf v \<Longrightarrow> length (labelled l (enc_value v)) < 2 ^ 32 \<Longrightarrow> count_record_field_helper (labelled l (enc_value v)) n = Some (counted v n)"
    "value_wf v \<Longrightarrow> length (labelled l (enc_value v)) < 2 ^ 32 \<Longrightarrow> count_text_map_helper (labelled l (enc_value v)) n = Some (counted v n)"
    using length_labelled [of "enc_value v" l]
    by (simp_all add: count_record_field_helper_def count_text_map_helper_def labelled_decode null_label_def dec)
  show "value_wf k \<Longrightarrow> value_wf v \<Longrightarrow> length (entry (enc_value k) (enc_value v)) < 2 ^ 32 \<Longrightarrow>
     count_gen_map_helper (entry (enc_value k) (enc_value v)) n = Some (counted v n)"
    using length_entry(1) [of "enc_value k" "enc_value v"] length_entry(2) [of "enc_value v" "enc_value k"]
    by (simp add: count_gen_map_helper_def entry_decode decode_value_null dec)
qed

section \<open>Hashing\<close>

text \<open>A decode that wrote some bytes and changed nothing but the counter besides.\<close>

definition wrote :: "byte list \<Rightarrow> parser_ctx \<Rightarrow> parser_ctx option \<Rightarrow> bool" where
  "wrote bs c r \<longleftrightarrow> (\<exists>n. r = Some (c\<lparr>pc_hash := hw_put bs (pc_hash c), pc_value_elem_count := n\<rparr>))"

lemma wrote_hashing: "wrote bs c (Some (hashing (hw_put bs) c))"
  unfolding wrote_def hashing_def by (rule exI [of _ "pc_value_elem_count c"]) simp

lemma wrote_count: "wrote bs c (Some d) \<Longrightarrow> wrote bs c (Some (d\<lparr>pc_value_elem_count := n\<rparr>))"
  by (auto simp: wrote_def)

lemma wrote_start: "wrote bs (c\<lparr>pc_value_elem_count := n\<rparr>) r \<longleftrightarrow> wrote bs c r"
  by (simp add: wrote_def)

lemma wrote_trans: "wrote bs c (Some d) \<Longrightarrow> wrote bs' d r \<Longrightarrow> wrote (bs @ bs') c r"
  by (auto simp: wrote_def hw_put_def)

lemma wrote_bind: "wrote bs c r \<Longrightarrow> (\<And>d. wrote bs c (Some d) \<Longrightarrow> wrote bs' d (f d)) \<Longrightarrow> wrote (bs @ bs') c (case r of None \<Rightarrow> None | Some d \<Rightarrow> f d)"
  using wrote_trans [of bs c _ bs' "f _"] by (cases r) (simp add: wrote_def, simp)

lemma wrote_fold:
  "(\<And>x d. x \<in> set xs \<Longrightarrow> wrote (g x) d (f x d)) \<Longrightarrow> wrote (concat (map g xs)) c (fold_opt f xs c)"
proof (induction xs arbitrary: c)
  case Nil
  then show ?case
    using wrote_hashing [of "[]" c] by (simp add: hashing_def hw_put_def)
next
  case (Cons x xs)
  have "wrote (g x) c (f x c)"
    using Cons.prems by simp
  then show ?case
    using wrote_bind [of "g x" c "f x c" "concat (map g xs)" "fold_opt f xs"] Cons by auto
qed

lemma short_pieces: "length bs \<le> 63 \<Longrightarrow> pieces63 bs = [bs]"
  by (simp add: pieces63.simps)

lemma label_written:
  assumes "short_text l"
  shows "decode_record_field_label (str_bytes l) c = Some (hashing (hw_put (0x01 # enc_str l)) c)"
    "decode_variant_constructor (str_bytes l) c = Some (hashing (hw_put (enc_str l)) c)"
    "decode_textmap_key (str_bytes l) c = Some (hashing (hw_put (enc_str l)) c)"
  using assms by (simp_all add: short_text_def plain_text_def decode_record_field_label_def decode_variant_constructor_def
      decode_textmap_key_def short_pieces cstr_str_bytes hashing_def hw_put_byte_def hw_put_def)

lemma plain_identifier_complete: "plain_identifier i \<Longrightarrow> encode_identifier i = hw_put (enc_identifier i)"
  by (rule encode_identifier_complete [of True]) (auto simp: plain_identifier_def require_identifier_def require_present_def split: option.split)

lemma identifier_written:
  assumes "plain_identifier i" "length (enc_ident i) < 2 ^ 32"
  shows "wrote (enc_identifier i) c (decode_identifier (enc_ident i) c)"
  using wrote_hashing [of "enc_identifier i" c] plain_identifier_complete [OF assms(1)]
  by (simp add: decode_identifier_def decode_ident [OF assms])

text \<open>A nested decode that hashes a value correctly when its elements were counted.\<close>

definition hashes :: "comp_fun \<Rightarrow> daml_value \<Rightarrow> bool" where
  "hashes sub v \<longleftrightarrow> (\<forall>c. (value_tag v = 1 \<longrightarrow> sub 1 (msg []) c = Some c) \<and>
     (\<not> scalar v \<longrightarrow> pc_value_elem_count c = int (value_count v) \<longrightarrow>
        wrote (canon v) c (sub (value_tag v) (msg (value_fields v)) c)))"

lemma value_part:
  assumes "value_wf v" "length (enc_value v) < 2 ^ 32" "hashes sub v" "pc_value_elem_count c = counted v n"
  shows "wrote (canon v) c (map_option (\<lambda>(y, d). decode_value_primitive_variants y d) (decode_cbValue sub (enc_value v) (x, c)))"
proof (cases "scalar v")
  case True
  have "value_tag v = 0 \<or> value_tag v = 1 \<and> value_fields v = []"
    using True by (cases v) (auto simp: scalar_def)
  then have "decode_cbValue sub (enc_value v) (x, c) = Some (value_struct v, c)"
    using decode_value_msg [OF assms(1,2), of sub x c] assms(3) by (auto simp: hashes_def)
  then show ?thesis
    using scalar_written [OF True] wrote_hashing by simp
next
  case False
  then have "wrote (canon v) c (sub (value_tag v) (msg (value_fields v)) c)"
    using assms(3,4) by (simp add: hashes_def counted_def scalar_def)
  moreover have "decode_value_primitive_variants (value_struct v) d = d" for d
    using False by (cases v) (auto simp: scalar_def)
  ultimately show ?thesis
    using decode_value_msg [OF assms(1,2), of sub x c] False by (auto simp: wrote_def scalar_def)
qed

lemma wrote_after:
  assumes "wrote bs' (hashing (hw_put bs) c) r"
  shows "wrote (bs @ bs') c r"
  using wrote_trans [OF wrote_hashing assms] .

lemma hash_value_written:
  assumes "value_wf v" "length (enc_value v) < 2 ^ 32" "hashes sub v"
  shows "wrote (canon v) c (hash_value sub (enc_value v) c)"
  using value_part [OF assms, of "c\<lparr>pc_value_elem_count := counted v (pc_value_elem_count c)\<rparr>"] count_helpers(1) [OF assms(1,2)]
  by (simp add: hash_value_def counting_def wrote_start)

lemma room_written:
  assumes "value_wf v" "hashes sub v"
  shows "length (enc_value v) < 2 ^ 32 \<Longrightarrow> wrote (canon v) c (decode_value (Some sub) (enc_value v) c)"
    "length (enc_value v) < 2 ^ 32 \<Longrightarrow> wrote (canon v) c (decode_list_elem (Some sub) (enc_value v) c)"
    "short_text l \<Longrightarrow> length (labelled l (enc_value v)) < 2 ^ 32 \<Longrightarrow>
       wrote (0x01 # enc_str l @ canon v) c (decode_record_field (Some sub) (labelled l (enc_value v)) c)"
    "short_text l \<Longrightarrow> length (labelled l (enc_value v)) < 2 ^ 32 \<Longrightarrow>
       wrote (enc_str l @ canon v) c (decode_text_map_entry (Some sub) (labelled l (enc_value v)) c)"
proof -
  show "length (enc_value v) < 2 ^ 32 \<Longrightarrow> wrote (canon v) c (decode_value (Some sub) (enc_value v) c)"
    "length (enc_value v) < 2 ^ 32 \<Longrightarrow> wrote (canon v) c (decode_list_elem (Some sub) (enc_value v) c)"
    using hash_value_written [OF assms(1) _ assms(2)] by (simp_all add: decode_value_def decode_list_elem_def)
  let ?c = "c\<lparr>pc_value_elem_count := counted v (pc_value_elem_count c)\<rparr>"
  have keep: "pc_value_elem_count (hashing f d) = pc_value_elem_count d" for f d
    by (simp add: hashing_def)
  assume l: "short_text l" and small: "length (labelled l (enc_value v)) < 2 ^ 32"
  then have len: "length (enc_value v) < 2 ^ 32"
    using length_labelled [of "enc_value v" l] by simp
  note part = value_part [OF assms(1) len assms(2), of "hashing f ?c" "pc_value_elem_count c" V_none for f]
  show "wrote (0x01 # enc_str l @ canon v) c (decode_record_field (Some sub) (labelled l (enc_value v)) c)"
    using wrote_after [OF part, of "0x01 # enc_str l"] label_written(1) [OF l] count_helpers(2) [OF assms(1) small]
    by (simp add: decode_record_field_def counting_def labelled_decode [OF small] keep wrote_start)
  show "wrote (enc_str l @ canon v) c (decode_text_map_entry (Some sub) (labelled l (enc_value v)) c)"
    using wrote_after [OF part, of "enc_str l"] label_written(3) [OF l] count_helpers(3) [OF assms(1) small]
    by (simp add: decode_text_map_entry_def counting_def labelled_decode [OF small] keep wrote_start)
qed

definition room :: "nat \<Rightarrow> comp_fun option" where
  "room n = (case n of 0 \<Rightarrow> None | Suc m \<Rightarrow> Some (hash_comp m))"

lemma hash_comp_room: "hash_comp n = decode_value_variant (room n)"
  by (cases n) (simp_all add: room_def)

lemma room_deeper: "0 < n \<Longrightarrow> room n = Some (hash_comp (n - 1))"
  by (cases n) (simp_all add: room_def)

lemma enum_written:
  assumes "plain_identifier i" "plain_text t" "length (msg (value_fields (DEnum i t))) < 2 ^ 32"
  shows "hash_comp n 16 (msg (value_fields (DEnum i t))) c = Some (hashing (hw_put (canon (DEnum i t))) c)"
  unfolding hash_comp_room decode_value_variant_def Let_def
  by (simp add: decode_enum_def decode_enum_msg [OF assms, simplified] plain_identifier_complete [OF assms(1)] hashing_def hw_put_byte_def hw_put_def)

lemma key_part:
  assumes "value_wf k" "length (enc_value k) < 2 ^ 32" "uncounted k"
  shows "map_option (\<lambda>(y, d). (y, decode_value_primitive_variants y d)) (decode_cbValue (hash_comp n) (enc_value k) (x, c)) =
    Some (value_struct k, hashing (hw_put (canon k)) c)"
proof (cases "value_tag k = 16")
  case True
  then obtain i t where k: "k = DEnum i t"
    by (cases k) auto
  with assms enum_written [of i t n] fields_small [OF assms(2)] show ?thesis
    using decode_value_msg [OF assms(1,2), of "hash_comp n" x c] by simp
next
  case False
  then have "scalar k" "value_tag k = 0 \<or> value_tag k = 1 \<and> value_fields k = []"
    using assms(3) by (cases k; simp add: scalar_def)+
  moreover have "hash_comp n (Suc 0) (msg []) c = Some c"
    using comp_null_msg [of DUnit c] by (simp add: hash_comp_room decode_value_variant_def msg_def)
  ultimately show ?thesis
    using decode_value_msg [OF assms(1,2), of "hash_comp n" x c] scalar_written [of k] by auto
qed

lemma gen_map_entry_written:
  assumes "value_wf k" "uncounted k" "value_wf v" "hashes (hash_comp n) v"
    and small: "length (entry (enc_value k) (enc_value v)) < 2 ^ 32"
  shows "wrote (canon k @ canon v) c (decode_gen_map_entry (Some (hash_comp n)) (entry (enc_value k) (enc_value v)) c)"
proof -
  have len: "length (enc_value k) < 2 ^ 32" "length (enc_value v) < 2 ^ 32"
    using small length_entry(1) [of "enc_value k" "enc_value v"] length_entry(2) [of "enc_value v" "enc_value k"] by simp_all
  let ?c = "c\<lparr>pc_value_elem_count := counted v (pc_value_elem_count c)\<rparr>"
  let ?d = "hashing (hw_put (canon k)) ?c"
  obtain d where d: "decode_cbValue (hash_comp n) (enc_value k) (V_none, ?c) = Some (value_struct k, d)"
    "decode_value_primitive_variants (value_struct k) d = ?d"
    using key_part [OF assms(1) len(1) assms(2), of n V_none ?c] by (auto simp: map_option_case split: option.splits)
  have "pc_value_elem_count ?d = counted v (pc_value_elem_count c)"
    by (simp add: hashing_def)
  note tail = wrote_after [OF value_part [OF assms(3) len(2) assms(4) this, of V_none]]
  have "pb_decode (gen_map_entry_field (hash_comp n) comp_null) (entry (enc_value k) (enc_value v)) ((V_none, V_none), ?c) =
      Some ((value_struct k, value_struct v), d)"
    by (simp add: entry_decode [OF small] d decode_value_null [OF assms(3) len(2)])
  moreover have "pb_decode (gen_map_entry_field comp_null (hash_comp n)) (entry (enc_value k) (enc_value v)) ((V_none, V_none), ?d) =
      map_option (\<lambda>(y, e). ((value_struct k, y), e)) (decode_cbValue (hash_comp n) (enc_value v) (V_none, ?d))"
    by (simp add: entry_decode [OF small] decode_value_null [OF assms(1) len(1)])
  ultimately show ?thesis
    using tail d(2) count_helpers(4) [OF assms(1,3) small]
    by (simp add: decode_gen_map_entry_def counting_def wrote_start option.map_comp comp_def case_prod_unfold)
qed

lemma depth_member: "x \<in> set xs \<Longrightarrow> x \<le> fold max xs (y :: nat)"
  unfolding Max.set_eq_fold [symmetric] by (rule Max_ge) auto

lemma fields_written:
  assumes "list_all field_wf (map h xs)" "\<And>x d. x \<in> set xs \<Longrightarrow> wrote (g x) d (f (h x) d)"
    "wrote start c (Some c0)"
  shows "wrote (start @ concat (map g xs)) c (pb_decode f (msg (map h xs)) c0)"
proof -
  have "fold_opt f (map h xs) c0 = fold_opt (\<lambda>x. f (h x)) xs c0"
    by (induction xs arbitrary: c0) (auto split: option.split)
  with wrote_trans [OF assms(3) wrote_fold [of xs g "\<lambda>x. f (h x)"]] assms(2) show ?thesis
    by (simp add: pb_decode_msg [OF assms(1)])
qed

lemma opening_written:
  "pc_value_elem_count c = int n \<Longrightarrow> wrote (t # u32_be (of_nat n)) c (Some (put_count (hashing (hw_put_byte t) c)))"
  "pc_value_elem_count c = int n \<Longrightarrow> wrote [t, if n = 0 then 0 else 1] c (Some (put_presence (hashing (hw_put_byte t) c)))"
  by (auto simp: wrote_def put_count_def put_presence_def hashing_def encode_int32_len hw_put_byte_def hw_put_def)

lemma callback_len: "run_callback f (WLen p) s = f p s"
  by (simp add: run_callback_def pb_callback_payload_def)

text \<open>One composite at a time, given that its elements are hashed one level deeper.\<close>

lemma option_hashed:
  assumes "value_wf v" "length (msg (value_fields (DOptional (Some v)))) < 2 ^ 32" "0 < n" "hashes (hash_comp (n - 1)) v"
    "pc_value_elem_count c = 1"
  shows "wrote (canon (DOptional (Some v))) c (hash_comp n 10 (msg (value_fields (DOptional (Some v)))) c)"
proof -
  let ?f = "\<lambda>fw c. if fst fw = 1 then run_callback (decode_value (room n)) (snd fw) c else Some c"
  note wf = value_fields_wf [OF assms(2)]
  have "wrote (canon v) d (?f (1, WLen (enc_value v)) d)" for d
    using wf room_written(1) [OF assms(1,4), of d] by (simp add: callback_len room_deeper [OF assms(3)] field_wf_def)
  then show ?thesis
    using fields_written [of "\<lambda>v. (1, WLen (enc_value v))" "[v]" canon ?f, OF _ _ opening_written(2) [of c 1 9]] wf assms(5)
    by (simp add: hash_comp_room decode_value_variant_def)
qed

lemma list_hashed:
  assumes "list_all value_wf vs" "length (msg (value_fields (DList vs))) < 2 ^ 32"
    "\<And>v. v \<in> set vs \<Longrightarrow> 0 < n \<and> hashes (hash_comp (n - 1)) v" "pc_value_elem_count c = int (length vs)"
  shows "wrote (canon (DList vs)) c (hash_comp n 11 (msg (value_fields (DList vs))) c)"
proof -
  let ?f = "\<lambda>fw c. if fst fw = 1 then run_callback (decode_list_elem (room n)) (snd fw) c else Some c"
  note wf = value_fields_wf [OF assms(2)]
  have "wrote (canon v) d (?f (1, WLen (enc_value v)) d)" if "v \<in> set vs" for v d
    using that assms(1) assms(3) [OF that] wf room_written(2) [of v "hash_comp (n - 1)" d] room_deeper [of n]
    by (auto simp: callback_len list_all_iff field_wf_def)
  then show ?thesis
    using fields_written [of "\<lambda>v. (1, WLen (enc_value v))" vs canon ?f, OF _ _ opening_written(1) [OF assms(4), of "0x0A"]] wf
    by (simp add: hash_comp_room decode_value_variant_def)
qed

lemma text_map_hashed:
  assumes "value_wf (DTextMap es)" "length (msg (value_fields (DTextMap es))) < 2 ^ 32"
    "\<And>k v. (k, v) \<in> set es \<Longrightarrow> 0 < n \<and> hashes (hash_comp (n - 1)) v" "pc_value_elem_count c = int (length es)"
  shows "wrote (canon (DTextMap es)) c (hash_comp n 12 (msg (value_fields (DTextMap es))) c)"
proof -
  let ?f = "\<lambda>fw c. if fst fw = 1 then run_callback (decode_text_map_entry (room n)) (snd fw) c else Some c"
  let ?h = "\<lambda>(k, v). (1, WLen (labelled k (enc_value v)))"
  note wf = value_fields_wf [OF assms(2)]
  have "wrote ((\<lambda>(k, v). enc_str k @ canon v) e) d (?f (?h e) d)" if e: "e \<in> set es" for e d
  proof -
    obtain k v where "e = (k, v)" by fastforce
    with e assms(1) assms(3) [of k v] wf room_written(4) [of v "hash_comp (n - 1)" k d] room_deeper [of n] show ?thesis
      by (fastforce simp: callback_len list_all_iff field_wf_def)
  qed
  from fields_written [where h = ?h and xs = es and g = "\<lambda>(k, v). enc_str k @ canon v" and f = ?f, OF _ this opening_written(1) [OF assms(4), of "0x0B"]] wf show ?thesis
    by (simp add: hash_comp_room decode_value_variant_def del: One_nat_def)
qed

lemma gen_map_hashed:
  assumes "value_wf (DGenMap es)" "length (msg (value_fields (DGenMap es))) < 2 ^ 32"
    "\<And>k v. (k, v) \<in> set es \<Longrightarrow> 0 < n \<and> hashes (hash_comp (n - 1)) v" "pc_value_elem_count c = int (length es)"
  shows "wrote (canon (DGenMap es)) c (hash_comp n 13 (msg (value_fields (DGenMap es))) c)"
proof -
  let ?f = "\<lambda>fw c. if fst fw = 1 then run_callback (decode_gen_map_entry (room n)) (snd fw) c else Some c"
  let ?h = "\<lambda>(k, v). (1, WLen (entry (enc_value k) (enc_value v)))"
  note wf = value_fields_wf [OF assms(2)]
  have "wrote ((\<lambda>(k, v). canon k @ canon v) e) d (?f (?h e) d)" if e: "e \<in> set es" for e d
  proof -
    obtain k v where "e = (k, v)" by fastforce
    with e assms(1) assms(3) [of k v] wf gen_map_entry_written [of k v "n - 1" d] room_deeper [of n] show ?thesis
      by (fastforce simp: callback_len list_all_iff field_wf_def)
  qed
  from fields_written [where h = ?h and xs = es and g = "\<lambda>(k, v). canon k @ canon v" and f = ?f, OF _ this opening_written(1) [OF assms(4), of "0x0F"]] wf show ?thesis
    by (simp add: hash_comp_room decode_value_variant_def del: One_nat_def)
qed

lemma record_id_written:
  assumes "plain_identifier i" "length (enc_ident i) < 2 ^ 32" "pc_value_elem_count c = int n"
  shows "decode_record_id (enc_ident i) c =
    Some ((hashing (hw_put (0x01 # enc_identifier i @ u32_be (of_nat n))) c)\<lparr>pc_value_elem_count := VALUE_ELEM_COUNT_NONE\<rparr>)"
  using assms(3) by (simp add: decode_record_id_def decode_identifier_def decode_ident [OF assms(1,2)] hashing_def
      plain_identifier_complete [OF assms(1)] VALUE_ELEM_COUNT_NONE_def encode_int32_len hw_put_byte_def hw_put_def)

lemma record_hashed:
  assumes "value_wf (DRecord i fs)" "length (msg (value_fields (DRecord i fs))) < 2 ^ 32"
    "\<And>l v. (l, v) \<in> set fs \<Longrightarrow> 0 < n \<and> hashes (hash_comp (n - 1)) v" "pc_value_elem_count c = int (length fs)"
  shows "wrote (canon (DRecord i fs)) c (hash_comp n 14 (msg (value_fields (DRecord i fs))) c)"
proof -
  let ?f = "\<lambda>(fw :: nat \<times> wire) c. if fst fw = 1 then run_callback decode_record_id (snd fw) c
             else if fst fw = 2 then run_callback (decode_record_field (room n)) (snd fw) c else Some c"
  let ?h = "\<lambda>(l, v). (2, WLen (labelled l (enc_value v)))"
  let ?g = "\<lambda>(l, v). 0x01 # enc_str l @ canon v"
  note wf = value_fields_wf [OF assms(2)]
  have elem: "wrote (?g e) d (?f (?h e) d)" if e: "e \<in> set fs" for e d
  proof -
    obtain l v where "e = (l, v)" by fastforce
    moreover from this e have "short_text l" "value_wf v" "length (labelled l (enc_value v)) < 2 ^ 32" "0 < n" "hashes (hash_comp (n - 1)) v"
      using assms(1) assms(3) [of l v] wf by (auto simp: list_all_iff field_wf_def)
    ultimately show ?thesis
      using room_written(3) [of v "hash_comp (n - 1)" l d] by (simp add: callback_len room_deeper)
  qed
  have ident: "plain_identifier i" "length (enc_ident i) < 2 ^ 32"
    using assms(1) wf by (auto simp: field_wf_def)
  let ?c0 = "(hashing (hw_put (0x01 # enc_identifier i @ u32_be (of_nat (length fs)))) (hashing (hw_put_byte 0x0C) c))
     \<lparr>pc_value_elem_count := VALUE_ELEM_COUNT_NONE\<rparr>"
  have c0: "?f (1, WLen (enc_ident i)) (hashing (hw_put_byte 0x0C) c) = Some ?c0"
    using record_id_written [OF ident, of "hashing (hw_put_byte 0x0C) c"] assms(4) by (simp add: callback_len hashing_def)
  have start: "wrote ([0x0C] @ (0x01 # enc_identifier i @ u32_be (of_nat (length fs)))) c (Some ?c0)"
    unfolding hw_put_byte_def by (rule wrote_after) (rule wrote_count [OF wrote_hashing])
  have "list_all field_wf (map ?h fs)"
    using wf by simp
  note rest = fields_written [where h = ?h and xs = fs and g = ?g and f = ?f, OF this elem start, unfolded pb_decode_msg [OF this]]
  have "hash_comp n 14 (msg (value_fields (DRecord i fs))) c = fold_opt ?f (map ?h fs) ?c0"
    unfolding hash_comp_room decode_value_variant_def Let_def pb_decode_msg [OF wf] using c0 by simp
  with rest show ?thesis
    by simp
qed

lemma variant_hashed:
  assumes "value_wf (DVariant i t v)" "length (msg (value_fields (DVariant i t v))) < 2 ^ 32"
    "0 < n" "hashes (hash_comp (n - 1)) v" "pc_value_elem_count c = 1"
  shows "wrote (canon (DVariant i t v)) c (hash_comp n 15 (msg (value_fields (DVariant i t v))) c)"
proof -
  note wf = value_fields_wf [OF assms(2)]
  have ident: "plain_identifier i" "length (enc_ident i) < 2 ^ 32" and v: "value_wf v" "length (enc_value v) < 2 ^ 32" and t: "short_text t"
    using assms(1) wf by (auto simp: field_wf_def)
  let ?c1 = "put_presence (hashing (hw_put_byte 0x0D) c)"
  have "wrote [0x0D, 0x01] c (Some ?c1)"
    using opening_written(2) [of c 1 "0x0D"] assms(5) by simp
  then have "wrote ([0x0D, 0x01] @ enc_identifier i @ enc_str t) c
      (Some (hashing (hw_put (enc_str t)) (hashing (hw_put (enc_identifier i)) ?c1)))"
    by (rule wrote_trans) (rule wrote_trans [OF wrote_hashing wrote_hashing])
  note written = wrote_trans [OF this room_written(1) [OF v(1) assms(4) v(2)]]
  have "hash_comp n 15 (msg (value_fields (DVariant i t v))) c =
      decode_value (room n) (enc_value v) (hashing (hw_put (enc_str t)) (hashing (hw_put (enc_identifier i)) ?c1))"
    unfolding hash_comp_room decode_value_variant_def Let_def pb_decode_msg [OF wf]
    by (simp add: text_field_def callback_len decode_identifier_def decode_ident [OF ident] plain_identifier_complete [OF ident(1)]
        label_written [OF t] split: option.split)
  with written show ?thesis
    by (simp add: room_deeper [OF assms(3)])
qed

lemma hashesI:
  assumes "value_tag v \<noteq> 1"
    "\<And>c. pc_value_elem_count c = int (value_count v) \<Longrightarrow> wrote (canon v) c (sub (value_tag v) (msg (value_fields v)) c)"
  shows "hashes sub v"
  using assms by (simp add: hashes_def)

lemma member_small:
  "(t, WLen p) \<in> set (value_fields v) \<Longrightarrow> length (msg (value_fields v)) < 2 ^ 32 \<Longrightarrow> length p < 2 ^ 32"
  using length_member [of t p "value_fields v"] by simp

lemma labelled_small:
  "(t, WLen (labelled l (enc_value w))) \<in> set (value_fields v) \<Longrightarrow> length (msg (value_fields v)) < 2 ^ 32 \<Longrightarrow> length (enc_value w) < 2 ^ 32"
  using member_small [of t "labelled l (enc_value w)" v] length_labelled [of "enc_value w" l] by simp

lemma hashes_comp:
  "value_wf v \<Longrightarrow> vdepth v \<le> n \<Longrightarrow> length (enc_value v) < 2 ^ 32 \<Longrightarrow> hashes (hash_comp n) v"
proof (induction v arbitrary: n)
  case DUnit
  have "comp_null 1 (msg []) c = Some c" for c :: parser_ctx
    using comp_null_msg [of DUnit c] by (simp add: msg_def)
  then show ?case
    by (simp add: hashes_def scalar_def hash_comp_room decode_value_variant_def)
next
  case (DOptional ov)
  note small = fields_small [OF DOptional.prems(3)]
  show ?case
  proof (cases ov)
    case None
    have "pb_decode f (msg []) c = Some c" for f :: "nat \<times> wire \<Rightarrow> parser_ctx \<Rightarrow> parser_ctx option" and c
      by (subst pb_decode_msg) simp_all
    with None opening_written(2) [of _ 0 9] show ?thesis
      by (intro hashesI) (simp_all add: hash_comp_room decode_value_variant_def)
  next
    case (Some v)
    then have "0 < n" "hashes (hash_comp (n - 1)) v" "value_wf v"
      using DOptional member_small [of 1 "enc_value v" "DOptional ov"] small by auto
    with Some small show ?thesis
      by (intro hashesI) (simp_all add: option_hashed del: value_fields.simps canon.simps)
  qed
next
  case (DList vs)
  note small = fields_small [OF DList.prems(3)]
  have "0 < n \<and> hashes (hash_comp (n - 1)) v" if "v \<in> set vs" for v
    using that DList.prems(1,2) DList.IH [OF that, of "n - 1"] depth_member [of "Suc (vdepth v)" "map (\<lambda>v. Suc (vdepth v)) vs" 0]
      member_small [of 1 "enc_value v" "DList vs"] small
    by (auto simp: list_all_iff)
  with DList.prems small show ?case
    by (intro hashesI) (simp_all add: list_hashed del: value_fields.simps canon.simps)
next
  case (DTextMap es)
  note small = fields_small [OF DTextMap.prems(3)]
  have "0 < n \<and> hashes (hash_comp (n - 1)) v" if "(k, v) \<in> set es" for k v
    using that DTextMap.prems(1,2) DTextMap.IH [of "(k, v)" v "n - 1"] depth_member [of "Suc (vdepth v)" "map (\<lambda>(k, v). Suc (vdepth v)) es" 0]
      labelled_small [of 1 k v "DTextMap es"] small
    by (force simp: list_all_iff)
  with DTextMap.prems small show ?case
    by (intro hashesI) (simp_all add: text_map_hashed del: value_fields.simps canon.simps value_wf.simps)
next
  case (DGenMap es)
  note small = fields_small [OF DGenMap.prems(3)]
  have "0 < n \<and> hashes (hash_comp (n - 1)) v" if "(k, v) \<in> set es" for k v
    using that DGenMap.prems(1,2) DGenMap.IH [of "(k, v)" v "n - 1"] depth_member [of "Suc (max (vdepth k) (vdepth v))" "map (\<lambda>(k, v). Suc (max (vdepth k) (vdepth v))) es" 0]
      member_small [of 1 "entry (enc_value k) (enc_value v)" "DGenMap es"] length_entry(2) [of "enc_value v" "enc_value k"] small
    by (force simp: list_all_iff)
  with DGenMap.prems small show ?case
    by (intro hashesI) (simp_all add: gen_map_hashed del: value_fields.simps canon.simps value_wf.simps)
next
  case (DRecord i fs)
  note small = fields_small [OF DRecord.prems(3)]
  have "0 < n \<and> hashes (hash_comp (n - 1)) v" if "(l, v) \<in> set fs" for l v
    using that DRecord.prems(1,2) DRecord.IH [of "(l, v)" v "n - 1"] depth_member [of "Suc (vdepth v)" "map (\<lambda>(l, v). Suc (vdepth v)) fs" 0]
      labelled_small [of 2 l v "DRecord i fs"] small
    by (force simp: list_all_iff)
  with DRecord.prems small show ?case
    by (intro hashesI) (simp_all add: record_hashed del: value_fields.simps canon.simps value_wf.simps)
next
  case (DVariant i t v)
  note small = fields_small [OF DVariant.prems(3)]
  have "0 < n" "hashes (hash_comp (n - 1)) v"
    using DVariant member_small [of 3 "enc_value v" "DVariant i t v"] small by auto
  with DVariant.prems(1) small show ?case
    by (intro hashesI) (simp_all add: variant_hashed del: value_fields.simps canon.simps value_wf.simps)
next
  case (DEnum i t)
  with fields_small [OF DEnum.prems(3)] show ?case
    by (intro hashesI) (simp_all add: enum_written wrote_hashing del: value_fields.simps)
qed (simp_all add: hashes_def scalar_def)

end
