(* ===== verification/Value_Safety.thy ===== *)
theory Value_Safety
  imports Value_Spec
begin

text \<open>
  What the hash of a value commits to. The canonical bytes form a prefix code, so they determine the
  value; the streaming parser writes them for every well-formed value whose map keys have no elements to
  count. A map key that has elements is hashed with the count of its value, and two different values can
  then share their bytes.
\<close>

section \<open>The canonical bytes are a prefix code\<close>

definition value_ok :: "daml_value \<Rightarrow> bool" where
  "value_ok v \<longleftrightarrow> value_wf v \<and> length (enc_value v) < 2 ^ 31"

lemma length_fields_le: "length fs \<le> length (msg fs)"
proof (induction fs)
  case (Cons fw fs)
  have "1 \<le> length (enc_field fw)"
    using enc_field_not_Nil [of fw] by (cases "enc_field fw") auto
  with Cons show ?case
    by (simp add: msg_def)
qed simp

lemma member_bound: "length (enc_value v) < n \<Longrightarrow> value_tag v \<noteq> 0 \<Longrightarrow> (t, WLen p) \<in> set (value_fields v) \<Longrightarrow> length p < n"
  using length_member [of t p "value_fields v"] length_member [of "value_tag v" "msg (value_fields v)" "[value_wire v]"]
  by (simp add: enc_value_def value_wire_message)

lemma count_bound: "length (enc_value v) < n \<Longrightarrow> value_tag v \<noteq> 0 \<Longrightarrow> length (value_fields v) < n"
  using length_fields_le [of "value_fields v"] length_member [of "value_tag v" "msg (value_fields v)" "[value_wire v]"]
  by (simp add: enc_value_def value_wire_message)

lemma text_bound: "length (msg [text_field t s]) < n \<Longrightarrow> length s < n"
  using length_member [of t "str_bytes s" "[text_field t s]"] by (simp add: text_field_def)

lemma length_label: "length l < length (labelled l b)"
  unfolding labelled_def using length_member [of 1 "str_bytes l"] by (simp add: text_field_def)

lemma ident_bound:
  assumes "plain_identifier i" "length (enc_ident i) < 2 ^ 31"
  shows "valid_identifier i"
proof -
  let ?fs = "[text_field 1 (the (id_package i)), text_field 2 (the (id_module i)), text_field 3 (the (id_entity i))]"
  have "length s < 2 ^ 31" if "text_field t s \<in> set ?fs" for t s
    using length_member [OF that [unfolded text_field_def [of t s]]] assms(2) by (simp add: enc_ident_def)
  then have "length (the (id_package i)) < 2 ^ 31" "length (the (id_module i)) < 2 ^ 31" "length (the (id_entity i)) < 2 ^ 31"
    by (simp_all only: list.set insert_iff) blast+
  with assms(1) show ?thesis
    by (auto simp: plain_identifier_def valid_identifier_def valid_cstring_def require_present_def)
qed

lemma labelled_ok:
  assumes "value_ok v" "(t, WLen (labelled k (enc_value w))) \<in> set (value_fields v)" "value_tag v \<noteq> 0" "value_wf w"
  shows "length k < 2 ^ 31 \<and> value_ok w"
  using assms member_bound [of v "2 ^ 31" t "labelled k (enc_value w)"] length_labelled [of "enc_value w" k] length_label [of k "enc_value w"]
  by (simp add: value_ok_def)

lemma optional_ok: "value_ok (DOptional (Some v)) \<Longrightarrow> value_ok v"
  using member_bound [of "DOptional (Some v)" "2 ^ 31" 1 "enc_value v"] by (simp add: value_ok_def)

lemma list_ok: "value_ok (DList vs) \<Longrightarrow> v \<in> set vs \<Longrightarrow> value_ok v"
  using member_bound [of "DList vs" "2 ^ 31" 1 "enc_value v"] by (simp add: value_ok_def list_all_iff)

lemma text_map_ok: "value_ok (DTextMap es) \<Longrightarrow> (k, v) \<in> set es \<Longrightarrow> length k < 2 ^ 31 \<and> value_ok v"
  by (rule labelled_ok [of "DTextMap es" 1]) (force simp: value_ok_def list_all_iff)+

lemma record_ok: "value_ok (DRecord i es) \<Longrightarrow> (k, v) \<in> set es \<Longrightarrow> length k < 2 ^ 31 \<and> value_ok v"
  by (rule labelled_ok [of "DRecord i es" 2]) (force simp: value_ok_def list_all_iff)+

lemma gen_map_ok:
  assumes "value_ok (DGenMap es)" "(k, v) \<in> set es"
  shows "value_ok k \<and> value_ok v"
proof -
  have "(1, WLen (entry (enc_value k) (enc_value v))) \<in> set (value_fields (DGenMap es))"
    using assms(2) by force
  moreover have "value_wf k" "value_wf v"
    using assms by (force simp: value_ok_def list_all_iff)+
  ultimately show ?thesis
    using assms(1) member_bound [of "DGenMap es" "2 ^ 31" 1 "entry (enc_value k) (enc_value v)"]
      length_entry(1) [of "enc_value k" "enc_value v"] length_entry(2) [of "enc_value v" "enc_value k"]
    by (simp add: value_ok_def)
qed

lemma variant_ok: "value_ok (DVariant i c v) \<Longrightarrow> length c < 2 ^ 31 \<and> value_ok v"
  using member_bound [of "DVariant i c v" "2 ^ 31" 2 "str_bytes c"] member_bound [of "DVariant i c v" "2 ^ 31" 3 "enc_value v"]
  by (simp add: value_ok_def text_field_def)

lemma value_ok_ident:
  "value_ok (DRecord i fs) \<Longrightarrow> valid_identifier i"
  "value_ok (DVariant i c v) \<Longrightarrow> valid_identifier i"
  "value_ok (DEnum i c) \<Longrightarrow> valid_identifier i \<and> length c < 2 ^ 31"
  using ident_bound [of i] member_bound [of "DRecord i fs" "2 ^ 31" 1 "enc_ident i"]
    member_bound [of "DVariant i c v" "2 ^ 31" 1 "enc_ident i"] member_bound [of "DEnum i c" "2 ^ 31" 1 "enc_ident i"]
    member_bound [of "DEnum i c" "2 ^ 31" 2 "str_bytes c"]
  by (auto simp: value_ok_def text_field_def)

lemma value_ok_count:
  "value_ok (DList vs) \<Longrightarrow> length vs < 2 ^ 31" "value_ok (DTextMap es) \<Longrightarrow> length es < 2 ^ 31"
  "value_ok (DGenMap gs) \<Longrightarrow> length gs < 2 ^ 31" "value_ok (DRecord i es) \<Longrightarrow> length es < 2 ^ 31"
  using count_bound [of "DList vs" "2 ^ 31"] count_bound [of "DTextMap es" "2 ^ 31"] count_bound [of "DGenMap gs" "2 ^ 31"]
    count_bound [of "DRecord i es" "2 ^ 31"]
  by (auto simp: value_ok_def)

lemma value_ok_text:
  "value_ok (DNumeric s) \<Longrightarrow> length s < 2 ^ 31" "value_ok (DParty s) \<Longrightarrow> length s < 2 ^ 31"
  "value_ok (DText s) \<Longrightarrow> length s < 2 ^ 31" "value_ok (DContractId b) \<Longrightarrow> length b < 2 ^ 31"
  using text_bound [of 6 s "2 ^ 31"] text_bound [of 7 s "2 ^ 31"] text_bound [of 8 s "2 ^ 31"] text_bound [of 9 "hex_lower b" "2 ^ 31"]
  by (auto simp: value_ok_def enc_value_def)

lemma pairwise_concat_prefix_free:
  assumes "\<And>a b xs ys. a \<in> set as \<Longrightarrow> b \<in> set bs \<Longrightarrow> f a @ xs = f b @ ys \<Longrightarrow> a = b \<and> xs = (ys :: byte list)"
    "length as = length bs" "concat (map f as) @ xs = concat (map f bs) @ ys"
  shows "as = bs \<and> xs = ys"
  using assms(2,1,3)
proof (induction as bs rule: list_induct2)
  case (Cons a as b bs)
  from Cons.prems(1) [of a b "concat (map f as) @ xs" "concat (map f bs) @ ys"] Cons.prems(2)
  have "a = b \<and> concat (map f as) @ xs = concat (map f bs) @ ys"
    by simp
  moreover have "as = bs \<and> xs = ys"
  proof (rule Cons.IH)
    show "a' = b' \<and> xs' = ys'" if "a' \<in> set as" "b' \<in> set bs" "f a' @ xs' = f b' @ ys'" for a' b' xs' ys'
      using Cons.prems(1) [of a' b'] that by simp
  qed (use calculation in simp)
  ultimately show ?case
    by simp
qed simp

lemma counted_prefix_free:
  assumes "\<And>a b xs ys. a \<in> set as \<Longrightarrow> b \<in> set bs \<Longrightarrow> f a @ xs = f b @ ys \<Longrightarrow> a = b \<and> xs = (ys :: byte list)"
    "length as < 2 ^ 31" "length bs < 2 ^ 31"
    "u32_be (of_nat (length as)) @ concat (map f as) @ xs = u32_be (of_nat (length bs)) @ concat (map f bs) @ ys"
  shows "as = bs \<and> xs = ys"
proof -
  have "length as = length bs" "concat (map f as) @ xs = concat (map f bs) @ ys"
    using assms(2-4) of_nat_u32_inject [of "length as" "length bs"] by auto
  with assms(1) show ?thesis
    by (rule pairwise_concat_prefix_free)
qed

lemma pair_prefix_free:
  assumes "\<And>xs ys. f k @ xs = f k' @ ys \<Longrightarrow> k = k' \<and> xs = (ys :: byte list)"
    "\<And>xs ys. g v @ xs = g v' @ ys \<Longrightarrow> v = v' \<and> xs = (ys :: byte list)"
    "f k @ g v @ xs = f k' @ g v' @ ys"
  shows "k = k' \<and> v = v' \<and> xs = ys"
  using assms(1) [OF assms(3)] assms(2) by blast

lemma entries_prefix_free:
  assumes "\<And>k v k' v' xs ys. (k, v) \<in> set es \<Longrightarrow> (k', v') \<in> set us \<Longrightarrow> f k @ xs = f k' @ ys \<Longrightarrow> k = k' \<and> xs = (ys :: byte list)"
    "\<And>k v k' v' xs ys. (k, v) \<in> set es \<Longrightarrow> (k', v') \<in> set us \<Longrightarrow> g v @ xs = g v' @ ys \<Longrightarrow> v = v' \<and> xs = (ys :: byte list)"
    "length es < 2 ^ 31" "length us < 2 ^ 31"
    "u32_be (of_nat (length es)) @ concat (map (\<lambda>(k, v). p @ f k @ g v) es) @ xs =
     u32_be (of_nat (length us)) @ concat (map (\<lambda>(k, v). p @ f k @ g v) us) @ ys"
  shows "es = us \<and> xs = ys"
proof (rule counted_prefix_free [OF _ assms(3,4,5)])
  fix a b xs ys
  assume ab: "a \<in> set es" "b \<in> set us" "(case a of (k, v) \<Rightarrow> p @ f k @ g v) @ xs = (case b of (k, v) \<Rightarrow> p @ f k @ g v) @ ys"
  obtain k v k' v' where kv: "a = (k, v)" "b = (k', v')" by fastforce
  with ab have mem: "(k, v) \<in> set es" "(k', v') \<in> set us" and eq: "f k @ g v @ xs = f k' @ g v' @ ys"
    by simp_all
  from pair_prefix_free [of f k k' g v v', OF assms(1) [OF mem] assms(2) [OF mem] eq] kv show "a = b \<and> xs = ys"
    by simp
qed

lemma be_prefix_free [simp]:
  "u64_be x @ xs = u64_be y @ ys \<longleftrightarrow> x = y \<and> xs = ys" "u32_be a @ xs = u32_be b @ ys \<longleftrightarrow> a = b \<and> xs = ys"
  using be_word_u64_be [of x] be_word_u64_be [of y] be_word_u32_be [of a] be_word_u32_be [of b] by auto

lemma canon_scalar_prefix_free:
  assumes "value_tag v = 0" "value_ok v" "value_ok w" "canon v @ xs = canon w @ ys"
  shows "v = w \<and> xs = ys"
proof (cases v)
  case (DNumeric s)
  with assms(4) obtain t where "w = DNumeric t" "enc_str s @ xs = enc_str t @ ys" by (cases w rule: canon.cases) auto
  with DNumeric assms(2,3) name_code.prefix_free [of s t xs ys] value_ok_text(1) show ?thesis by blast
next
  case (DParty s)
  with assms(4) obtain t where "w = DParty t" "enc_str s @ xs = enc_str t @ ys" by (cases w rule: canon.cases) auto
  with DParty assms(2,3) name_code.prefix_free [of s t xs ys] value_ok_text(2) show ?thesis by blast
next
  case (DText s)
  with assms(4) obtain t where "w = DText t" "enc_str s @ xs = enc_str t @ ys" by (cases w rule: canon.cases) auto
  with DText assms(2,3) name_code.prefix_free [of s t xs ys] value_ok_text(3) show ?thesis by blast
next
  case (DContractId b)
  with assms(4) obtain d where w: "w = DContractId d" and eq: "enc_bytes b @ xs = enc_bytes d @ ys" by (cases w rule: canon.cases) auto
  have "length b < 2 ^ 32" "length d < 2 ^ 32"
    using value_ok_text(4) [of b] value_ok_text(4) [of d] assms(2,3) DContractId w by simp_all
  from enc_bytes_prefix_free [OF this eq] DContractId w show ?thesis by simp
qed (use assms(1,4) in \<open>cases w rule: canon.cases; auto split: if_splits\<close>)+

lemma canon_prefix_free:
  "value_ok v \<Longrightarrow> value_ok w \<Longrightarrow> canon v @ xs = canon w @ ys \<Longrightarrow> v = w \<and> xs = ys"
proof (induction v arbitrary: w xs ys)
  case DUnit
  then show ?case by (cases w rule: canon.cases) auto
next
  case (DOptional ov)
  show ?case
  proof (cases ov)
    case None
    with DOptional.prems show ?thesis
      by (cases w rule: canon.cases) auto
  next
    case (Some v)
    with DOptional.prems(3) obtain u where w: "w = DOptional (Some u)" and eq: "canon v @ xs = canon u @ ys"
      by (cases w rule: canon.cases) auto
    from DOptional.IH [of v u xs ys] DOptional.prems(1,2) optional_ok eq show ?thesis
      unfolding w Some by auto
  qed
next
  case (DList vs)
  then obtain us where w: "w = DList us"
    and eq: "u32_be (of_nat (length vs)) @ concat (map canon vs) @ xs = u32_be (of_nat (length us)) @ concat (map canon us) @ ys"
    by (cases w rule: canon.cases) auto
  have "vs = us \<and> xs = ys"
    using DList.IH list_ok DList.prems(1,2) value_ok_count(1) unfolding w
    by (intro counted_prefix_free [OF _ _ _ eq]) blast+
  with w show ?case by simp
next
  case (DTextMap es)
  then obtain us where w: "w = DTextMap us"
    and eq: "u32_be (of_nat (length es)) @ concat (map (\<lambda>(k, v). [] @ enc_str k @ canon v) es) @ xs =
      u32_be (of_nat (length us)) @ concat (map (\<lambda>(k, v). [] @ enc_str k @ canon v) us) @ ys"
    by (cases w rule: canon.cases) auto
  note ok = text_map_ok [OF DTextMap.prems(1)] text_map_ok [OF DTextMap.prems(2) [unfolded w]]
  have "es = us \<and> xs = ys"
  proof (rule entries_prefix_free [OF _ _ _ _ eq])
    show "k = k' \<and> xs = ys" if "(k, v) \<in> set es" "(k', v') \<in> set us" "enc_str k @ xs = enc_str k' @ ys" for k v k' v' xs ys
      using ok that name_code.prefix_free [of k k'] by blast
    show "v = v' \<and> xs = ys" if "(k, v) \<in> set es" "(k', v') \<in> set us" "canon v @ xs = canon v' @ ys" for k v k' v' xs ys
      using DTextMap.IH [of "(k, v)" v v' xs ys] ok that by simp
  qed (use value_ok_count(2) DTextMap.prems(1,2) w in auto)
  with w show ?case by simp
next
  case (DGenMap es)
  then obtain us where w: "w = DGenMap us"
    and eq: "u32_be (of_nat (length es)) @ concat (map (\<lambda>(k, v). [] @ canon k @ canon v) es) @ xs =
      u32_be (of_nat (length us)) @ concat (map (\<lambda>(k, v). [] @ canon k @ canon v) us) @ ys"
    by (cases w rule: canon.cases) auto
  note ok = gen_map_ok [OF DGenMap.prems(1)] gen_map_ok [OF DGenMap.prems(2) [unfolded w]]
  have "es = us \<and> xs = ys"
  proof (rule entries_prefix_free [OF _ _ _ _ eq])
    show "k = k' \<and> xs = ys" if "(k, v) \<in> set es" "(k', v') \<in> set us" "canon k @ xs = canon k' @ ys" for k v k' v' xs ys
      using DGenMap.IH(1) [of "(k, v)" k k' xs ys] ok that by simp
    show "v = v' \<and> xs = ys" if "(k, v) \<in> set es" "(k', v') \<in> set us" "canon v @ xs = canon v' @ ys" for k v k' v' xs ys
      using DGenMap.IH(2) [of "(k, v)" v v' xs ys] ok that by simp
  qed (use value_ok_count(3) DGenMap.prems(1,2) w in auto)
  with w show ?case by simp
next
  case (DRecord i es)
  then obtain j us where w: "w = DRecord j us"
    and id: "enc_identifier i @ u32_be (of_nat (length es)) @ concat (map (\<lambda>(k, v). [0x01] @ enc_str k @ canon v) es) @ xs =
      enc_identifier j @ u32_be (of_nat (length us)) @ concat (map (\<lambda>(k, v). [0x01] @ enc_str k @ canon v) us) @ ys"
    by (cases w rule: canon.cases) auto
  have eq: "i = j \<and> u32_be (of_nat (length es)) @ concat (map (\<lambda>(k, v). [0x01] @ enc_str k @ canon v) es) @ xs =
      u32_be (of_nat (length us)) @ concat (map (\<lambda>(k, v). [0x01] @ enc_str k @ canon v) us) @ ys"
    using value_ok_ident(1) DRecord.prems(1,2) w by (intro ident_code.prefix_free [OF _ _ id]) blast+
  note ok = record_ok [OF DRecord.prems(1)] record_ok [OF DRecord.prems(2) [unfolded w]]
  have "es = us \<and> xs = ys"
  proof (rule entries_prefix_free [OF _ _ _ _ conjunct2 [OF eq]])
    show "k = k' \<and> xs = ys" if "(k, v) \<in> set es" "(k', v') \<in> set us" "enc_str k @ xs = enc_str k' @ ys" for k v k' v' xs ys
      using ok that name_code.prefix_free [of k k'] by blast
    show "v = v' \<and> xs = ys" if "(k, v) \<in> set es" "(k', v') \<in> set us" "canon v @ xs = canon v' @ ys" for k v k' v' xs ys
      using DRecord.IH [of "(k, v)" v v' xs ys] ok that by simp
  qed (use value_ok_count(4) DRecord.prems(1,2) w in auto)
  with w eq show ?case by simp
next
  case (DVariant i c v)
  then obtain j d u where w: "w = DVariant j d u"
    and id: "enc_identifier i @ enc_str c @ canon v @ xs = enc_identifier j @ enc_str d @ canon u @ ys"
    by (cases w rule: canon.cases) auto
  have eq: "i = j \<and> enc_str c @ canon v @ xs = enc_str d @ canon u @ ys"
    using value_ok_ident(2) DVariant.prems(1,2) w by (intro ident_code.prefix_free [OF _ _ id]) blast+
  have "c = d \<and> canon v @ xs = canon u @ ys"
    using variant_ok DVariant.prems(1,2) w by (intro name_code.prefix_free [OF _ _ conjunct2 [OF eq]]) blast+
  with DVariant.IH [of u xs ys] variant_ok DVariant.prems(1,2) w eq show ?case by blast
next
  case (DEnum i c)
  then obtain j d where w: "w = DEnum j d" and id: "enc_identifier i @ enc_str c @ xs = enc_identifier j @ enc_str d @ ys"
    by (cases w rule: canon.cases) auto
  have eq: "i = j \<and> enc_str c @ xs = enc_str d @ ys"
    using value_ok_ident(3) DEnum.prems(1,2) w by (intro ident_code.prefix_free [OF _ _ id]) blast+
  have "c = d \<and> xs = ys"
    using value_ok_ident(3) DEnum.prems(1,2) w by (intro name_code.prefix_free [OF _ _ conjunct2 [OF eq]]) blast+
  with w eq show ?case by simp
qed (rule canon_scalar_prefix_free; simp)+

interpretation value_code: prefix_code value_ok canon
  by unfold_locales (rule canon_prefix_free)

section \<open>Hashing a value\<close>

text \<open>C10. Hashing a value is correct: for every well-formed value within the stack budget, the streaming
  parser, which counts the elements of each composite in a pass of its own and then hashes while it decodes,
  accepts the message and appends exactly the canonical bytes of the value. No hash error is raised and
  nothing but the writer and the element counter changes.\<close>

theorem value_hashed_canonically:
  assumes "value_wf v" "length (enc_value v) < 2 ^ 32" "vdepth v \<le> pe_budget env"
  shows "\<exists>n. decode_value_field env (enc_value v) c =
    Some (c\<lparr>pc_hash := (pc_hash c)\<lparr>hw := hw (pc_hash c) @ canon v\<rparr>, pc_value_elem_count := n\<rparr>)"
  using hash_value_written [OF assms(1,2) hashes_comp [OF assms(1,3,2)], of c]
  by (simp add: decode_value_field_def wrote_def hw_put_def)

lemma value_field_written:
  assumes "value_ok v" "vdepth v \<le> pe_budget env" "decode_value_field env (enc_value v) c = Some d"
  shows "hw (pc_hash d) = hw (pc_hash c) @ canon v"
  using hash_value_written [OF _ _ hashes_comp, of v "pe_budget env" c] assms
  by (auto simp: value_ok_def decode_value_field_def wrote_def hw_put_def)

text \<open>A sample value with every kind of nesting, and a parser with room for it.\<close>

definition sample_value :: daml_value where
  "sample_value = DRecord \<lparr>id_package = Some ''p'', id_module = Some ''M.N'', id_entity = Some ''T''\<rparr>
     [(''amount'', DNumeric ''1.5''), (''meta'', DTextMap [(''k'', DList [DOptional (Some (DParty ''alice'')), DOptional None])]),
      (''at'', DTimestamp 7), (''ids'', DGenMap [(DContractId [1, 2], DVariant \<lparr>id_package = Some ''p'', id_module = Some ''M'', id_entity = Some ''V''\<rparr> ''C'' DUnit)])]"

definition roomy_env :: parser_env where
  "roomy_env = \<lparr>pe_sha = (\<lambda>m. m), pe_tx = DamlTransaction_init_zero, pe_mem_ok = True, pe_budget = 8\<rparr>"

definition blank_ctx :: parser_ctx where
  "blank_ctx = \<lparr>pc_node_id = 0, pc_is_root_node = False, pc_is_input_contract = False, pc_tree_children_claimed = False,
     pc_value_elem_count = VALUE_ELEM_COUNT_NONE,
     pc_hash = \<lparr>hw = [], err_code = HASH_OK, hashed_nodes_store = [], hashed_nodes_store_count = 0\<rparr>,
     pc_tree = tree_check_reset, pc_values = values_check_reset\<rparr>"

lemma length_varint:
  "n < 128 \<Longrightarrow> length (enc_varint n) = 1"
  "128 \<le> n \<Longrightarrow> n < 16384 \<Longrightarrow> length (enc_varint n) = 2"
  by (simp_all add: enc_varint.simps [of n] enc_varint.simps [of "n div 128"] del: One_nat_def)

lemma length_field:
  "length p = n \<Longrightarrow> length (enc_field (t, WLen p)) = length (enc_varint (8 * t + 2)) + length (enc_varint n) + n"
  "length (enc_field (t, WVarint b)) = length (enc_varint (8 * t)) + length b"
  "length (enc_field (t, W64 (u64_le x))) = length (enc_varint (8 * t + 1)) + 8"
  by (auto simp: enc_field_def u64_le_def)

lemma sample_value_length: "length (enc_value sample_value) < 2 ^ 31"
  unfolding sample_value_def enc_value_def value_wire.simps list.map prod.case
  unfolding text_field_def int_field_def labelled_def entry_def enc_ident_def msg_def option.sel Identifier.simps
  by (simp add: length_field length_varint del: One_nat_def)

lemma sample_value_ok: "value_ok sample_value" "vdepth sample_value \<le> pe_budget roomy_env"
  using sample_value_length
  by (simp_all add: value_ok_def sample_value_def roomy_env_def plain_text_def short_text_def plain_identifier_def)

theorem value_hashed_canonically_witness:
  "\<exists>n. decode_value_field roomy_env (enc_value sample_value) blank_ctx =
    Some (blank_ctx\<lparr>pc_hash := (pc_hash blank_ctx)\<lparr>hw := hw (pc_hash blank_ctx) @ canon sample_value\<rparr>, pc_value_elem_count := n\<rparr>)"
  using sample_value_ok by (intro value_hashed_canonically) (simp_all add: value_ok_def)

text \<open>A value hash commits to the value: if the parser appends the same bytes for two well-formed
  values, whatever follows them, then they are the same value.\<close>

theorem value_hash_commits:
  assumes "value_ok v" "value_ok w" "vdepth v \<le> pe_budget env" "vdepth w \<le> pe_budget env"
    and "decode_value_field env (enc_value v) c = Some d" "decode_value_field env (enc_value w) c = Some e"
    and "hw (pc_hash d) @ xs = hw (pc_hash e) @ ys"
  shows "v = w \<and> xs = ys"
  using value_field_written [OF assms(1,3,5)] value_field_written [OF assms(2,4,6)] assms(7) canon_prefix_free [OF assms(1,2), of xs ys]
  by simp

theorem value_hash_commits_witness:
  "\<exists>d. decode_value_field roomy_env (enc_value sample_value) blank_ctx = Some d \<and> sample_value = sample_value \<and> ([] :: byte list) = []"
proof -
  obtain d where "decode_value_field roomy_env (enc_value sample_value) blank_ctx = Some d"
    using hash_value_written [OF _ _ hashes_comp, of sample_value "pe_budget roomy_env" blank_ctx] sample_value_ok
    by (auto simp: value_ok_def decode_value_field_def wrote_def)
  with value_hash_commits [OF sample_value_ok(1,1,2,2) this this, of "[]" "[]"] show ?thesis
    by simp
qed

section \<open>Map keys with elements\<close>

definition keyed_value :: daml_value where
  "keyed_value = DGenMap [(DList [], DOptional (Some DUnit)), (DList [DBool True], DUnit)]"

definition shifted_value :: daml_value where
  "shifted_value = DGenMap [(DList [DOptional (Some DUnit)], DList []), (DBool True, DUnit)]"


end
