(* ===== verification/Node_Hash.thy ===== *)
theory Node_Hash
  imports Value_Safety
begin

text \<open>
  What hashing a node computes. A ledger node is one of the four kinds of \<^verbatim>\<open>device.proto\<close> the
  device accepts, its values given as ledger values; \<^verbatim>\<open>enc_node\<close> writes the part the host sends and
  \<^verbatim>\<open>node_bytes\<close> the bytes the hashing scheme prescribes. The parser decodes a create twice and an
  exercise three times, each time with another callback set, and hashes in between; the result is the
  hash of exactly these bytes, entered where the parent or the transaction finds it.
\<close>

section \<open>Nodes\<close>

datatype daml_node =
    NCreate Node_Create daml_value
  | NExercise Node_Exercise daml_value daml_value
  | NFetch Node_Fetch
  | NRollback Node_Rollback

definition head_fields :: "cstring \<Rightarrow> cstring \<Rightarrow> cstring \<Rightarrow> Identifier \<Rightarrow> (nat \<times> wire) list" where
  "head_fields version cid package template =
     [text_field 1 (the version), text_field 2 (the cid), text_field 3 (the package), (4, WLen (enc_ident template))]"

definition interface_field :: "Identifier option \<Rightarrow> (nat \<times> wire) list" where
  "interface_field i = (case i of None \<Rightarrow> [] | Some j \<Rightarrow> [(8, WLen (enc_ident j))])"

definition create_fields :: "Node_Create \<Rightarrow> daml_value \<Rightarrow> (nat \<times> wire) list" where
  "create_fields cr v = head_fields (cr_lf_version cr) (cr_contract_id cr) (cr_package_name cr) (cr_template_id cr) @
     (5, WLen (enc_value v)) # map (text_field 6) (cr_signatories cr) @ map (text_field 7) (cr_stakeholders cr)"

definition exercise_front :: "Node_Exercise \<Rightarrow> (nat \<times> wire) list" where
  "exercise_front e = head_fields (ex_lf_version e) (ex_contract_id e) (ex_package_name e) (ex_template_id e) @
     map (text_field 5) (ex_signatories e) @ map (text_field 6) (ex_stakeholders e) @
     map (text_field 7) (ex_acting_parties e) @ interface_field (ex_interface_id e) @ [text_field 9 (the (ex_choice_id e))]"

definition exercise_middle :: "Node_Exercise \<Rightarrow> (nat \<times> wire) list" where
  "exercise_middle e = int_field 11 (if ex_consuming e then 1 else 0) # map (text_field 12) (ex_children e)"

definition exercise_fields :: "Node_Exercise \<Rightarrow> daml_value \<Rightarrow> daml_value \<Rightarrow> (nat \<times> wire) list" where
  "exercise_fields e v w = exercise_front e @ (10, WLen (enc_value v)) # exercise_middle e @
     (13, WLen (enc_value w)) # map (text_field 14) (ex_choice_observers e)"

definition fetch_fields :: "Node_Fetch \<Rightarrow> (nat \<times> wire) list" where
  "fetch_fields f = head_fields (fe_lf_version f) (fe_contract_id f) (fe_package_name f) (fe_template_id f) @
     map (text_field 5) (fe_signatories f) @ map (text_field 6) (fe_stakeholders f) @
     map (text_field 7) (fe_acting_parties f) @ interface_field (fe_interface_id f)"

fun node_wire :: "daml_node \<Rightarrow> nat \<times> wire" where
  "node_wire (NCreate cr v) = (1, WLen (msg (create_fields cr v)))"
| "node_wire (NFetch f) = (2, WLen (msg (fetch_fields f)))"
| "node_wire (NExercise e v w) = (3, WLen (msg (exercise_fields e v w)))"
| "node_wire (NRollback r) = (4, WLen (msg (map (text_field 1) (ro_children r))))"

definition enc_node :: "string \<Rightarrow> daml_node \<Rightarrow> byte list" where
  "enc_node node_id n = msg [text_field 1 node_id, (1000, WLen (msg [node_wire n]))]"

text \<open>The bytes to hash, given the hashes of the nodes received before.\<close>

definition enc_children :: "hash_ctx \<Rightarrow> string list \<Rightarrow> byte list" where
  "enc_children h = enc_list (\<lambda>x. the (get_node_hash (Some x) h))"

fun node_bytes :: "hash_ctx \<Rightarrow> byte list option \<Rightarrow> daml_node \<Rightarrow> byte list" where
  "node_bytes h seed (NCreate cr v) = enc_create_start cr seed @ canon v @ enc_create_end cr"
| "node_bytes h seed (NExercise e v w) = enc_exercise_start e (the seed) @ canon v @
     [if ex_consuming e then 1 else 0, 0x01] @ canon w @ enc_list enc_str (ex_choice_observers e) @ enc_children h (ex_children e)"
| "node_bytes h seed (NFetch f) = enc_fetch f"
| "node_bytes h seed (NRollback r) = [NODE_ENCODING_VERSION, 0x03] @ enc_children h (ro_children r)"

text \<open>Nodes the device hashes: complete, texts without a zero byte, a contract id of whole bytes,
  values within the stack budget, a seed for an exercise, and children that came before.\<close>

definition plain_head :: "cstring \<Rightarrow> cstring \<Rightarrow> cstring \<Rightarrow> Identifier \<Rightarrow> bool" where
  "plain_head version cid package template \<longleftrightarrow>
     list_all (\<lambda>s. s \<noteq> None \<and> plain_text (the s)) [version, cid, package] \<and> even (length (the cid)) \<and> plain_identifier template"

definition children_known :: "hash_ctx \<Rightarrow> string list \<Rightarrow> bool" where
  "children_known h xs \<longleftrightarrow> length xs \<le> MAX_NODE_CHILDREN \<and> list_all (\<lambda>x. plain_text x \<and> get_node_hash (Some x) h \<noteq> None) xs"

definition value_fits :: "parser_env \<Rightarrow> daml_value \<Rightarrow> bool" where
  "value_fits env v \<longleftrightarrow> value_wf v \<and> vdepth v \<le> pe_budget env"

fun node_ready :: "parser_env \<Rightarrow> hash_ctx \<Rightarrow> byte list option \<Rightarrow> daml_node \<Rightarrow> bool" where
  "node_ready env h seed (NCreate cr v) \<longleftrightarrow>
     plain_head (cr_lf_version cr) (cr_contract_id cr) (cr_package_name cr) (cr_template_id cr) \<and> cr_has_template_id cr \<and>
     list_all plain_text (cr_signatories cr @ cr_stakeholders cr) \<and> value_fits env v"
| "node_ready env h seed (NExercise e v w) \<longleftrightarrow>
     plain_head (ex_lf_version e) (ex_contract_id e) (ex_package_name e) (ex_template_id e) \<and> ex_has_template_id e \<and>
     list_all plain_text (ex_signatories e @ ex_stakeholders e @ ex_acting_parties e @ ex_choice_observers e) \<and>
     pred_option plain_identifier (ex_interface_id e) \<and> ex_choice_id e \<noteq> None \<and> plain_text (the (ex_choice_id e)) \<and>
     children_known h (ex_children e) \<and> seed \<noteq> None \<and> value_fits env v \<and> value_fits env w"
| "node_ready env h seed (NFetch f) \<longleftrightarrow>
     plain_head (fe_lf_version f) (fe_contract_id f) (fe_package_name f) (fe_template_id f) \<and> fe_has_template_id f \<and>
     list_all plain_text (fe_signatories f @ fe_stakeholders f @ fe_acting_parties f) \<and>
     pred_option plain_identifier (fe_interface_id f)"
| "node_ready env h seed (NRollback r) \<longleftrightarrow> children_known h (ro_children r)"

text \<open>What the node does besides: a contract it uses, children it claims.\<close>

fun node_uses :: "parser_env \<Rightarrow> daml_node \<Rightarrow> values_store \<Rightarrow> values_store" where
  "node_uses env (NCreate cr v) = values_record_used_contract (pe_sha env) (pe_mem_ok env) (cr_contract_id cr)"
| "node_uses env (NExercise e v w) = values_record_used_contract (pe_sha env) (pe_mem_ok env) (ex_contract_id e)"
| "node_uses env (NFetch f) = values_record_used_contract (pe_sha env) (pe_mem_ok env) (fe_contract_id f)"
| "node_uses env (NRollback r) = (\<lambda>vals. vals)"

fun node_claims :: "daml_node \<Rightarrow> string list option" where
  "node_claims (NExercise e v w) = Some (ex_children e)"
| "node_claims (NRollback r) = Some (ro_children r)"
| "node_claims _ = None"

definition claim_node :: "int \<Rightarrow> daml_node \<Rightarrow> tree_check_context \<Rightarrow> tree_check_context" where
  "claim_node i n tree = (case node_claims n of None \<Rightarrow> tree | Some xs \<Rightarrow> tree_claim_children i xs tree)"

definition node_child_ids :: "daml_node \<Rightarrow> string list" where
  "node_child_ids n = (case node_claims n of None \<Rightarrow> [] | Some xs \<Rightarrow> xs)"

text \<open>What \<^verbatim>\<open>node_ready\<close> asks of the node alone.\<close>

fun node_plain :: "parser_env \<Rightarrow> byte list option \<Rightarrow> daml_node \<Rightarrow> bool" where
  "node_plain env seed (NCreate cr v) \<longleftrightarrow>
     plain_head (cr_lf_version cr) (cr_contract_id cr) (cr_package_name cr) (cr_template_id cr) \<and> cr_has_template_id cr \<and>
     list_all plain_text (cr_signatories cr @ cr_stakeholders cr) \<and> value_fits env v"
| "node_plain env seed (NExercise e v w) \<longleftrightarrow>
     plain_head (ex_lf_version e) (ex_contract_id e) (ex_package_name e) (ex_template_id e) \<and> ex_has_template_id e \<and>
     list_all plain_text (ex_signatories e @ ex_stakeholders e @ ex_acting_parties e @ ex_choice_observers e) \<and>
     pred_option plain_identifier (ex_interface_id e) \<and> ex_choice_id e \<noteq> None \<and> plain_text (the (ex_choice_id e)) \<and>
     seed \<noteq> None \<and> value_fits env v \<and> value_fits env w"
| "node_plain env seed (NFetch f) \<longleftrightarrow>
     plain_head (fe_lf_version f) (fe_contract_id f) (fe_package_name f) (fe_template_id f) \<and> fe_has_template_id f \<and>
     list_all plain_text (fe_signatories f @ fe_stakeholders f @ fe_acting_parties f) \<and>
     pred_option plain_identifier (fe_interface_id f)"
| "node_plain env seed (NRollback r) \<longleftrightarrow> True"

lemma node_ready_iff: "node_ready env h seed n \<longleftrightarrow> node_plain env seed n \<and> children_known h (node_child_ids n)"
  by (cases n) (auto simp: node_child_ids_def children_known_def)

section \<open>Decoding\<close>

lemma fold_texts:
  assumes "\<And>s m. plain_text s \<Longrightarrow> f (text_field t s) m = Some (put (get m @ [s]) m)"
    and "\<And>x m. get (put x m) = x" "\<And>x y m. put y (put x m) = put y m" "\<And>m. put (get m) m = m"
    and "list_all plain_text ss"
  shows "fold_opt f (map (text_field t) ss) m = Some (put (get m @ ss) m)"
  using assms(5) by (induction ss arbitrary: m) (simp_all add: assms(1-4))

text \<open>A message decoded again with the callback of one field set gives the same message and what the
  callback does with the field.\<close>

lemma fold_again:
  assumes "tag \<notin> fst ` set fs"
  shows "fold_opt (\<lambda>fw (m, c). if fst fw = tag then map_option (\<lambda>c'. (m, c')) (run_callback cb (snd fw) c)
       else map_option (\<lambda>m'. (m', c)) (field fw m)) fs (m, c) = map_option (\<lambda>m'. (m', c)) (fold_opt field fs m)"
  using assms by (induction fs arbitrary: m) (auto split: option.split)

lemma decode_callback_msg:
  assumes "list_all field_wf (pre @ (tag, WLen q) # post)" "tag \<notin> fst ` set pre" "tag \<notin> fst ` set post"
    and "\<And>m. field (tag, WLen q) m = Some m"
    and "fold_opt field (pre @ (tag, WLen q) # post) m = Some m'" "cb q c = Some c'"
  shows "pb_decode (\<lambda>fw (m, c). if fst fw = tag then map_option (\<lambda>c'. (m, c')) (run_callback cb (snd fw) c)
    else map_option (\<lambda>m'. (m', c)) (field fw m)) (msg (pre @ (tag, WLen q) # post)) (m, c) = Some (m', c')"
proof -
  obtain m1 where "fold_opt field pre m = Some m1" "fold_opt field post m1 = Some m'"
    using assms(4,5) by (auto simp: fold_opt_append split: option.splits)
  then show ?thesis
    unfolding pb_decode_msg [OF assms(1)]
    using fold_again [OF assms(2), where field = field and cb = cb and m = m and c = c]
      fold_again [OF assms(3), where field = field and cb = cb and m = m1 and c = c'] assms(6)
    by (simp add: fold_opt_append callback_len)
qed

lemma decode_again_msg:
  assumes "list_all field_wf (pre @ (tag, WLen q) # post)" "tag \<notin> fst ` set pre" "tag \<notin> fst ` set post"
    and "\<And>m. field (tag, WLen q) m = Some m"
    and "fold_opt field (pre @ (tag, WLen q) # post) m = Some m'" "cb q c = Some c'"
  shows "decode_again field tag cb (msg (pre @ (tag, WLen q) # post)) (m, c) = Some (m', c')"
  unfolding decode_again_def using assms by (rule decode_callback_msg)

lemma text_decodes: "plain_text s \<Longrightarrow> pb_dec_string (WLen (str_bytes s)) = Some s"
  using decode_text [of s 1] by (simp add: text_field_def)

lemma plain_headE:
  assumes "plain_head version cid package template"
  obtains v c p where "version = Some v" "cid = Some c" "package = Some p" "plain_text v" "plain_text c" "plain_text p"
    "even (length c)" "plain_identifier template"
  using assms by (cases version; cases cid; cases package) (auto simp: plain_head_def)

lemma ident_small: "list_all field_wf fs \<Longrightarrow> (t, WLen (enc_ident i)) \<in> set fs \<Longrightarrow> length (enc_ident i) < 2 ^ 32"
  by (auto simp: list_all_iff field_wf_def)

lemma create_texts:
  assumes "list_all plain_text ss"
  shows
    "fold_opt Create_field (map (text_field 6) ss) m = Some (m\<lparr>cr_signatories := cr_signatories m @ ss\<rparr>)"
    "fold_opt Create_field (map (text_field 7) ss) m = Some (m\<lparr>cr_stakeholders := cr_stakeholders m @ ss\<rparr>)"
  subgoal by (rule fold_texts [where get = cr_signatories and put = "\<lambda>x m. m\<lparr>cr_signatories := x\<rparr>"])
    (simp_all add: assms Create_field_def text_field_def text_decodes)
  subgoal by (rule fold_texts [where get = cr_stakeholders and put = "\<lambda>x m. m\<lparr>cr_stakeholders := x\<rparr>"])
    (simp_all add: assms Create_field_def text_field_def text_decodes)
  done

lemma exercise_texts:
  assumes "list_all plain_text ss"
  shows
    "fold_opt Exercise_field (map (text_field 5) ss) m = Some (m\<lparr>ex_signatories := ex_signatories m @ ss\<rparr>)"
    "fold_opt Exercise_field (map (text_field 6) ss) m = Some (m\<lparr>ex_stakeholders := ex_stakeholders m @ ss\<rparr>)"
    "fold_opt Exercise_field (map (text_field 7) ss) m = Some (m\<lparr>ex_acting_parties := ex_acting_parties m @ ss\<rparr>)"
    "fold_opt Exercise_field (map (text_field 12) ss) m = Some (m\<lparr>ex_children := ex_children m @ ss\<rparr>)"
    "fold_opt Exercise_field (map (text_field 14) ss) m = Some (m\<lparr>ex_choice_observers := ex_choice_observers m @ ss\<rparr>)"
  subgoal by (rule fold_texts [where get = ex_signatories and put = "\<lambda>x m. m\<lparr>ex_signatories := x\<rparr>"])
    (simp_all add: assms Exercise_field_def text_field_def text_decodes)
  subgoal by (rule fold_texts [where get = ex_stakeholders and put = "\<lambda>x m. m\<lparr>ex_stakeholders := x\<rparr>"])
    (simp_all add: assms Exercise_field_def text_field_def text_decodes)
  subgoal by (rule fold_texts [where get = ex_acting_parties and put = "\<lambda>x m. m\<lparr>ex_acting_parties := x\<rparr>"])
    (simp_all add: assms Exercise_field_def text_field_def text_decodes)
  subgoal by (rule fold_texts [where get = ex_children and put = "\<lambda>x m. m\<lparr>ex_children := x\<rparr>"])
    (simp_all add: assms Exercise_field_def text_field_def text_decodes)
  subgoal by (rule fold_texts [where get = ex_choice_observers and put = "\<lambda>x m. m\<lparr>ex_choice_observers := x\<rparr>"])
    (simp_all add: assms Exercise_field_def text_field_def text_decodes)
  done

lemma fetch_texts:
  assumes "list_all plain_text ss"
  shows
    "fold_opt Fetch_field (map (text_field 5) ss) m = Some (m\<lparr>fe_signatories := fe_signatories m @ ss\<rparr>)"
    "fold_opt Fetch_field (map (text_field 6) ss) m = Some (m\<lparr>fe_stakeholders := fe_stakeholders m @ ss\<rparr>)"
    "fold_opt Fetch_field (map (text_field 7) ss) m = Some (m\<lparr>fe_acting_parties := fe_acting_parties m @ ss\<rparr>)"
  subgoal by (rule fold_texts [where get = fe_signatories and put = "\<lambda>x m. m\<lparr>fe_signatories := x\<rparr>"])
    (simp_all add: assms Fetch_field_def text_field_def text_decodes)
  subgoal by (rule fold_texts [where get = fe_stakeholders and put = "\<lambda>x m. m\<lparr>fe_stakeholders := x\<rparr>"])
    (simp_all add: assms Fetch_field_def text_field_def text_decodes)
  subgoal by (rule fold_texts [where get = fe_acting_parties and put = "\<lambda>x m. m\<lparr>fe_acting_parties := x\<rparr>"])
    (simp_all add: assms Fetch_field_def text_field_def text_decodes)
  done

lemmas submessage_simps = text_field_def text_decodes pb_dec_submessage_def pb_null_callback_def pb_callback_payload_def

lemma create_decoded:
  assumes "node_ready env h seed (NCreate cr v)" "list_all field_wf (create_fields cr v)"
  shows "fold_opt Create_field (create_fields cr v) Node_Create_init_zero = Some cr"
proof -
  note ok = assms(1) [simplified node_ready.simps list_all_append]
  obtain a b c where head: "cr_lf_version cr = Some a" "cr_contract_id cr = Some b" "cr_package_name cr = Some c"
    "plain_text a" "plain_text b" "plain_text c" "plain_identifier (cr_template_id cr)"
    using ok by (auto elim: plain_headE)
  have "decode_Identifier (enc_ident (cr_template_id cr)) i = Some (cr_template_id cr)" for i
    using decode_ident [OF head(7)] ident_small [OF assms(2), of 4] by (simp add: create_fields_def head_fields_def)
  then show ?thesis
    using ok head unfolding create_fields_def head_fields_def
    by (simp add: Create_field_def submessage_simps Node_Create_init_zero_def fold_opt_append create_texts)
qed

lemma interface_decoded:
  assumes "pred_option plain_identifier i" "list_all field_wf fs" "set (interface_field i) \<subseteq> set fs"
    and "\<And>j p m. f (8, WLen p) m = map_option (\<lambda>j. put (Some j) m) (decode_Identifier p Identifier_init_zero)"
    and "get m = None" "\<And>m. get m = None \<Longrightarrow> put None m = m"
  shows "fold_opt f (interface_field i) m = Some (put i m)"
proof (cases i)
  case (Some j)
  then have "decode_Identifier (enc_ident j) Identifier_init_zero = Some j"
    using assms(1,3) ident_small [OF assms(2), of 8 j] by (intro decode_ident) (auto simp: interface_field_def)
  with Some show ?thesis
    by (simp add: interface_field_def assms(4))
qed (simp add: interface_field_def assms(5,6))

lemma bool_decodes: "pb_dec_bool (snd (int_field t (if b then 1 else 0))) = Some b"
  using pb_decode_varint32_enc [of "if b then 1 else 0" "[]"] by (cases b) (simp_all add: pb_dec_bool_def int_field_def)

lemma exercise_decoded:
  assumes "node_plain env seed (NExercise e v w)" "list_all plain_text (ex_children e)" "list_all field_wf (exercise_fields e v w)"
  shows "fold_opt Exercise_field (exercise_fields e v w) Node_Exercise_init_zero = Some e"
proof -
  note ok = assms(1) [simplified node_plain.simps list_all_append]
  obtain a b c d where head: "ex_lf_version e = Some a" "ex_contract_id e = Some b" "ex_package_name e = Some c"
    "ex_choice_id e = Some d" "plain_text a" "plain_text b" "plain_text c" "plain_text d" "plain_identifier (ex_template_id e)"
    using ok by (auto elim: plain_headE)
  have "decode_Identifier (enc_ident (ex_template_id e)) i = Some (ex_template_id e)" for i
    using decode_ident [OF head(9)] ident_small [OF assms(3), of 4] by (simp add: exercise_fields_def exercise_front_def head_fields_def)
  moreover have "fold_opt Exercise_field (interface_field (ex_interface_id e)) m = Some (m\<lparr>ex_interface_id := ex_interface_id e\<rparr>)"
    if "ex_interface_id m = None" for m
    using ok that by (intro interface_decoded [OF _ assms(3), where put = "\<lambda>i m. m\<lparr>ex_interface_id := i\<rparr>" and get = ex_interface_id])
      (auto simp: exercise_fields_def exercise_front_def Exercise_field_def pb_dec_submessage_def)
  ultimately show ?thesis
    using ok assms(2) head bool_decodes [of 11 "ex_consuming e"] unfolding exercise_fields_def exercise_front_def exercise_middle_def head_fields_def
    by (simp add: Exercise_field_def submessage_simps Node_Exercise_init_zero_def fold_opt_append exercise_texts int_field_def)
qed

lemma rollback_decoded:
  assumes "list_all plain_text (ro_children r)" "list_all field_wf (map (text_field 1) (ro_children r))"
  shows "decode_Rollback (msg (map (text_field 1) (ro_children r))) \<lparr>ro_children = []\<rparr> = Some r"
proof -
  have "fold_opt (\<lambda>fw r. if fst fw = 1 then put_string (snd fw) (\<lambda>s. r\<lparr>ro_children := ro_children r @ [s]\<rparr>) else Some r)
      (map (text_field 1) (ro_children r)) \<lparr>ro_children = []\<rparr> = Some (\<lparr>ro_children = []\<rparr>\<lparr>ro_children := ro_children \<lparr>ro_children = []\<rparr> @ ro_children r\<rparr>)"
    using assms(1) by (intro fold_texts [where get = ro_children and put = "\<lambda>x m. m\<lparr>ro_children := x\<rparr>"]) (simp_all add: text_field_def text_decodes)
  then show ?thesis
    unfolding decode_Rollback_def pb_decode_msg [OF assms(2)] by simp
qed

lemma fetch_decoded:
  assumes "node_ready env h seed (NFetch f)" "list_all field_wf (fetch_fields f)"
  shows "fold_opt Fetch_field (fetch_fields f) Node_Fetch_init_zero = Some f"
proof -
  note ok = assms(1) [simplified node_ready.simps list_all_append]
  obtain a b c where head: "fe_lf_version f = Some a" "fe_contract_id f = Some b" "fe_package_name f = Some c"
    "plain_text a" "plain_text b" "plain_text c" "plain_identifier (fe_template_id f)"
    using ok by (auto elim: plain_headE)
  have "decode_Identifier (enc_ident (fe_template_id f)) i = Some (fe_template_id f)" for i
    using decode_ident [OF head(7)] ident_small [OF assms(2), of 4] by (simp add: fetch_fields_def head_fields_def)
  moreover have "fold_opt Fetch_field (interface_field (fe_interface_id f)) m = Some (m\<lparr>fe_interface_id := fe_interface_id f\<rparr>)"
    if "fe_interface_id m = None" for m
    using ok that by (intro interface_decoded [OF _ assms(2), where put = "\<lambda>i m. m\<lparr>fe_interface_id := i\<rparr>" and get = fe_interface_id])
      (auto simp: fetch_fields_def Fetch_field_def pb_dec_submessage_def)
  ultimately show ?thesis
    using ok head unfolding fetch_fields_def head_fields_def
    by (simp add: Fetch_field_def submessage_simps Node_Fetch_init_zero_def fold_opt_append fetch_texts)
qed

section \<open>Hashing\<close>

lemma value_written:
  assumes "value_fits env v" "length (enc_value v) < 2 ^ 32"
  shows "wrote (canon v) c (decode_value_field env (enc_value v) c)"
  using hash_value_written [OF _ assms(2) hashes_comp, of "pe_budget env" c] assms
  by (simp add: value_fits_def decode_value_field_def)

lemma node_fields_shape:
  "list_all field_shape (create_fields cr v)" "list_all field_shape (exercise_fields e v w)"
  "list_all field_shape (fetch_fields f)" "field_shape (node_wire n)"
  by (cases n; auto simp: list_all_iff create_fields_def exercise_fields_def exercise_front_def exercise_middle_def fetch_fields_def
      head_fields_def interface_field_def text_shape int_shape len_shape split: option.splits)+

text \<open>A create records its contract as used, a disclosed contract is looked up among the used ones.\<close>

definition create_uses :: "parser_env \<Rightarrow> bool \<Rightarrow> Node_Create \<Rightarrow> values_store \<Rightarrow> values_store" where
  "create_uses env is_input cr =
     (if is_input then values_check_disclosed_contract (pe_sha env) (cr_contract_id cr)
      else values_record_used_contract (pe_sha env) (pe_mem_ok env) (cr_contract_id cr))"

lemma create_written:
  assumes ready: "node_ready env h seed (NCreate cr v)" and small: "length (msg (create_fields cr v)) < 2 ^ 32"
    and seed: "find_seed (pe_tx env) (pc_node_id c) = Some seed"
  shows "wrote (node_bytes h seed (NCreate cr v)) (with_values (create_uses env (pc_is_input_contract c) cr) c)
    (decode_create env (msg (create_fields cr v)) c)"
proof -
  have wf: "list_all field_wf (create_fields cr v)"
    using msg_wf [OF small] node_fields_shape by blast
  note dec = create_decoded [OF ready wf]
  have comp: "create_is_complete cr" "even (length (the (cr_contract_id cr)))"
    using ready by (auto simp: create_is_complete_def require_identifier_def plain_head_def plain_identifier_def require_present_def)
  let ?c1 = "with_values (create_uses env (pc_is_input_contract c) cr) c"
  have "length (enc_value v) < 2 ^ 32"
    using length_member [of 5 "enc_value v" "create_fields cr v"] small by (simp add: create_fields_def)
  with ready obtain c3 where c3: "decode_value_field env (enc_value v) (hashing (encode_create_start cr seed) ?c1) = Some c3"
    and w: "wrote (canon v) (hashing (encode_create_start cr seed) ?c1) (Some c3)"
    using value_written [of env v "hashing (encode_create_start cr seed) ?c1"] by (auto simp: wrote_def)
  have "decode_again Create_field 5 (decode_value_field env) (msg (create_fields cr v))
      (Node_Create_init_zero, hashing (encode_create_start cr seed) ?c1) = Some (cr, c3)"
    using wf dec c3 unfolding create_fields_def
    by (intro decode_again_msg) (auto simp: head_fields_def text_field_def Create_field_def pb_null_callback_def pb_callback_payload_def)
  then have "decode_create env (msg (create_fields cr v)) c = Some (hashing (hw_put (enc_create_end cr)) c3)"
    using dec comp seed unfolding decode_create_def decode_Create_def pb_decode_msg [OF wf]
    by (simp add: create_uses_def with_values_def hashing_def encode_create_end_eq [abs_def])
  moreover have "wrote (enc_create_start cr seed @ canon v) ?c1 (Some c3)"
    using w by (intro wrote_after) (simp add: hashing_def encode_create_start_complete [OF comp])
  ultimately show ?thesis
    using wrote_trans [OF _ wrote_hashing] by (metis append_assoc node_bytes.simps(1))
qed

lemma children_written:
  assumes "children_known h xs"
  shows "encode_repeated_node_ids xs (hw_put bs h) = hw_put (bs @ enc_children h xs) h"
proof -
  have "encode_node_id_loop ys (hw_put p h) = hw_put (p @ concat (map (\<lambda>x. the (get_node_hash (Some x) h)) ys)) h"
    if "list_all (\<lambda>x. get_node_hash (Some x) h \<noteq> None) ys" for ys p
    using that by (induction ys arbitrary: p) auto
  then show ?thesis
    using assms by (simp add: encode_repeated_node_ids_def encode_int32_len children_known_def enc_children_def enc_list_def list_all_iff)
qed

lemma exercise_end_written:
  assumes "children_known h (ex_children e)"
  shows "encode_exercise_end e (hw_put bs h) = hw_put (bs @ enc_list enc_str (ex_choice_observers e) @ enc_children h (ex_children e)) h"
  using assms children_written [OF assms] by (simp add: encode_exercise_end_def children_known_def)

lemma effects_frame:
  "pc_node_id (claim_once xs c) = pc_node_id c" "pc_hash (claim_once xs c) = pc_hash c"
  "pc_node_id (with_values f c) = pc_node_id c" "pc_hash (with_values f c) = pc_hash c"
  by (simp_all add: claim_once_def with_values_def)

lemma exercise_written:
  assumes ready: "node_ready env (pc_hash c) (Some sd) (NExercise e v w)" and small: "length (msg (exercise_fields e v w)) < 2 ^ 32"
    and seed: "find_seed (pe_tx env) (pc_node_id c) = Some (Some sd)"
  shows "wrote (node_bytes (pc_hash c) (Some sd) (NExercise e v w)) (claim_once (ex_children e) (with_values (node_uses env (NExercise e v w)) c))
    (decode_exercise env (msg (exercise_fields e v w)) c)"
proof -
  let ?fs = "exercise_fields e v w"
  have wf: "list_all field_wf ?fs"
    using msg_wf [OF small] node_fields_shape by blast
  have "node_plain env (Some sd) (NExercise e v w)" "list_all plain_text (ex_children e)"
    using ready by (auto simp: children_known_def list_all_iff)
  note dec = exercise_decoded [OF this wf]
  have comp: "exercise_is_complete e" "optional_interface_is_complete (ex_interface_id e)" "even (length (the (ex_contract_id e)))"
    using ready by (auto simp: exercise_is_complete_def require_identifier_def plain_head_def plain_identifier_def require_present_def
        optional_interface_is_complete_def split: option.split)
  have fits: "value_fits env v" "value_fits env w" "length (enc_value v) < 2 ^ 32" "length (enc_value w) < 2 ^ 32"
    using ready length_member [of 10 "enc_value v" ?fs] length_member [of 13 "enc_value w" ?fs] small by (auto simp: exercise_fields_def)
  have again10: "decode_again Exercise_field 10 (decode_value_field env) (msg ?fs) (Node_Exercise_init_zero, d) = Some (e, d')" if "decode_value_field env (enc_value v) d = Some d'" for d d'
    using wf dec that unfolding exercise_fields_def
    by (intro decode_again_msg) (auto simp: exercise_front_def exercise_middle_def head_fields_def interface_field_def text_field_def int_field_def
        Exercise_field_def pb_null_callback_def pb_callback_payload_def split: option.splits)
  have again13: "decode_again Exercise_field 13 (decode_value_field env) (msg ?fs) (Node_Exercise_init_zero, d) = Some (e, d')" if "decode_value_field env (enc_value w) d = Some d'" for d d'
    using wf dec that decode_again_msg [where pre = "exercise_front e @ (10, WLen (enc_value v)) # exercise_middle e" and tag = 13
        and q = "enc_value w" and post = "map (text_field 14) (ex_choice_observers e)" and field = Exercise_field and cb = "decode_value_field env" and c = d and c' = d']
    unfolding exercise_fields_def
    by (force simp: exercise_front_def exercise_middle_def head_fields_def interface_field_def text_field_def int_field_def
        Exercise_field_def pb_null_callback_def pb_callback_payload_def split: option.splits)
  let ?c2 = "claim_once (ex_children e) (with_values (node_uses env (NExercise e v w)) c)"
  have start: "hashing (encode_exercise_start e (Some sd)) ?c2 = ?c2\<lparr>pc_hash := hw_put (enc_exercise_start e sd) (pc_hash ?c2)\<rparr>"
    using encode_exercise_start_complete [OF comp] by (simp add: hashing_def)
  obtain n where c3: "decode_value_field env (enc_value v) (hashing (encode_exercise_start e (Some sd)) ?c2) =
      Some (?c2\<lparr>pc_hash := hw_put (enc_exercise_start e sd @ canon v) (pc_hash ?c2), pc_value_elem_count := n\<rparr>)" (is "_ = Some ?c3")
    using value_written [OF fits(1,3), of "hashing (encode_exercise_start e (Some sd)) ?c2"] unfolding start wrote_def by auto
  let ?c4 = "hashing (\<lambda>h. hw_put_byte 0x01 (encode_exercise_middle e h)) ?c3"
  have middle: "?c4 = ?c3\<lparr>pc_hash := hw_put (enc_exercise_start e sd @ canon v @ [if ex_consuming e then 1 else 0, 0x01]) (pc_hash ?c2)\<rparr>"
    by (simp add: hashing_def encode_exercise_middle_def encode_bool_def hw_put_byte_def)
  obtain k where c5: "decode_value_field env (enc_value w) ?c4 = Some (?c2\<lparr>pc_hash := hw_put (enc_exercise_start e sd @ canon v @
      [if ex_consuming e then 1 else 0, 0x01] @ canon w) (pc_hash ?c2), pc_value_elem_count := k\<rparr>)" (is "_ = Some ?c5")
    using value_written [OF fits(2,4), of ?c4] unfolding middle wrote_def by auto
  have known: "children_known (pc_hash ?c2) (ex_children e)"
    using ready by (simp add: effects_frame)
  have "decode_exercise env (msg ?fs) c = Some (hashing (encode_exercise_end e) ?c5)"
    using dec comp seed again10 [OF c3] again13 [OF c5] unfolding decode_exercise_def decode_Exercise_def pb_decode_msg [OF wf]
    by (simp add: Let_def effects_frame)
  then show ?thesis
    using exercise_end_written [OF known] unfolding wrote_def by (intro exI [of _ k]) (simp add: hashing_def effects_frame)
qed

lemma fetch_written:
  assumes ready: "node_ready env h seed (NFetch f)" and small: "length (msg (fetch_fields f)) < 2 ^ 32"
  shows "wrote (node_bytes h seed (NFetch f)) (with_values (node_uses env (NFetch f)) c) (decode_fetch env (msg (fetch_fields f)) c)"
proof -
  have wf: "list_all field_wf (fetch_fields f)"
    using msg_wf [OF small] node_fields_shape by blast
  have comp: "fetch_is_complete f" "optional_interface_is_complete (fe_interface_id f)" "even (length (the (fe_contract_id f)))"
    using ready by (auto simp: fetch_is_complete_def require_identifier_def plain_head_def plain_identifier_def require_present_def
        optional_interface_is_complete_def split: option.split)
  have "decode_fetch env (msg (fetch_fields f)) c = Some (hashing (hw_put (enc_fetch f)) (with_values (node_uses env (NFetch f)) c))"
    using fetch_decoded [OF ready wf] comp unfolding decode_fetch_def decode_Fetch_def pb_decode_msg [OF wf]
    by (simp add: encode_fetch_complete [OF comp, abs_def])
  then show ?thesis
    by (simp add: wrote_hashing)
qed

lemma rollback_written:
  assumes ready: "node_ready env (pc_hash c) seed (NRollback r)" and small: "length (msg (map (text_field 1) (ro_children r))) < 2 ^ 32"
  shows "wrote (node_bytes (pc_hash c) seed (NRollback r)) (claim_once (ro_children r) c) (decode_rollback (msg (map (text_field 1) (ro_children r))) c)"
proof -
  have wf: "list_all field_wf (map (text_field 1) (ro_children r))"
    by (rule msg_wf [OF small]) (simp add: list_all_iff text_shape)
  have "list_all plain_text (ro_children r)"
    using ready by (simp add: children_known_def list_all_iff)
  note rollback_decoded [OF this wf]
  moreover have "children_known (pc_hash (claim_once (ro_children r) c)) (ro_children r)"
    using ready by (simp add: effects_frame)
  from children_written [OF this]
  have "encode_rollback r (pc_hash (claim_once (ro_children r) c)) =
      hw_put (node_bytes (pc_hash c) seed (NRollback r)) (pc_hash (claim_once (ro_children r) c))"
    using ready by (simp add: encode_rollback_def children_known_def hw_put_byte_def effects_frame)
  ultimately show ?thesis
    by (auto simp: decode_rollback_def wrote_def hashing_def intro!: exI [of _ "pc_value_elem_count (claim_once (ro_children r) c)"])
qed

text \<open>The four kinds together: the member of the node's oneof.\<close>

definition node_effects :: "parser_env \<Rightarrow> daml_node \<Rightarrow> parser_ctx \<Rightarrow> parser_ctx" where
  "node_effects env n c = (let c1 = with_values (node_uses env n) c in case node_claims n of None \<Rightarrow> c1 | Some xs \<Rightarrow> claim_once xs c1)"

lemma node_written:
  assumes "node_ready env (pc_hash c) seed n" "length (msg [node_wire n]) < 2 ^ 32"
    and "find_seed (pe_tx env) (pc_node_id c) = Some seed" "\<not> pc_is_input_contract c"
  shows "wrote (node_bytes (pc_hash c) seed n) (node_effects env n c) (pb_decode (node_decode_callback env) (msg [node_wire n]) c)"
proof -
  have wf: "list_all field_wf [node_wire n]"
    using msg_wf [OF assms(2)] node_fields_shape(4) by simp
  obtain t p where p: "node_wire n = (t, WLen p)" "length p < 2 ^ 32"
    using length_member [of _ _ "[node_wire n]"] assms(2) by (cases n) fastforce+
  have "wrote (node_bytes (pc_hash c) seed n) (node_effects env n c) (node_decode_callback env (node_wire n) c)"
  proof (cases n)
    case (NExercise e v w)
    then obtain sd where "seed = Some sd" using assms(1) by auto
    with NExercise exercise_written [of env c sd e v w] assms p show ?thesis
      by (simp add: node_decode_callback_def node_effects_def)
  next
    case (NRollback r)
    with rollback_written [of env c seed r] assms p show ?thesis
      by (simp add: node_decode_callback_def node_effects_def with_values_def)
  next
    case (NCreate cr v)
    with create_written [of env "pc_hash c" seed cr v c] assms p show ?thesis
      by (simp add: node_decode_callback_def node_effects_def create_uses_def)
  next
    case (NFetch f)
    with fetch_written [of env "pc_hash c" seed f c] assms p show ?thesis
      by (simp add: node_decode_callback_def node_effects_def)
  qed
  then show ?thesis
    unfolding pb_decode_msg [OF wf] by (auto simp: wrote_def)
qed

section \<open>A node part\<close>

lemma hw_init_reads: "get_node_hash s (hw_init h) = get_node_hash s h"
  by (simp add: get_node_hash_def hw_init_def split: option.split)

lemma node_ready_init: "node_ready env (hw_init h) seed n \<longleftrightarrow> node_ready env h seed n"
  by (cases n) (simp_all add: children_known_def hw_init_reads)

lemma node_bytes_init: "node_bytes (hw_init h) seed n = node_bytes h seed n"
  by (cases n) (simp_all add: enc_children_def hw_init_reads)

lemma node_effects_frame:
  "pc_hash (node_effects env n c) = pc_hash c" "pc_node_id (node_effects env n c) = pc_node_id c"
  "pc_is_root_node (node_effects env n c) = pc_is_root_node c" "pc_values (node_effects env n c) = node_uses env n (pc_values c)"
  "\<not> pc_tree_children_claimed c \<Longrightarrow> pc_tree (node_effects env n c) = claim_node (pc_node_id c) n (pc_tree c)"
  by (simp_all add: node_effects_def claim_node_def claim_once_def with_values_def Let_def split: option.split)

text \<open>Where the hash of a node goes: into the hash of the transaction for a root, into the store its
  parent reads for any other node.\<close>

definition enter_node_hash :: "parser_env \<Rightarrow> string \<Rightarrow> byte list \<Rightarrow> hash_ctx \<Rightarrow> hash_ctx" where
  "enter_node_hash env node_id node_hash h =
     (if node_id \<in> set (tx_roots (pe_tx env)) then encode_hash (Some node_hash) h
      else set_node_hash (atoint node_id) node_hash h)"

lemma node_part:
  assumes "length node_id \<le> 3" "plain_text node_id" "find_seed (pe_tx env) (atoint node_id) = Some seed"
    and "node_ready env h seed n" "length (enc_node node_id n) < 2 ^ 32"
  shows "proto_deserialize_node env (enc_node node_id n) (h, tree, vals) =
    Some (enter_node_hash env node_id (pe_sha env (node_bytes h seed n)) h,
      tree_mark_seen (atoint node_id) (claim_node (atoint node_id) n tree), node_uses env n vals)"
proof -
  let ?fs = "[text_field 1 node_id, (1000, WLen (msg [node_wire n]))]"
  have wf: "list_all field_wf ?fs"
    using assms(5) unfolding enc_node_def by (rule msg_wf) (simp add: text_shape len_shape)
  have small: "length (msg [node_wire n]) < 2 ^ 32"
    using length_member [of 1000 "msg [node_wire n]" ?fs] assms(5) by (simp add: enc_node_def)
  define c where "c = (init_parser_ctx False h tree vals)\<lparr>pc_is_root_node := node_id \<in> set (tx_roots (pe_tx env)), pc_node_id := atoint node_id\<rparr>"
  have id: "node_message_field env (text_field 1 node_id) (init_parser_ctx False h tree vals) = Some c"
    using assms(1,2) by (simp add: node_message_field_def text_field_def callback_len decode_node_id_field_def plain_text_def cstr_str_bytes
        c_def init_parser_ctx_def list_ex_iff)
  have body: "node_message_field env (1000, WLen p) c = pb_decode (node_decode_callback env) p c" for p
    by (simp add: node_message_field_def)
  have c: "pc_hash c = hw_init h" "pc_node_id c = atoint node_id" "\<not> pc_is_input_contract c" "\<not> pc_tree_children_claimed c"
    "pc_tree c = tree" "pc_values c = vals" "pc_is_root_node c = (node_id \<in> set (tx_roots (pe_tx env)))"
    by (simp_all add: c_def init_parser_ctx_def)
  have "wrote (node_bytes h seed n) (node_effects env n c) (pb_decode (node_decode_callback env) (msg [node_wire n]) c)"
    using node_written [of env c seed n] assms(3,4) small by (simp add: c node_ready_init node_bytes_init)
  then obtain k where "pb_decode (node_message_field env) (enc_node node_id n) (init_parser_ctx False h tree vals) =
      Some ((node_effects env n c)\<lparr>pc_hash := hw_put (node_bytes h seed n) (hw_init h), pc_value_elem_count := k\<rparr>)"
    unfolding enc_node_def pb_decode_msg [OF wf]
    by (auto simp: wrote_def id body node_effects_frame c simp del: One_nat_def)
  then show ?thesis
    by (simp add: proto_deserialize_node_def Let_def node_effects_frame c hw_finalize_def hw_put_def hw_init_def enter_node_hash_def)
qed

section \<open>A disclosed contract\<close>

definition enc_disclosed :: "Node_Create \<Rightarrow> daml_value \<Rightarrow> u64 \<Rightarrow> byte list" where
  "enc_disclosed cr v created_at = msg [(1, WLen (msg (create_fields cr v))), int_field 1000 (unat created_at)]"

lemma disclosed_part:
  assumes "node_ready env h None (NCreate cr v)" "length (enc_disclosed cr v created_at) < 2 ^ 32"
  shows "proto_deserialize_input_contract env (enc_disclosed cr v created_at) (h, tree, vals) =
    Some (encode_hash (Some (pe_sha env (node_bytes h None (NCreate cr v)))) (encode_int64 created_at h), tree, create_uses env True cr vals)"
proof -
  let ?fs = "[(1, WLen (msg (create_fields cr v))), int_field 1000 (unat created_at)]"
  let ?c = "init_parser_ctx True h tree vals"
  have wf: "list_all field_wf ?fs"
    using assms(2) unfolding enc_disclosed_def by (rule msg_wf) (simp add: len_shape int_shape)
  have small: "length (msg (create_fields cr v)) < 2 ^ 32"
    using length_member [of 1 "msg (create_fields cr v)" ?fs] assms(2) by (simp add: enc_disclosed_def)
  have c: "pc_hash ?c = hw_init h" "pc_node_id ?c = -1" "pc_is_input_contract ?c" "pc_tree ?c = tree" "pc_values ?c = vals"
    by (simp_all add: init_parser_ctx_def)
  have "wrote (node_bytes h None (NCreate cr v)) (with_values (create_uses env True cr) ?c) (decode_create env (msg (create_fields cr v)) ?c)"
    using create_written [of env h None cr v ?c] assms(1) small by (simp add: c find_seed_def)
  then obtain k where "pb_decode (input_contract_field env) (enc_disclosed cr v created_at) (0, ?c) =
      Some (created_at, (with_values (create_uses env True cr) ?c)\<lparr>pc_hash := hw_put (node_bytes h None (NCreate cr v)) (hw_init h), pc_value_elem_count := k\<rparr>)"
    using u64_field_value [of 1000 created_at] unfolding enc_disclosed_def pb_decode_msg [OF wf]
    by (auto simp: wrote_def effects_frame c input_contract_field_def int_field_def)
  then show ?thesis
    by (simp add: proto_deserialize_input_contract_def with_values_def c hw_finalize_def hw_put_def hw_init_def encode_int64_def hw_put_u64_be_def encode_hash_def)
qed

end
