(* ===== verification/Node_Safety.thy ===== *)
theory Node_Safety
  imports Node_Hash
begin

text \<open>
  What the hash of a node commits to. The bytes hashed for a node determine its kind, every field of it,
  its values, its seed and the hashes of its children; so two parts that leave the same hash behind
  describe the same node, or exhibit a collision of SHA-256.
\<close>

section \<open>Content\<close>

definition child_hashes :: "hash_ctx \<Rightarrow> string list \<Rightarrow> byte list list" where
  "child_hashes h = map (\<lambda>x. the (get_node_hash (Some x) h))"

text \<open>A node as its hash sees it: the contract id as bytes and the children as their hashes.\<close>

fun node_content :: "hash_ctx \<Rightarrow> byte list option \<Rightarrow> daml_node \<Rightarrow> daml_node \<times> byte list \<times> byte list option \<times> byte list list" where
  "node_content h seed (NCreate cr v) = (NCreate (cr\<lparr>cr_contract_id := None\<rparr>) v, hex_bytes (the (cr_contract_id cr)), seed, [])"
| "node_content h seed (NExercise e v w) = (NExercise (e\<lparr>ex_contract_id := None, ex_children := []\<rparr>) v w,
     hex_bytes (the (ex_contract_id e)), seed, child_hashes h (ex_children e))"
| "node_content h seed (NFetch f) = (NFetch (f\<lparr>fe_contract_id := None\<rparr>), hex_bytes (the (fe_contract_id f)), None, [])"
| "node_content h seed (NRollback r) = (NRollback \<lparr>ro_children = []\<rparr>, [], None, child_hashes h (ro_children r))"

definition node_core :: "byte list option \<Rightarrow> daml_node \<Rightarrow> daml_node \<times> byte list \<times> byte list option" where
  "node_core seed n = (case n of
     NCreate cr v \<Rightarrow> (NCreate (cr\<lparr>cr_contract_id := None\<rparr>) v, hex_bytes (the (cr_contract_id cr)), seed)
   | NExercise e v w \<Rightarrow> (NExercise (e\<lparr>ex_contract_id := None, ex_children := []\<rparr>) v w, hex_bytes (the (ex_contract_id e)), seed)
   | NFetch f \<Rightarrow> (NFetch (f\<lparr>fe_contract_id := None\<rparr>), hex_bytes (the (fe_contract_id f)), None)
   | NRollback r \<Rightarrow> (NRollback \<lparr>ro_children = []\<rparr>, [], None))"

text \<open>The bytes to hash, given the hashes of the children.\<close>

fun node_preimage :: "byte list list \<Rightarrow> byte list option \<Rightarrow> daml_node \<Rightarrow> byte list" where
  "node_preimage ds seed (NCreate cr v) = enc_create_start cr seed @ canon v @ enc_create_end cr"
| "node_preimage ds seed (NExercise e v w) = enc_exercise_start e (the seed) @ canon v @
     [if ex_consuming e then 1 else 0, 0x01] @ canon w @ enc_list enc_str (ex_choice_observers e) @ enc_list (\<lambda>d. d) ds"
| "node_preimage ds seed (NFetch f) = enc_fetch f"
| "node_preimage ds seed (NRollback r) = [NODE_ENCODING_VERSION, 0x03] @ enc_list (\<lambda>d. d) ds"

lemma node_bytes_preimage: "node_bytes h seed n = node_preimage (child_hashes h (node_child_ids n)) seed n"
  by (cases n) (simp_all add: enc_children_def child_hashes_def enc_list_def node_child_ids_def comp_def)

lemma node_content_core: "node_content h seed n = (case node_core seed n of (k, cid, sd) \<Rightarrow> (k, cid, sd, child_hashes h (node_child_ids n)))"
  by (cases n) (simp_all add: node_core_def node_child_ids_def child_hashes_def)

definition digests_stored :: "hash_ctx \<Rightarrow> bool" where
  "digests_stored h \<longleftrightarrow> store_wf h \<and> list_all (\<lambda>e. length (snd e) = SHA256_HASH_LEN) (hashed_nodes_store h)"

definition node_ok :: "parser_env \<Rightarrow> byte list option \<Rightarrow> daml_node \<Rightarrow> bool" where
  "node_ok env seed n \<longleftrightarrow> node_plain env seed n \<and> length (msg [node_wire n]) < 2 ^ 24 \<and> pred_option (\<lambda>s. length s = SHA256_HASH_LEN) seed"

abbreviation digest_list :: "byte list list \<Rightarrow> bool" where
  "digest_list \<equiv> valid_list (\<lambda>d. length d = SHA256_HASH_LEN)"

section \<open>Bounds\<close>

interpretation digest_code: prefix_code "\<lambda>d. length d = SHA256_HASH_LEN" "take SHA256_HASH_LEN"
  by unfold_locales (simp add: append_eq_append_conv)

lemma field_text_valid: "text_field t s \<in> set fs \<Longrightarrow> length (msg fs) < 2 ^ 24 \<Longrightarrow> length s < 2 ^ 24"
  using length_member [of t "str_bytes s" fs] by (simp add: text_field_def)

lemma field_texts_valid:
  assumes "text_field t ` set ss \<subseteq> set fs" "length ss \<le> length fs" "length (msg fs) < 2 ^ 24"
  shows "valid_list valid_name ss"
  using assms field_text_valid [of t _ fs] length_fields_le [of fs] by (fastforce simp: valid_list_def list_all_iff)

lemma field_ident_valid:
  assumes "plain_identifier i" "(t, WLen (enc_ident i)) \<in> set fs" "length (msg fs) < 2 ^ 24"
  shows "valid_identifier i"
  using ident_bound [OF assms(1)] length_member [OF assms(2)] assms(3) by simp

lemma field_value_ok:
  assumes "value_fits env v" "(t, WLen (enc_value v)) \<in> set fs" "length (msg fs) < 2 ^ 24"
  shows "value_ok v"
  using length_member [OF assms(2)] assms(1,3) by (simp add: value_ok_def value_fits_def)

lemma head_valid:
  assumes "plain_head version cid package template" "set (head_fields version cid package template) \<subseteq> set fs" "length (msg fs) < 2 ^ 24"
  shows "valid_cstring version" "valid_cstring cid" "valid_cstring package" "valid_identifier template"
    "even (length (the cid))" "length (the version) < 2 ^ 24"
  using assms field_text_valid [of 1 "the version" fs] field_text_valid [of 2 "the cid" fs] field_text_valid [of 3 "the package" fs]
    field_ident_valid [of template 4 fs]
  by (auto simp: plain_head_def head_fields_def valid_cstring_def require_present_def)

lemma interface_valid:
  assumes "pred_option plain_identifier i" "set (interface_field i) \<subseteq> set fs" "length (msg fs) < 2 ^ 24"
  shows "valid_opt valid_identifier i" "optional_interface_is_complete i"
  using assms field_ident_valid [of "the i" 8 fs]
  by (auto simp: valid_opt_def interface_field_def optional_interface_is_complete_def require_identifier_def plain_identifier_def
      require_present_def split: option.splits)

definition valid_create :: "Node_Create \<Rightarrow> bool" where
  "valid_create c \<longleftrightarrow> valid_cstring (cr_lf_version c) \<and> valid_cstring (cr_contract_id c) \<and> valid_cstring (cr_package_name c) \<and>
     valid_identifier (cr_template_id c) \<and> valid_list valid_name (cr_signatories c) \<and> valid_list valid_name (cr_stakeholders c)"

lemma create_valid:
  assumes "node_plain env seed (NCreate cr v)" "length (msg (create_fields cr v)) < 2 ^ 24"
  shows "valid_create cr" "value_ok v" "length (the (cr_lf_version cr)) < 2 ^ 24"
proof -
  let ?fs = "create_fields cr v"
  have head: "plain_head (cr_lf_version cr) (cr_contract_id cr) (cr_package_name cr) (cr_template_id cr)"
    "set (head_fields (cr_lf_version cr) (cr_contract_id cr) (cr_package_name cr) (cr_template_id cr)) \<subseteq> set ?fs"
    using assms(1) by (auto simp: create_fields_def)
  show "valid_create cr" "length (the (cr_lf_version cr)) < 2 ^ 24"
    using head_valid [OF head assms(2)] field_texts_valid [of 6 "cr_signatories cr" ?fs] field_texts_valid [of 7 "cr_stakeholders cr" ?fs] assms(2)
    by (auto simp: valid_create_def create_fields_def)
  show "value_ok v"
    using assms by (intro field_value_ok [of env v 5 ?fs]) (auto simp: create_fields_def)
qed

lemma exercise_valid:
  assumes "node_plain env seed (NExercise e v w)" "length (msg (exercise_fields e v w)) < 2 ^ 24"
  shows "valid_exercise e" "valid_list valid_name (ex_choice_observers e)" "value_ok v" "value_ok w" "length (the (ex_lf_version e)) < 2 ^ 24"
proof -
  let ?fs = "exercise_fields e v w"
  have head: "plain_head (ex_lf_version e) (ex_contract_id e) (ex_package_name e) (ex_template_id e)"
    "set (head_fields (ex_lf_version e) (ex_contract_id e) (ex_package_name e) (ex_template_id e)) \<subseteq> set ?fs"
    "pred_option plain_identifier (ex_interface_id e)" "set (interface_field (ex_interface_id e)) \<subseteq> set ?fs"
    using assms(1) by (auto simp: exercise_fields_def exercise_front_def)
  note bound = field_texts_valid [of 5 "ex_signatories e" ?fs] field_texts_valid [of 6 "ex_stakeholders e" ?fs]
    field_texts_valid [of 7 "ex_acting_parties e" ?fs] field_texts_valid [of 14 "ex_choice_observers e" ?fs] field_text_valid [of 9 "the (ex_choice_id e)" ?fs]
  show "length (the (ex_lf_version e)) < 2 ^ 24"
    by (rule head_valid(6) [OF head(1,2) assms(2)])
  show "value_ok v" "value_ok w"
    using assms field_value_ok [of env v 10 ?fs] field_value_ok [of env w 13 ?fs] by (auto simp: exercise_fields_def)
  show "valid_list valid_name (ex_choice_observers e)"
    using bound(4) assms(2) by (auto simp: exercise_fields_def)
  have "valid_cstring (ex_choice_id e)"
    using bound(5) assms by (auto simp: exercise_fields_def exercise_front_def valid_cstring_def require_present_def)
  moreover have "exercise_is_complete e"
    using assms(1) by (auto simp: exercise_is_complete_def require_identifier_def plain_head_def plain_identifier_def require_present_def)
  moreover have "valid_list valid_name (ex_signatories e)" "valid_list valid_name (ex_stakeholders e)" "valid_list valid_name (ex_acting_parties e)"
    using bound(1-3) assms(2) by (auto simp: exercise_fields_def exercise_front_def)
  ultimately show "valid_exercise e"
    using head_valid [OF head(1,2) assms(2)] interface_valid [OF head(3,4) assms(2)] by (simp add: valid_exercise_def)
qed

lemma fetch_valid:
  assumes "node_plain env seed (NFetch f)" "length (msg (fetch_fields f)) < 2 ^ 24"
  shows "valid_fetch f" "length (the (fe_lf_version f)) < 2 ^ 24"
proof -
  let ?fs = "fetch_fields f"
  have head: "plain_head (fe_lf_version f) (fe_contract_id f) (fe_package_name f) (fe_template_id f)"
    "set (head_fields (fe_lf_version f) (fe_contract_id f) (fe_package_name f) (fe_template_id f)) \<subseteq> set ?fs"
    "pred_option plain_identifier (fe_interface_id f)" "set (interface_field (fe_interface_id f)) \<subseteq> set ?fs"
    using assms(1) by (auto simp: fetch_fields_def)
  show "length (the (fe_lf_version f)) < 2 ^ 24"
    by (rule head_valid(6) [OF head(1,2) assms(2)])
  have "valid_list valid_name (fe_signatories f)" "valid_list valid_name (fe_stakeholders f)" "valid_list valid_name (fe_acting_parties f)"
    using field_texts_valid [of 5 "fe_signatories f" ?fs] field_texts_valid [of 6 "fe_stakeholders f" ?fs]
      field_texts_valid [of 7 "fe_acting_parties f" ?fs] assms(2) by (auto simp: fetch_fields_def)
  moreover have "fetch_is_complete f"
    using assms(1) by (auto simp: fetch_is_complete_def require_identifier_def plain_head_def plain_identifier_def require_present_def)
  ultimately show "valid_fetch f"
    using head_valid [OF head(1,2) assms(2)] interface_valid [OF head(3,4) assms(2)] by (simp add: valid_fetch_def)
qed

section \<open>The bytes determine the content\<close>

lemma create_inject:
  assumes "valid_create c" "valid_create d" "valid_opt (\<lambda>s. length s = SHA256_HASH_LEN) seed" "valid_opt (\<lambda>s. length s = SHA256_HASH_LEN) seed'"
    and "value_ok v" "value_ok w" "cr_has_template_id c" "cr_has_template_id d"
    and eq: "node_preimage ds seed (NCreate c v) = node_preimage ds' seed' (NCreate d w)"
  shows "node_core seed (NCreate c v) = node_core seed' (NCreate d w)"
proof -
  have v: "valid_cstring (cr_lf_version k)" "valid_cstring (cr_contract_id k)" "valid_cstring (cr_package_name k)"
    "valid_identifier (cr_template_id k)" "valid_list valid_name (cr_signatories k)" "valid_list valid_name (cr_stakeholders k)"
    if "valid_create k" for k
    using that by (simp_all add: valid_create_def)
  note vc = v [OF assms(1)] and vd = v [OF assms(2)]
  note e0 = eq [unfolded node_preimage.simps enc_create_start_def enc_create_end_def append_assoc append_Cons append_Nil list.inject, THEN conjunct2]
  note e1 = cstring_prefix_free [OF vc(1) vd(1) e0, unfolded list.inject]
  note e2 = digest_code.opt_prefix_free [OF assms(3,4) e1 [THEN conjunct2, THEN conjunct2]]
  note e3 = hex_prefix_free [OF vc(2) vd(2) e2 [THEN conjunct2]]
  note e4 = cstring_prefix_free [OF vc(3) vd(3) e3 [THEN conjunct2]]
  note e5 = ident_code.prefix_free [OF vc(4) vd(4) e4 [THEN conjunct2]]
  note e6 = value_code.prefix_free [OF assms(5,6) e5 [THEN conjunct2]]
  note e7 = names_code.prefix_free [OF vc(5) vd(5) e6 [THEN conjunct2]]
  note e8 = names_code.prefix_free [OF vc(6) vd(6), of "[]" "[]", unfolded append_Nil2, OF e7 [THEN conjunct2]]
  show ?thesis
    using e1 e2 e3 e4 e5 e6 e7 e8 assms(7,8) by (simp add: node_core_def)
qed

lemma digests_inject:
  assumes "digest_list ds" "digest_list ds'" "enc_list (\<lambda>d. d) ds = enc_list (\<lambda>d. d) ds'"
  shows "ds = ds'"
proof -
  have "enc_list (\<lambda>d. d) xs = enc_list (take SHA256_HASH_LEN) xs" if "digest_list xs" for xs
    using that by (auto simp: enc_list_def valid_list_def list_all_iff intro!: arg_cong [where f = concat] map_idI [symmetric])
  then show ?thesis
    using digest_code.list_prefix_free [of ds ds' "[]" "[]"] assms by simp
qed

lemma exercise_inject:
  assumes e: "valid_exercise e" "valid_list valid_name (ex_choice_observers e)" "value_ok v" "value_ok w" "digest_list ds"
    and f: "valid_exercise f" "valid_list valid_name (ex_choice_observers f)" "value_ok x" "value_ok y" "digest_list ds'"
    and "length sd = SHA256_HASH_LEN" "length sd' = SHA256_HASH_LEN" "ex_has_template_id e" "ex_has_template_id f"
    and eq: "node_preimage ds (Some sd) (NExercise e v w) = node_preimage ds' (Some sd') (NExercise f x y)"
  shows "node_core (Some sd) (NExercise e v w) = node_core (Some sd') (NExercise f x y) \<and> ds = ds'"
proof -
  note e1 = enc_exercise_start_inject [OF e(1) f(1) assms(11,12) eq [unfolded node_preimage.simps option.sel]]
  have "canon v @ [if ex_consuming e then 1 else 0, 0x01] @ canon w @ enc_list enc_str (ex_choice_observers e) @ enc_list (\<lambda>d. d) ds =
      canon x @ [if ex_consuming f then 1 else 0, 0x01] @ canon y @ enc_list enc_str (ex_choice_observers f) @ enc_list (\<lambda>d. d) ds'"
    using e1 by blast
  note e2 = value_code.prefix_free [OF e(3) f(3) this]
  then have "canon w @ enc_list enc_str (ex_choice_observers e) @ enc_list (\<lambda>d. d) ds =
      canon y @ enc_list enc_str (ex_choice_observers f) @ enc_list (\<lambda>d. d) ds'"
    by simp
  note e3 = value_code.prefix_free [OF e(4) f(4) this]
  note e4 = names_code.prefix_free [OF e(2) f(2) e3 [THEN conjunct2]]
  have "ex_consuming e = ex_consuming f"
    using e2 by (simp split: if_splits)
  moreover have "ds = ds'"
    using digests_inject [OF e(5) f(5)] e4 by blast
  ultimately show ?thesis
    using e1 e2 e3 e4 assms(13,14) by (simp add: node_core_def)
qed

text \<open>The kind of the node shows in the byte after the language version; a rollback has no version.\<close>

fun node_kind :: "daml_node \<Rightarrow> byte" where
  "node_kind (NCreate cr v) = 0x00"
| "node_kind (NExercise e v w) = 0x01"
| "node_kind (NFetch f) = 0x02"
| "node_kind (NRollback r) = 0x03"

lemma member_message: "length (msg [node_wire n]) < 2 ^ 24 \<Longrightarrow> node_wire n = (t, WLen p) \<Longrightarrow> length p < 2 ^ 24"
  using length_member [of t p "[node_wire n]"] by simp

lemma node_ok_member:
  "node_ok env seed (NCreate cr v) \<Longrightarrow> length (msg (create_fields cr v)) < 2 ^ 24"
  "node_ok env seed (NExercise e v w) \<Longrightarrow> length (msg (exercise_fields e v w)) < 2 ^ 24"
  "node_ok env seed (NFetch f) \<Longrightarrow> length (msg (fetch_fields f)) < 2 ^ 24"
  using member_message [of "NCreate cr v"] member_message [of "NExercise e v w"] member_message [of "NFetch f"] by (simp_all add: node_ok_def)

lemma node_preimage_kind:
  assumes "node_ok env seed n"
  obtains s xs where "node_kind n \<noteq> 0x03" "node_preimage ds seed n = 0x01 # enc_str s @ node_kind n # xs" "length s < 2 ^ 24"
    | xs where "node_kind n = 0x03" "node_preimage ds seed n = 0x01 # 0x03 # xs"
proof (cases n)
  case (NCreate cr v)
  with create_valid(3) [of env seed cr v] node_ok_member(1) [of env seed cr v] assms that(1) show thesis
    by (simp add: node_ok_def enc_create_start_def NODE_ENCODING_VERSION_def)
next
  case (NExercise e v w)
  with exercise_valid(5) [of env seed e v w] node_ok_member(2) [of env seed e v w] assms that(1) show thesis
    by (simp add: node_ok_def enc_exercise_start_def NODE_ENCODING_VERSION_def)
next
  case (NFetch f)
  with fetch_valid(2) [of env seed f] node_ok_member(3) [of env seed f] assms that(1) show thesis
    by (simp add: node_ok_def enc_fetch_def NODE_ENCODING_VERSION_def)
next
  case (NRollback r)
  with that(2) show thesis
    by (simp add: NODE_ENCODING_VERSION_def)
qed

lemma short_length_byte:
  assumes "length s < 2 ^ 24"
  shows "enc_str s @ xs \<noteq> 0x03 # ys"
proof -
  have "unat (drop_bit 24 (of_nat (length s) :: u32)) = length s mod 2 ^ 32 div 2 ^ 24"
    by (subst unat_drop_bit_eq) (simp add: drop_bit_eq_div [where 'a = nat] unat_of_nat)
  also have "\<dots> = 0"
    using assms by simp
  finally have "drop_bit 24 (of_nat (length s) :: u32) = 0"
    by (simp add: unat_eq_zero)
  then show ?thesis
    by (simp add: enc_bytes_def u32_be_def)
qed

lemma node_kinds_differ:
  assumes "node_ok env seed n" "node_ok env' seed' n'" "node_preimage ds seed n = node_preimage ds' seed' n'"
  shows "node_kind n = node_kind n'"
proof (rule node_preimage_kind [OF assms(1), where ds = ds]; rule node_preimage_kind [OF assms(2), where ds = ds'])
  fix s xs t ys
  assume "node_preimage ds seed n = 0x01 # enc_str s @ node_kind n # xs" "length s < 2 ^ 24"
    "node_preimage ds' seed' n' = 0x01 # enc_str t @ node_kind n' # ys" "length t < 2 ^ 24"
  then show ?thesis
    using assms(3) name_code.prefix_free [of s t "node_kind n # xs" "node_kind n' # ys"] by simp
qed (use assms(3) in \<open>(metis list.inject short_length_byte)+\<close>)

lemma node_preimage_inject:
  assumes ok: "node_ok env seed n" "node_ok env' seed' n'" and ds: "digest_list ds" "digest_list ds'"
    "length ds = length (node_child_ids n)" "length ds' = length (node_child_ids n')"
    and eq: "node_preimage ds seed n = node_preimage ds' seed' n'"
  shows "node_core seed n = node_core seed' n' \<and> ds = ds'"
proof -
  have kind: "node_kind n = node_kind n'"
    by (rule node_kinds_differ [OF ok eq])
  have seeds: "valid_opt (\<lambda>s. length s = SHA256_HASH_LEN) seed" "valid_opt (\<lambda>s. length s = SHA256_HASH_LEN) seed'"
    using ok by (auto simp: node_ok_def valid_opt_def split: option.split)
  have ready: "node_plain env seed n" "node_plain env' seed' n'"
    using ok by (simp_all add: node_ok_def)
  show ?thesis
  proof (cases n)
    case (NCreate cr v)
    then obtain dr w where n': "n' = NCreate dr w"
      using kind by (cases n') auto
    note cv = create_valid [OF ready(1) [unfolded NCreate] node_ok_member(1) [OF ok(1) [unfolded NCreate]]]
    note dv = create_valid [OF ready(2) [unfolded n'] node_ok_member(1) [OF ok(2) [unfolded n']]]
    show ?thesis
      using create_inject [OF cv(1) dv(1) seeds cv(2) dv(2) _ _ eq [unfolded NCreate n']] ready ds NCreate n' by (simp add: node_child_ids_def)
  next
    case (NExercise e v w)
    then obtain f x y where n': "n' = NExercise f x y"
      using kind by (cases n') auto
    obtain sd sd' where sd: "seed = Some sd" "seed' = Some sd'" "length sd = SHA256_HASH_LEN" "length sd' = SHA256_HASH_LEN"
      using ready seeds NExercise n' by (auto simp: valid_opt_def)
    note ev = exercise_valid [OF ready(1) [unfolded NExercise] node_ok_member(2) [OF ok(1) [unfolded NExercise]]]
    note fv = exercise_valid [OF ready(2) [unfolded n'] node_ok_member(2) [OF ok(2) [unfolded n']]]
    show ?thesis
      using exercise_inject [OF ev(1-4) ds(1) fv(1-4) ds(2) sd(3,4) _ _ eq [unfolded NExercise n' sd(1,2)]] ready NExercise n' sd by simp
  next
    case (NFetch f)
    then obtain g where n': "n' = NFetch g"
      using kind by (cases n') auto
    note fv = fetch_valid [OF ready(1) [unfolded NFetch] node_ok_member(3) [OF ok(1) [unfolded NFetch]]]
    note gv = fetch_valid [OF ready(2) [unfolded n'] node_ok_member(3) [OF ok(2) [unfolded n']]]
    show ?thesis
      using enc_fetch_inject [OF fv(1) gv(1), of "[]" "[]"] eq ready ds NFetch n' by (simp add: node_core_def node_child_ids_def)
  next
    case (NRollback r)
    then obtain q where n': "n' = NRollback q"
      using kind by (cases n') auto
    show ?thesis
      using digests_inject [OF ds(1,2)] eq NRollback n' by (simp add: node_core_def)
  qed
qed

lemma known_digests:
  assumes "digests_stored h" "children_known h xs"
  shows "digest_list (child_hashes h xs)"
proof -
  have "length (the (get_node_hash (Some x) h)) = SHA256_HASH_LEN" if x: "x \<in> set xs" for x
  proof -
    obtain y where "get_node_hash (Some x) h = Some y"
      using assms(2) x by (auto simp: children_known_def list_all_iff)
    moreover from this obtain i where "(i, y) \<in> set (hashed_nodes_store h)"
      by (auto simp: get_node_hash_def find_Some_iff dest: in_set_takeD) (metis in_set_takeD nth_mem prod.collapse)
    ultimately show ?thesis
      using assms(1) by (auto simp: digests_stored_def list_all_iff)
  qed
  then show ?thesis
    using assms(2) by (auto simp: valid_list_def child_hashes_def list_all_iff children_known_def)
qed

lemma node_bytes_inject:
  assumes "node_ok env seed n" "node_ok env' seed' n'" and "digests_stored h"
    and "children_known h (node_child_ids n)" "children_known h (node_child_ids n')"
    and "node_bytes h seed n = node_bytes h seed' n'"
  shows "node_content h seed n = node_content h seed' n'"
  using node_preimage_inject [OF assms(1,2) known_digests [OF assms(3,4)] known_digests [OF assms(3,5)]] assms(6)
  by (simp add: node_content_core node_bytes_preimage child_hashes_def)

section \<open>Node parts\<close>

text \<open>What a part enters determines the hash of the node.\<close>

lemma enter_inject:
  assumes "store_wf h" "length x = SHA256_HASH_LEN" "length y = SHA256_HASH_LEN"
    and "enter_node_hash env i x h = enter_node_hash env' j y h"
  shows "x = y"
proof -
  have "(hashed_nodes_store_count h + 1) mod MAX_NODE_CHILDREN \<noteq> hashed_nodes_store_count h"
    using assms(1) by (simp add: store_wf_def mod_Suc)
  moreover have "z = z'" if "(hashed_nodes_store h)[hashed_nodes_store_count h := z] = (hashed_nodes_store h)[hashed_nodes_store_count h := z']" for z z'
    using that assms(1) by (metis nth_list_update_eq store_wf_def)
  ultimately show ?thesis
    using assms(2,3) arg_cong [OF assms(4), of hw] arg_cong [OF assms(4), of hashed_nodes_store_count] arg_cong [OF assms(4), of hashed_nodes_store]
    by (auto simp: enter_node_hash_def encode_hash_def hw_put_def set_node_hash_def split: if_splits)
qed

text \<open>A part for a node: an id of at most three characters, the seed the header lists for it, and a node
  the device hashes in a message of a size it can receive.\<close>

definition part_ok :: "parser_env \<Rightarrow> hash_ctx \<Rightarrow> string \<Rightarrow> byte list option \<Rightarrow> daml_node \<Rightarrow> bool" where
  "part_ok env h node_id seed n \<longleftrightarrow> length node_id \<le> 3 \<and> plain_text node_id \<and> find_seed (pe_tx env) (atoint node_id) = Some seed \<and>
     node_ready env h seed n \<and> length (enc_node node_id n) < 2 ^ 24"

lemma find_seed_length: "find_seed tx i = Some seed \<Longrightarrow> pred_option (\<lambda>s. length s = SHA256_HASH_LEN) seed"
  by (cases seed) (auto simp: find_seed_def split: if_splits option.splits)

lemma part_ok_node: "part_ok env h node_id seed n \<Longrightarrow> node_ok env seed n" "part_ok env h node_id seed n \<Longrightarrow> children_known h (node_child_ids n)"
  using length_member [of 1000 "msg [node_wire n]" "[text_field 1 node_id, (1000, WLen (msg [node_wire n]))]"]
  by (auto simp: part_ok_def node_ok_def enc_node_def node_ready_iff dest: find_seed_length)

lemma part_hashed:
  "part_ok env h node_id seed n \<Longrightarrow>
   proto_deserialize_node env (enc_node node_id n) (h, tree, vals) =
     Some (enter_node_hash env node_id (pe_sha env (node_bytes h seed n)) h,
       tree_mark_seen (atoint node_id) (claim_node (atoint node_id) n tree), node_uses env n vals)"
  by (rule node_part) (simp_all add: part_ok_def)

text \<open>A small transaction: node 0 is a root with a seed and the child 1, whose hash is known.\<close>

definition node_env :: parser_env where
  "node_env = \<lparr>pe_sha = (\<lambda>m. take 32 (m @ replicate 32 0)),
     pe_tx = \<lparr>tx_version = Some ''1'', tx_roots = [''0''], tx_nodes_count = 2,
       tx_node_seeds = [\<lparr>ns_node_id = 0, ns_seed = Some (replicate 32 7)\<rparr>]\<rparr>, pe_mem_ok = True, pe_budget = 8\<rparr>"

definition node_store :: hash_ctx where
  "node_store = set_node_hash 1 (replicate 32 5) empty_hash_ctx"

definition sample_node :: daml_node where
  "sample_node = NExercise sample_exercise (DList [DBool True, DUnit]) (DOptional (Some (DParty ''bob'')))"

definition sample_fetch_node :: "string \<Rightarrow> daml_node" where
  "sample_fetch_node cid = NFetch (sample_fetch\<lparr>fe_contract_id := Some cid\<rparr>)"

lemma node_store_slots: "node_store = empty_hash_ctx\<lparr>hashed_nodes_store := (1, replicate 32 5) # replicate 31 (-1, replicate 32 0), hashed_nodes_store_count := 1\<rparr>"
proof -
  have "replicate 32 z = z # replicate 31 z" for z :: "int \<times> byte list"
    using replicate_Suc [of 31 z] by simp
  then show ?thesis
    by (simp add: node_store_def set_node_hash_def empty_hash_ctx_def init_node_hash_store_def)
qed

lemma node_store_ok: "digests_stored node_store" "children_known node_store [''1'']"
  by (simp_all add: digests_stored_def node_store_slots store_wf_def children_known_def get_node_hash_def plain_text_def list_all_iff
      atoint_def is_digit_def wrap_int32_def take_Cons')

lemma sample_fields:
  "exercise_fields sample_exercise v w = [(1, WLen (str_bytes ''2.1'')), (2, WLen (str_bytes ''00aF'')), (3, WLen (str_bytes ''p'')),
     (4, WLen (enc_ident sample_identifier)), (5, WLen (str_bytes ''alice'')), (9, WLen (str_bytes ''Accept'')), (10, WLen (enc_value v)),
     (11, WVarint (enc_varint 1)), (12, WLen (str_bytes ''1'')), (13, WLen (enc_value w))]"
  "fetch_fields (sample_fetch\<lparr>fe_contract_id := Some cid\<rparr>) = [(1, WLen (str_bytes ''2.1'')), (2, WLen (str_bytes cid)), (3, WLen (str_bytes ''p'')),
     (4, WLen (enc_ident sample_identifier)), (5, WLen (str_bytes ''alice'')), (6, WLen (str_bytes ''alice'')), (6, WLen (str_bytes ''bob'')),
     (7, WLen (str_bytes ''bob''))]"
  by (simp_all add: exercise_fields_def exercise_front_def exercise_middle_def fetch_fields_def head_fields_def interface_field_def
      sample_exercise_def sample_fetch_def text_field_def int_field_def)

lemma sample_node_length:
  "length (enc_node ''0'' sample_node) < 2 ^ 24" "length cid = 4 \<Longrightarrow> length (enc_node ''2'' (sample_fetch_node cid)) < 2 ^ 24"
  unfolding enc_node_def sample_node_def sample_fetch_node_def node_wire.simps sample_fields sample_identifier_def enc_value_def
    value_wire.simps list.map enc_ident_def text_field_def int_field_def msg_def option.sel Identifier.simps
  by (simp_all add: length_field length_varint del: One_nat_def)

lemma sample_parts:
  "part_ok node_env node_store ''0'' (Some (replicate 32 7)) sample_node"
  "length cid = 4 \<Longrightarrow> plain_text cid \<Longrightarrow> part_ok node_env node_store ''2'' None (sample_fetch_node cid)"
  using sample_node_length node_store_ok(2)
  by (simp_all add: part_ok_def plain_text_def find_seed_def node_env_def sample_node_def sample_fetch_node_def sample_exercise_def sample_fetch_def
    plain_head_def plain_identifier_def sample_identifier_def value_fits_def atoint_def is_digit_def wrap_int32_def)


text \<open>C7. Hashing a node is correct for all four kinds: for every node the device can hash, the parser accepts
  the part, hashes exactly the bytes the hashing scheme prescribes (header, argument, result, the hashes of the
  children in order) and enters that hash under the id of the node, or into the transaction hash for a root. The
  children are claimed in the node tree, the node is marked as seen and the contract it uses is recorded; nothing
  else changes.\<close>

theorem node_hashed_canonically:
  assumes "part_ok env h node_id seed n"
  shows "proto_deserialize_node env (enc_node node_id n) (h, tree, vals) =
    Some (enter_node_hash env node_id (pe_sha env (node_bytes h seed n)) h,
      tree_mark_seen (atoint node_id) (claim_node (atoint node_id) n tree), node_uses env n vals)"
  by (rule part_hashed [OF assms])

theorem node_hashed_canonically_witness:
  "proto_deserialize_node node_env (enc_node ''0'' sample_node) (node_store, tree_check_reset, values_check_reset) =
    Some (enter_node_hash node_env ''0'' (pe_sha node_env (node_bytes node_store (Some (replicate 32 7)) sample_node)) node_store,
      tree_mark_seen 0 (claim_node 0 sample_node tree_check_reset), node_uses node_env sample_node values_check_reset)"
  using node_hashed_canonically [OF sample_parts(1)] by (simp add: atoint_def is_digit_def wrap_int32_def)

definition sample_contract :: Node_Create where
  "sample_contract = \<lparr>cr_lf_version = Some ''2.1'', cr_contract_id = Some ''00aF'', cr_package_name = Some ''p'',
     cr_has_template_id = True, cr_template_id = sample_identifier, cr_signatories = [''alice''], cr_stakeholders = [''alice'', ''bob'']\<rparr>"

lemma sample_contract_length: "length (enc_disclosed sample_contract (DList [DBool True, DUnit]) 0) < 2 ^ 32"
proof -
  have fields: "create_fields sample_contract v = [(1, WLen (str_bytes ''2.1'')), (2, WLen (str_bytes ''00aF'')), (3, WLen (str_bytes ''p'')),
     (4, WLen (enc_ident sample_identifier)), (5, WLen (enc_value v)), (6, WLen (str_bytes ''alice'')), (7, WLen (str_bytes ''alice'')),
     (7, WLen (str_bytes ''bob''))]" for v
    by (simp add: create_fields_def head_fields_def sample_contract_def text_field_def)
  show ?thesis
    unfolding enc_disclosed_def fields sample_identifier_def enc_value_def value_wire.simps list.map enc_ident_def text_field_def int_field_def msg_def
      option.sel Identifier.simps
    by (simp add: length_field length_varint del: One_nat_def)
qed

text \<open>C20. Hashing a disclosed contract is correct: the creation time and the hash of the create, over the same bytes
  as a create node without a seed, are appended to the hash of the metadata, and the contract is checked against
  the contracts the nodes used. The node tree is left alone.\<close>

theorem disclosed_contract_hashed:
  assumes "node_ready env h None (NCreate cr v)" "length (enc_disclosed cr v created_at) < 2 ^ 32"
  shows "proto_deserialize_input_contract env (enc_disclosed cr v created_at) (h, tree, vals) =
    Some (h\<lparr>hw := hw h @ u64_be created_at @ take SHA256_HASH_LEN (pe_sha env (node_bytes h None (NCreate cr v)))\<rparr>, tree,
      values_check_disclosed_contract (pe_sha env) (cr_contract_id cr) vals)"
  using disclosed_part [OF assms] by (simp add: create_uses_def encode_int64_def hw_put_u64_be_def hw_put_def)

theorem disclosed_contract_hashed_witness:
  "proto_deserialize_input_contract node_env (enc_disclosed sample_contract (DList [DBool True, DUnit]) 0) (node_store, tree_check_reset, values_check_reset) =
    Some (node_store\<lparr>hw := hw node_store @ u64_be 0 @
      take SHA256_HASH_LEN (pe_sha node_env (node_bytes node_store None (NCreate sample_contract (DList [DBool True, DUnit]))))\<rparr>,
      tree_check_reset, values_check_disclosed_contract (pe_sha node_env) (Some ''00aF'') values_check_reset)"
  using disclosed_contract_hashed [OF _ sample_contract_length, of node_env node_store tree_check_reset values_check_reset]
  by (simp add: sample_contract_def sample_identifier_def plain_head_def plain_identifier_def plain_text_def value_fits_def node_env_def)



end
