(* ===== verification/Holding_Safety.thy ===== *)
theory Holding_Safety
  imports Node_Safety Holding_Parser
begin

text \<open>
  What the holding parser reads. The fields a create writes down are the labelled values of its argument,
  reached through at most six nested records, each under the path of the labels that lead to it. The
  parser reports a holding exactly when each of the configured paths leads to one value of the right kind,
  and the digests it reports are those of these values.
\<close>

section \<open>Fields by path\<close>

definition path_join :: "string \<Rightarrow> string \<Rightarrow> string" where
  "path_join p l = (if p = [] then l else p @ ''.'' @ l)"

fun fields_at :: "nat \<Rightarrow> string \<Rightarrow> daml_value \<Rightarrow> (string \<times> daml_value) list" where
  "fields_at d p (DRecord i fs) =
     (if d \<ge> MAX_LABEL_DEPTH then []
      else concat (map (\<lambda>(l, v). fields_at (Suc d) (path_join p l) v @ [(path_join p l, v)]) fs))"
| "fields_at d p _ = []"

fun party_or_numeric :: "daml_value \<Rightarrow> string option" where
  "party_or_numeric (DParty s) = Some s"
| "party_or_numeric (DNumeric s) = Some s"
| "party_or_numeric _ = None"

fun only_text :: "daml_value \<Rightarrow> string option" where
  "only_text (DText s) = Some s"
| "only_text _ = None"

definition texts_at :: "(daml_value \<Rightarrow> string option) \<Rightarrow> string \<Rightarrow> (string \<times> daml_value) list \<Rightarrow> string list" where
  "texts_at kind path = List.map_filter (\<lambda>(q, v). if q = path then kind v else None)"

definition read_holding ::
  "sha256 \<Rightarrow> holding_path_config \<Rightarrow> (string \<times> daml_value) list \<Rightarrow> (digest \<times> digest \<times> digest \<times> digest option) option" where
  "read_holding sha cfg fs =
     (case (texts_at party_or_numeric (hp_owner_path cfg) fs, texts_at party_or_numeric (hp_amount_path cfg) fs,
            texts_at party_or_numeric (hp_admin_path cfg) fs) of
        ([ow], [am], [ad]) \<Rightarrow>
          (case hp_id_path cfg of
             None \<Rightarrow> Some (sha (str_bytes ow), sha (str_bytes am), sha (str_bytes ad), None)
           | Some path \<Rightarrow>
               (case texts_at only_text path fs of
                  [i] \<Rightarrow> Some (sha (str_bytes ow), sha (str_bytes am), sha (str_bytes ad), Some (sha (str_bytes i)))
                | _ \<Rightarrow> None))
      | _ \<Rightarrow> None)"

text \<open>What a node does to the values check.\<close>

fun collect_node :: "sha256 \<Rightarrow> daml_node \<Rightarrow> values_store \<Rightarrow> values_store" where
  "collect_node sha (NCreate cr v) vals =
     (case find_holding (cr_template_id cr) of
        None \<Rightarrow> if is_non_holding (cr_template_id cr) then vals else values_report_unknown_template vals
      | Some cfg \<Rightarrow>
          (case read_holding sha cfg (fields_at 0 [] v) of
             None \<Rightarrow> values_report_unreadable_holding vals
           | Some (ow, am, ad, i) \<Rightarrow> values_report_holding ow am ad i vals))"
| "collect_node sha _ vals = vals"

section \<open>The walk\<close>

definition read_field :: "sha256 \<Rightarrow> string \<times> daml_value \<Rightarrow> holding_ctx \<Rightarrow> holding_ctx" where
  "read_field sha qv c = (find_holding_field sha (value_struct (snd qv)) (c\<lparr>hc_path := fst qv\<rparr>))\<lparr>hc_path := hc_path c\<rparr>"

definition walked :: "sha256 \<Rightarrow> (string \<times> daml_value) list \<Rightarrow> holding_ctx \<Rightarrow> holding_ctx option \<Rightarrow> bool" where
  "walked sha fs c r \<longleftrightarrow> (\<exists>k. r = Some ((fold (read_field sha) fs c)\<lparr>hc_records_opened := k\<rparr>))"

lemma find_holding_field_path: "hc_path (find_holding_field sha v c) = hc_path c"
  by (simp add: find_holding_field_def set_once_def Let_def split: option.split cbValue.split)

lemma find_holding_field_opened: "find_holding_field sha v (c\<lparr>hc_records_opened := k\<rparr>) = (find_holding_field sha v c)\<lparr>hc_records_opened := k\<rparr>"
  by (simp add: find_holding_field_def set_once_def Let_def split: option.split cbValue.split)

lemma read_field_path [simp]: "hc_path (read_field sha qv c) = hc_path c"
  by (simp add: read_field_def)

lemma fold_read_path [simp]: "hc_path (fold (read_field sha) fs c) = hc_path c"
  by (induction fs arbitrary: c) simp_all

lemma read_field_opened: "read_field sha qv (c\<lparr>hc_records_opened := k\<rparr>) = (read_field sha qv c)\<lparr>hc_records_opened := k\<rparr>"
proof -
  have "c\<lparr>hc_records_opened := k, hc_path := fst qv\<rparr> = c\<lparr>hc_path := fst qv, hc_records_opened := k\<rparr>" by simp
  then show ?thesis
    unfolding read_field_def by (simp only: find_holding_field_opened) simp
qed

lemma read_field_at: "read_field sha qv (c\<lparr>hc_path := p\<rparr>) = (read_field sha qv c)\<lparr>hc_path := p\<rparr>"
  by (simp add: read_field_def)

lemma fold_read_at: "fold (read_field sha) fs (c\<lparr>hc_path := p\<rparr>) = (fold (read_field sha) fs c)\<lparr>hc_path := p\<rparr>"
  by (induction fs arbitrary: c) (simp_all add: read_field_at)

lemma fold_read_opened: "fold (read_field sha) fs (c\<lparr>hc_records_opened := k\<rparr>) = (fold (read_field sha) fs c)\<lparr>hc_records_opened := k\<rparr>"
  by (induction fs arbitrary: c) (simp_all add: read_field_opened)

lemma read_field_cfg [simp]: "hc_cfg (read_field sha qv c) = hc_cfg c"
  by (simp add: read_field_def find_holding_field_def set_once_def Let_def split: option.split cbValue.split)

lemma fold_read_cfg [simp]: "hc_cfg (fold (read_field sha) fs c) = hc_cfg c"
  by (induction fs arbitrary: c) simp_all

lemma walked_start: "walked sha fs (c\<lparr>hc_records_opened := k\<rparr>) r \<longleftrightarrow> walked sha fs c r"
  by (simp add: walked_def fold_read_opened)

lemma walked_trans: "walked sha fs c (Some d) \<Longrightarrow> walked sha gs d r \<Longrightarrow> walked sha (fs @ gs) c r"
  by (auto simp: walked_def fold_read_opened)

lemma fold_opt_map: "fold_opt f (map h xs) s = fold_opt (f \<circ> h) xs s"
  by (induction xs arbitrary: s) (simp_all split: option.split)

lemma walked_fold:
  assumes "\<And>x d. x \<in> set xs \<Longrightarrow> hc_path d = p \<Longrightarrow> walked sha (g x) d (f x d)" "hc_path c = p"
  shows "walked sha (concat (map g xs)) c (fold_opt f xs c)"
  using assms
proof (induction xs arbitrary: c)
  case Nil
  show ?case by (auto simp: walked_def intro: exI [of _ "hc_records_opened c"])
next
  case (Cons x xs)
  then obtain d where d: "f x c = Some d" "walked sha (g x) c (Some d)"
    by (metis list.set_intros(1) walked_def)
  then have "hc_path d = p"
    using Cons.prems(2) by (auto simp: walked_def)
  with Cons d show ?case
    by (auto intro: walked_trans)
qed

lemma byte_of_char_zero: "byte_of_char c = 0 \<Longrightarrow> c = CHR 0x00"
  by (rule byte_of_char_inject [THEN iffD1]) (simp add: byte_of_char_def)

lemma label_pushed:
  assumes "short_text l" "length (path_join (hc_path c) l) < MAX_LABEL_PATH_LEN"
  shows "hp_decode_label (hc_records_opened c) (str_bytes l) (b, c) = Some (True, c\<lparr>hc_path := path_join (hc_path c) l\<rparr>)"
proof -
  have "map char_of_byte (str_bytes l) = l"
    by (simp add: str_bytes_def comp_def)
  moreover have "0 \<notin> set (str_bytes l)"
    using assms(1) by (auto simp: short_text_def plain_text_def str_bytes_def dest!: byte_of_char_zero)
  ultimately show ?thesis
    using assms by (auto simp: hp_decode_label_def short_text_def path_push_def path_join_def Let_def)
qed

lemma field_walked:
  assumes "short_text l" "value_wf v" "length (labelled l (enc_value v)) < 2 ^ 32" "length q < MAX_LABEL_PATH_LEN" "q = path_join (hc_path c) l"
    and sub: "\<And>d. hc_path d = q \<Longrightarrow> walked sha fs d (if value_tag v = 0 then Some d else cb (value_tag v) (msg (value_fields v)) d)"
  shows "walked sha (fs @ [(q, v)]) c (hp_decode_record_field sha cb (labelled l (enc_value v)) c)"
proof -
  let ?c1 = "c\<lparr>hc_path := q\<rparr>"
  have small: "length (enc_value v) < 2 ^ 32"
    using length_labelled [of "enc_value v" l] assms(3) by simp
  obtain k where k: "(if value_tag v = 0 then Some ?c1 else cb (value_tag v) (msg (value_fields v)) ?c1) =
      Some ((fold (read_field sha) fs c)\<lparr>hc_path := q, hc_records_opened := k\<rparr>)"
    using sub [of ?c1] by (auto simp: walked_def fold_read_at)
  let ?sub = "\<lambda>t p (l, c'). map_option (\<lambda>c''. (l, c'')) (cb t p c')"
  have "decode_cbValue ?sub (enc_value v) (V_none, True, ?c1) = Some (value_struct v, True, (fold (read_field sha) fs c)\<lparr>hc_path := q, hc_records_opened := k\<rparr>)"
    using decode_value_msg [OF assms(2) small, of ?sub V_none "(True, ?c1)"] k by (auto split: if_splits)
  then have "pb_decode (labelled_value_field (hp_decode_label (hc_records_opened c)) ?sub) (labelled l (enc_value v)) (V_none, False, c) =
      Some (value_struct v, True, (fold (read_field sha) fs c)\<lparr>hc_path := q, hc_records_opened := k\<rparr>)"
    using label_pushed [OF assms(1), of c False] assms(4,5) by (simp add: labelled_decode [OF assms(3)])
  moreover have "find_holding_field sha (value_struct v) (d\<lparr>hc_path := q, hc_records_opened := k\<rparr>)\<lparr>hc_path := hc_path d\<rparr> =
      (read_field sha (q, v) d)\<lparr>hc_records_opened := k\<rparr>" for d
    using find_holding_field_opened [of sha "value_struct v" k "d\<lparr>hc_path := q\<rparr>"] by (simp add: read_field_def)
  from this [of "fold (read_field sha) fs c"] have "find_holding_field sha (value_struct v) ((fold (read_field sha) fs c)\<lparr>hc_path := q, hc_records_opened := k\<rparr>)
      \<lparr>hc_path := take (length (hc_path c)) q\<rparr> = (read_field sha (q, v) (fold (read_field sha) fs c))\<lparr>hc_records_opened := k\<rparr>"
    using assms(5) by (simp add: path_join_def split: if_splits)
  ultimately show ?thesis
    by (auto simp: hp_decode_record_field_def Let_def walked_def find_holding_field_path)
qed

abbreviation short_paths :: "(string \<times> daml_value) list \<Rightarrow> bool" where
  "short_paths fs \<equiv> list_all (\<lambda>qv. length (fst qv) < MAX_LABEL_PATH_LEN) fs"

lemma not_entered:
  assumes "value_wf v" "length (enc_value v) < 2 ^ 32" "value_tag v \<noteq> 0" "value_tag v \<noteq> 14 \<or> d \<ge> MAX_LABEL_DEPTH"
  shows "walked sha [] c (hp_decode_value sha n d (value_tag v) (msg (value_fields v)) c)"
proof -
  have "hp_decode_value sha n d (value_tag v) (msg (value_fields v)) c = Some c"
    using comp_null_msg [OF assms(1) fields_small [OF assms(2,3)], of c] assms(4) by (cases n) auto
  then show ?thesis
    by (auto simp: walked_def intro: exI [of _ "hc_records_opened c"])
qed

lemma other_walked:
  assumes "value_wf v" "length (enc_value v) < 2 ^ 32" "value_tag v \<noteq> 0" "value_tag v \<noteq> 14"
  shows "walked sha (fields_at d p v) c (hp_decode_value sha n d (value_tag v) (msg (value_fields v)) c)"
proof -
  have "fields_at d p v = []"
    using assms(4) by (cases v) auto
  then show ?thesis
    using not_entered [OF assms(1-3)] assms(4) by simp
qed

lemma record_walked:
  assumes "value_wf (DRecord i fs)" "length (msg (value_fields (DRecord i fs))) < 2 ^ 32" "d < MAX_LABEL_DEPTH"
    and "short_paths (fields_at d (hc_path c) (DRecord i fs))"
    and sub: "\<And>l v e. (l, v) \<in> set fs \<Longrightarrow> value_tag v \<noteq> 0 \<Longrightarrow> hc_path e = path_join (hc_path c) l \<Longrightarrow>
      walked sha (fields_at (Suc d) (hc_path e) v) e (hp_decode_value sha n (Suc d) (value_tag v) (msg (value_fields v)) e)"
  shows "walked sha (fields_at d (hc_path c) (DRecord i fs)) c (hp_decode_value sha (Suc n) d 14 (msg (value_fields (DRecord i fs))) c)"
proof -
  let ?p = "hc_path c" and ?c = "c\<lparr>hc_records_opened := hc_records_opened c + 1\<rparr>"
  let ?f = "\<lambda>(fw :: nat \<times> wire) c. if fst fw = 2 then run_callback (hp_decode_record_field sha (hp_decode_value sha n (d + 1))) (snd fw) c
     else if fst fw = 1 then pb_null_callback (snd fw) c else Some c"
  let ?h = "\<lambda>(l, v). (2, WLen (labelled l (enc_value v)))"
  let ?g = "\<lambda>(l, v). fields_at (Suc d) (path_join ?p l) v @ [(path_join ?p l, v)]"
  note wf = value_fields_wf [OF assms(2)]
  have elem: "walked sha (?g x) e ((?f \<circ> ?h) x e)" if x: "x \<in> set fs" and e: "hc_path e = ?p" for x e
  proof -
    obtain l v where lv: "x = (l, v)" by fastforce
    have ok: "short_text l" "value_wf v" "length (labelled l (enc_value v)) < 2 ^ 32"
      using assms(1) wf x lv by (auto simp: list_all_iff field_wf_def)
    have "(path_join ?p l, v) \<in> set (fields_at d ?p (DRecord i fs))"
      using assms(3) x lv by force
    with assms(4) have short: "length (path_join ?p l) < MAX_LABEL_PATH_LEN"
      by (auto simp: list_all_iff)
    have "walked sha (fields_at (Suc d) (path_join ?p l) v) e' (if value_tag v = 0 then Some e' else hp_decode_value sha n (Suc d) (value_tag v) (msg (value_fields v)) e')"
      if "hc_path e' = path_join ?p l" for e'
    proof (cases "value_tag v = 0")
      case True
      then have "fields_at (Suc d) (path_join ?p l) v = []" by (cases v) auto
      with True show ?thesis by (auto simp: walked_def intro: exI [of _ "hc_records_opened e'"])
    qed (use sub [of l v e'] x lv that in auto)
    from field_walked [where c = e and cb = "hp_decode_value sha n (Suc d)", OF ok short _ this] e lv show ?thesis
      by (simp add: callback_len)
  qed
  have "fold_opt ?f (map ?h fs) ?c = fold_opt (?f \<circ> ?h) fs ?c"
    by (rule fold_opt_map)
  moreover have "hp_decode_value sha (Suc n) d 14 (msg (value_fields (DRecord i fs))) c = fold_opt ?f (map ?h fs) ?c"
    unfolding hp_decode_value.simps pb_decode_msg [OF wf] using assms(3) by (simp add: pb_null_callback_def pb_callback_payload_def)
  moreover have "walked sha (concat (map ?g fs)) ?c (fold_opt (?f \<circ> ?h) fs ?c)"
    by (rule walked_fold [where p = ?p]) (use elem in auto)
  ultimately show ?thesis
    using assms(3) by (simp add: walked_start del: fold_opt.simps)
qed

lemma value_walked:
  assumes "value_wf v" "length (enc_value v) < 2 ^ 32" "value_tag v \<noteq> 0" "vdepth v < n" "short_paths (fields_at d (hc_path c) v)"
  shows "walked sha (fields_at d (hc_path c) v) c (hp_decode_value sha n d (value_tag v) (msg (value_fields v)) c)"
  using assms
proof (induction v arbitrary: d n c)
  case (DRecord i fs)
  show ?case
  proof (cases "d < MAX_LABEL_DEPTH")
    case True
    obtain m where n: "n = Suc m"
      using DRecord.prems(4) by (cases n) auto
    have small: "length (msg (value_fields (DRecord i fs))) < 2 ^ 32"
      using fields_small [OF DRecord.prems(2)] by simp
    have "walked sha (fields_at (Suc d) (hc_path e) v) e (hp_decode_value sha m (Suc d) (value_tag v) (msg (value_fields v)) e)"
      if v: "(l, v) \<in> set fs" "value_tag v \<noteq> 0" and e: "hc_path e = path_join (hc_path c) l" for l v e
    proof (rule DRecord.IH [OF v(1)])
      show "value_wf v" using DRecord.prems(1) v by (auto simp: list_all_iff)
      show "length (enc_value v) < 2 ^ 32"
        using labelled_small [of 2 l v "DRecord i fs", OF _ small] v by force
      have "Suc (vdepth v) \<in> set (map (\<lambda>(l, v). Suc (vdepth v)) fs)"
        using v by force
      from depth_member [OF this, of 0] show "vdepth v < m"
        using DRecord.prems(4) n by simp
      show "short_paths (fields_at (Suc d) (hc_path e) v)"
        using DRecord.prems(5) True v e by (force simp: list_all_iff)
    qed (use v in auto)
    then show ?thesis
      using record_walked [OF DRecord.prems(1) small True DRecord.prems(5)] n by simp
  qed (use not_entered [OF DRecord.prems(1-3)] in simp)
qed (rule other_walked; simp)+

section \<open>The fields read\<close>

definition last_digest :: "sha256 \<Rightarrow> string list \<Rightarrow> digest option" where
  "last_digest sha ss = (if ss = [] then None else Some (sha (str_bytes (last ss))))"

lemma texts_at_snoc: "texts_at kind path (fs @ [(q, v)]) = texts_at kind path fs @ (if q = path then (case kind v of None \<Rightarrow> [] | Some s \<Rightarrow> [s]) else [])"
  by (simp add: texts_at_def List.map_filter_def split: option.split)

definition start_reading :: "holding_path_config \<Rightarrow> holding_ctx" where
  "start_reading cfg = \<lparr>hc_cfg = Some cfg, hc_path = [], hc_records_opened = 0, hc_owner = None, hc_amount = None,
     hc_admin = None, hc_instrument = None, hc_unreadable = False\<rparr>"

definition id_texts :: "holding_path_config \<Rightarrow> (string \<times> daml_value) list \<Rightarrow> string list" where
  "id_texts cfg fs = (case hp_id_path cfg of None \<Rightarrow> [] | Some path \<Rightarrow> texts_at only_text path fs)"

definition has_read :: "sha256 \<Rightarrow> holding_path_config \<Rightarrow> (string \<times> daml_value) list \<Rightarrow> holding_ctx \<Rightarrow> bool" where
  "has_read sha cfg fs c \<longleftrightarrow>
     hc_owner c = last_digest sha (texts_at party_or_numeric (hp_owner_path cfg) fs) \<and>
     hc_amount c = last_digest sha (texts_at party_or_numeric (hp_amount_path cfg) fs) \<and>
     hc_admin c = last_digest sha (texts_at party_or_numeric (hp_admin_path cfg) fs) \<and>
     hc_instrument c = last_digest sha (id_texts cfg fs) \<and>
     (hc_unreadable c \<longleftrightarrow> length (texts_at party_or_numeric (hp_owner_path cfg) fs) > 1 \<or>
        length (texts_at party_or_numeric (hp_amount_path cfg) fs) > 1 \<or>
        length (texts_at party_or_numeric (hp_admin_path cfg) fs) > 1 \<or> length (id_texts cfg fs) > 1)"

lemma read_scalar:
  assumes "hc_cfg c = Some cfg" "party_or_numeric v = Some s"
  shows "read_field sha (q, v) c =
     (if q = hp_owner_path cfg then c\<lparr>hc_unreadable := hc_unreadable c \<or> hc_owner c \<noteq> None, hc_owner := Some (sha (str_bytes s))\<rparr>
      else if q = hp_amount_path cfg then c\<lparr>hc_unreadable := hc_unreadable c \<or> hc_amount c \<noteq> None, hc_amount := Some (sha (str_bytes s))\<rparr>
      else if q = hp_admin_path cfg then c\<lparr>hc_unreadable := hc_unreadable c \<or> hc_admin c \<noteq> None, hc_admin := Some (sha (str_bytes s))\<rparr>
      else c)"
  using assms by (cases v) (simp_all add: read_field_def find_holding_field_def set_once_def)

lemma read_text:
  assumes "hc_cfg c = Some cfg" "only_text v = Some s"
  shows "read_field sha (q, v) c =
     (if hp_id_path cfg = Some q then c\<lparr>hc_unreadable := hc_unreadable c \<or> hc_instrument c \<noteq> None, hc_instrument := Some (sha (str_bytes s))\<rparr> else c)"
  using assms by (cases v) (simp_all add: read_field_def find_holding_field_def set_once_def)

lemma read_other:
  assumes "party_or_numeric v = None" "only_text v = None"
  shows "read_field sha (q, v) c = c"
  using assms by (cases v) (simp_all add: read_field_def find_holding_field_def split: option.split)

lemma last_digest_simps: "last_digest sha (ss @ [s]) = Some (sha (str_bytes s))" "last_digest sha ss \<noteq> None \<longleftrightarrow> length ss > 0"
  by (simp_all add: last_digest_def)

lemma only_one_kind: "party_or_numeric v = Some s \<Longrightarrow> only_text v = None" "only_text v = Some s \<Longrightarrow> party_or_numeric v = None"
  by (cases v; simp)+

lemma fields_read:
  assumes "distinct [hp_owner_path cfg, hp_amount_path cfg, hp_admin_path cfg]"
  shows "has_read sha cfg fs (fold (read_field sha) fs (start_reading cfg))"
proof (induction fs rule: rev_induct)
  case Nil
  show ?case
    by (simp add: has_read_def start_reading_def last_digest_def texts_at_def id_texts_def List.map_filter_def split: option.split)
next
  case (snoc qv fs)
  obtain q v where qv: "qv = (q, v)" by fastforce
  let ?c = "fold (read_field sha) fs (start_reading cfg)"
  have cfg: "hc_cfg ?c = Some cfg" by (simp add: start_reading_def)
  have ids: "id_texts cfg (fs @ [(q, v)]) = id_texts cfg fs @ (if hp_id_path cfg = Some q then (case only_text v of None \<Rightarrow> [] | Some s \<Rightarrow> [s]) else [])"
    by (auto simp: id_texts_def texts_at_snoc split: option.split)
  consider s where "party_or_numeric v = Some s" "only_text v = None" | s where "only_text v = Some s" "party_or_numeric v = None"
    | "party_or_numeric v = None" "only_text v = None"
    using only_one_kind by (cases "party_or_numeric v"; cases "only_text v") auto
  then show ?case
  proof cases
    case 1
    consider "q = hp_owner_path cfg" | "q = hp_amount_path cfg" | "q = hp_admin_path cfg"
      | "q \<noteq> hp_owner_path cfg" "q \<noteq> hp_amount_path cfg" "q \<noteq> hp_admin_path cfg"
      by blast
    then show ?thesis
      using snoc assms 1 unfolding qv has_read_def ids texts_at_snoc
      by cases (auto simp: read_scalar [OF cfg] last_digest_simps simp del: not_None_eq)
  next
    case 2
    with snoc show ?thesis
      unfolding qv has_read_def ids texts_at_snoc by (auto simp: read_text [OF cfg] last_digest_simps simp del: not_None_eq)
  next
    case 3
    with snoc show ?thesis
      unfolding qv has_read_def ids texts_at_snoc by (simp add: read_other)
  qed
qed

lemma one_text:
  "last_digest sha ss = None \<or> length ss > 1 \<or> (\<exists>s. ss = [s] \<and> last_digest sha ss = Some (sha (str_bytes s)))"
  by (cases ss rule: remdups_adj.cases) (auto simp: last_digest_def)

lemma not_one_text: "last_digest sha ss = None \<Longrightarrow> ss = []"
  by (simp add: last_digest_def split: if_splits)

definition report_found :: "holding_path_config \<Rightarrow> holding_ctx \<Rightarrow> values_store \<Rightarrow> values_store" where
  "report_found cfg c vals =
     (case (hc_owner c, hc_amount c, hc_admin c) of
        (Some ow, Some am, Some ad) \<Rightarrow>
          if \<not> hc_unreadable c \<and> (\<not> hp_id_path cfg \<noteq> None \<or> hc_instrument c \<noteq> None)
          then values_report_holding ow am ad (if hp_id_path cfg \<noteq> None then hc_instrument c else None) vals
          else values_report_unreadable_holding vals
      | _ \<Rightarrow> values_report_unreadable_holding vals)"

lemma report_unreadable:
  assumes "hc_unreadable c \<or> hc_owner c = None \<or> hc_amount c = None \<or> hc_admin c = None \<or> hp_id_path cfg \<noteq> None \<and> hc_instrument c = None"
  shows "report_found cfg c vals = values_report_unreadable_holding vals"
  using assms by (auto simp: report_found_def split: option.splits)

lemma report_read:
  assumes "has_read sha cfg fs c"
  shows "report_found cfg c vals =
   (case read_holding sha cfg fs of
      None \<Rightarrow> values_report_unreadable_holding vals
    | Some (ow, am, ad, i) \<Rightarrow> values_report_holding ow am ad i vals)"
proof -
  let ?ow = "texts_at party_or_numeric (hp_owner_path cfg) fs" and ?am = "texts_at party_or_numeric (hp_amount_path cfg) fs"
    and ?ad = "texts_at party_or_numeric (hp_admin_path cfg) fs" and ?id = "id_texts cfg fs"
  consider ow am ad where "?ow = [ow]" "?am = [am]" "?ad = [ad]" "hp_id_path cfg = None \<or> (\<exists>i. ?id = [i])"
    | "\<not> (\<exists>ow am ad. ?ow = [ow] \<and> ?am = [am] \<and> ?ad = [ad] \<and> (hp_id_path cfg = None \<or> (\<exists>i. ?id = [i])))"
    by blast
  then show ?thesis
  proof cases
    case 1
    then show ?thesis
      using assms by (auto simp: has_read_def report_found_def read_holding_def last_digest_def id_texts_def split: option.splits)
  next
    case 2
    then have "read_holding sha cfg fs = None"
      by (auto simp: read_holding_def id_texts_def split: list.split option.split)
    moreover have "report_found cfg c vals = values_report_unreadable_holding vals"
    proof (rule report_unreadable)
      show "hc_unreadable c \<or> hc_owner c = None \<or> hc_amount c = None \<or> hc_admin c = None \<or> hp_id_path cfg \<noteq> None \<and> hc_instrument c = None"
        using 2 assms one_text [of sha ?ow] one_text [of sha ?am] one_text [of sha ?ad] one_text [of sha ?id]
        unfolding has_read_def by metis
    qed
    ultimately show ?thesis by simp
  qed
qed

section \<open>Nodes\<close>

lemma holding_paths_distinct: "find_holding i = Some cfg \<Longrightarrow> distinct [hp_owner_path cfg, hp_amount_path cfg, hp_admin_path cfg]"
proof -
  assume "find_holding i = Some cfg"
  then have "cfg \<in> set HOLDING_TEMPLATES"
    by (auto simp: find_holding_def find_Some_iff)
  then show ?thesis
    by (auto simp: HOLDING_TEMPLATES_def HPC_def)
qed

lemma argument_walked:
  assumes "value_wf v" "length (enc_value v) < 2 ^ 32" "vdepth v < n" "short_paths (fields_at 0 (hc_path c) v)"
  shows "walked sha (fields_at 0 (hc_path c) v) c (hp_decode_argument sha n (enc_value v) c)"
proof (cases "value_tag v = 0")
  case True
  then have "fields_at 0 (hc_path c) v = []" by (cases v) auto
  moreover have "hp_decode_argument sha n (enc_value v) c = Some c"
    using True decode_value_msg [OF assms(1,2), of "hp_decode_value sha n 0" V_none c] by (simp add: hp_decode_argument_def)
  ultimately show ?thesis
    by (auto simp: walked_def intro: exI [of _ "hc_records_opened c"])
next
  case False
  from value_walked [OF assms(1,2) this assms(3,4)] show ?thesis
    using decode_value_msg [OF assms(1,2), of "hp_decode_value sha n 0" V_none c] False
    by (auto simp: hp_decode_argument_def walked_def)
qed

lemma create_found:
  assumes "decode_Create p Node_Create_init_zero = Some cr" "cr_has_template_id cr" "find_holding (cr_template_id cr) = Some cfg"
    and "pb_decode (\<lambda>fw (m, c). if fst fw = 5 then map_option (\<lambda>c'. (m, c')) (run_callback (hp_decode_argument sha n) (snd fw) c)
      else map_option (\<lambda>m'. (m', c)) (Create_field fw m)) p (Node_Create_init_zero, start_reading cfg) = Some (m, c)"
  shows "hp_decode_create sha n p vals = Some (report_found cfg c vals)"
  using assms by (simp add: hp_decode_create_def report_found_def start_reading_def split: option.split)

lemma create_collected:
  assumes ready: "node_ready env h seed (NCreate cr v)" and small: "length (msg (create_fields cr v)) < 2 ^ 32"
    and "vdepth v < n" "short_paths (fields_at 0 [] v)"
  shows "hp_decode_create sha n (msg (create_fields cr v)) vals = Some (collect_node sha (NCreate cr v) vals)"
proof -
  have wf: "list_all field_wf (create_fields cr v)"
    using msg_wf [OF small] node_fields_shape by blast
  note dec = create_decoded [OF ready wf]
  have has: "cr_has_template_id cr"
    using ready by simp
  show ?thesis
  proof (cases "find_holding (cr_template_id cr)")
    case None
    then show ?thesis
      using dec has by (simp add: hp_decode_create_def decode_Create_def pb_decode_msg [OF wf])
  next
    case (Some cfg)
    have v: "value_wf v" "length (enc_value v) < 2 ^ 32"
      using ready length_member [of 5 "enc_value v" "create_fields cr v"] small by (simp_all add: value_fits_def create_fields_def)
    obtain k where k: "hp_decode_argument sha n (enc_value v) (start_reading cfg) =
        Some ((fold (read_field sha) (fields_at 0 [] v) (start_reading cfg))\<lparr>hc_records_opened := k\<rparr>)" (is "_ = Some ?c")
      using argument_walked [OF v assms(3), of "start_reading cfg" sha] assms(4) by (auto simp: walked_def start_reading_def)
    have "pb_decode (\<lambda>fw (m, c). if fst fw = 5 then map_option (\<lambda>c'. (m, c')) (run_callback (hp_decode_argument sha n) (snd fw) c)
        else map_option (\<lambda>m'. (m', c)) (Create_field fw m)) (msg (create_fields cr v)) (Node_Create_init_zero, start_reading cfg) = Some (cr, ?c)"
      using wf dec k unfolding create_fields_def
      by (intro decode_callback_msg [where field = Create_field and cb = "hp_decode_argument sha n"]) (auto simp: head_fields_def text_field_def Create_field_def pb_null_callback_def pb_callback_payload_def)
    then have "hp_decode_create sha n (msg (create_fields cr v)) vals = Some (report_found cfg ?c vals)"
      using dec has Some by (intro create_found) (simp_all add: decode_Create_def pb_decode_msg [OF wf])
    moreover have "has_read sha cfg (fields_at 0 [] v) ?c"
      using fields_read [OF holding_paths_distinct [OF Some]] by (simp add: has_read_def)
    ultimately show ?thesis
      using Some report_read by simp
  qed
qed

lemma node_collected:
  assumes "node_ready env h seed n" "length (enc_node node_id n) < 2 ^ 32"
    and "\<And>cr v. n = NCreate cr v \<Longrightarrow> vdepth v < k \<and> short_paths (fields_at 0 [] v)"
  shows "values_collect_from_node sha k (enc_node node_id n) vals = (if values_still_collecting vals then collect_node sha n vals else vals)"
proof -
  let ?fs = "[text_field 1 node_id, (1000, WLen (msg [node_wire n]))]"
  have wf: "list_all field_wf ?fs"
    using assms(2) unfolding enc_node_def by (rule msg_wf) (simp add: text_shape len_shape)
  have small: "length (msg [node_wire n]) < 2 ^ 32"
    using length_member [of 1000 "msg [node_wire n]" ?fs] assms(2) by (simp add: enc_node_def)
  have wf1: "list_all field_wf [node_wire n]"
    using msg_wf [OF small] node_fields_shape(4) by simp
  have "hp_decode_node_type sha k (node_wire n) vals = Some (collect_node sha n vals)"
  proof (cases n)
    case (NCreate cr v)
    then have "length (msg (create_fields cr v)) < 2 ^ 32"
      using length_member [of 1 "msg (create_fields cr v)" "[node_wire n]"] small by simp
    with NCreate create_collected [of env h seed cr v k sha vals] assms(1,3) show ?thesis
      by (simp add: hp_decode_node_type_def)
  qed (simp_all add: hp_decode_node_type_def)
  then have "pb_decode (hp_decode_node_type sha k) (msg [node_wire n]) vals = Some (collect_node sha n vals)"
    unfolding pb_decode_msg [OF wf1] by simp
  then show ?thesis
    unfolding values_collect_from_node_def enc_node_def pb_decode_msg [OF wf]
    by (simp add: text_field_def pb_null_callback_def pb_callback_payload_def)
qed

section \<open>Properties\<close>

text \<open>An Amulet, the native token, as a create node writes it.\<close>

definition amulet_id :: "string \<Rightarrow> Identifier" where
  "amulet_id entity = \<lparr>id_package = Some ''pkg'', id_module = Some ''Splice.Amulet'', id_entity = Some entity\<rparr>"

definition amulet_value :: daml_value where
  "amulet_value = DRecord (amulet_id ''Amulet'')
     [(''dso'', DParty ''dso''), (''owner'', DParty ''bob''), (''amount'', DRecord (amulet_id ''Fee'') [(''initialAmount'', DNumeric ''5.0'')])]"

definition amulet_node :: daml_node where
  "amulet_node = NCreate (sample_contract\<lparr>cr_template_id := amulet_id ''Amulet''\<rparr>) amulet_value"

lemma amulet_length: "length (enc_node ''1'' amulet_node) < 2 ^ 32"
proof -
  have "create_fields (sample_contract\<lparr>cr_template_id := i\<rparr>) v = [(1, WLen (str_bytes ''2.1'')), (2, WLen (str_bytes ''00aF'')), (3, WLen (str_bytes ''p'')),
     (4, WLen (enc_ident i)), (5, WLen (enc_value v)), (6, WLen (str_bytes ''alice'')), (7, WLen (str_bytes ''alice'')),
     (7, WLen (str_bytes ''bob''))]" for i v
    by (simp add: create_fields_def head_fields_def sample_contract_def text_field_def)
  note fields = this
  show ?thesis
    unfolding enc_node_def amulet_node_def node_wire.simps fields amulet_value_def amulet_id_def enc_value_def value_wire.simps list.map prod.case labelled_def
      enc_ident_def text_field_def msg_def option.sel Identifier.simps
    by (simp add: length_field length_varint del: One_nat_def)
qed

lemma amulet_ready: "node_ready node_env node_store seed amulet_node"
  by (simp add: amulet_node_def amulet_value_def amulet_id_def sample_contract_def plain_head_def plain_identifier_def plain_text_def short_text_def
      value_fits_def node_env_def)

text \<open>C9. The holding parser reads exactly what a create writes. For every node the device can hash, whose paths
  are shorter than 64 characters, the values check is told: nothing for a node that is not a create or whose
  template is known to hold no value; an unknown template as such; and for a holding template a holding with
  the digests of the owner, the amount, the issuer and the instrument if each configured path leads to exactly one
  value of its kind, and an unreadable holding otherwise.\<close>

theorem holding_read_exactly:
  assumes "node_ready env h seed n" "length (enc_node node_id n) < 2 ^ 32" "values_still_collecting vals"
    and "\<And>cr v. n = NCreate cr v \<Longrightarrow> vdepth v < k \<and> short_paths (fields_at 0 [] v)"
  shows "values_collect_from_node sha k (enc_node node_id n) vals = collect_node sha n vals"
  using node_collected [OF assms(1,2,4)] assms(3) by simp

theorem holding_read_exactly_witness:
  "values_collect_from_node (\<lambda>m. m) 8 (enc_node ''1'' amulet_node) values_check_reset =
     values_report_holding (str_bytes ''bob'') (str_bytes ''5.0'') (str_bytes ''dso'') None values_check_reset"
proof -
  have "values_collect_from_node (\<lambda>m. m) 8 (enc_node ''1'' amulet_node) values_check_reset = collect_node (\<lambda>m. m) amulet_node values_check_reset"
    by (rule holding_read_exactly [OF amulet_ready amulet_length])
       (auto simp: amulet_node_def amulet_value_def path_join_def values_still_collecting_def values_check_reset_def)
  then show ?thesis
    by (simp add: amulet_node_def amulet_value_def amulet_id_def find_holding_def HOLDING_TEMPLATES_def HPC_def names_match_def read_holding_def
        texts_at_def List.map_filter_def path_join_def)
qed

end
