(* ===== verification/Transaction_Tree.thy ===== *)
theory Transaction_Tree
  imports Node_Stream Node_Safety
begin

text \<open>
  The hash of the nodes of a transaction. The device receives the nodes one at a time and keeps the hashes
  of the last 32 in a ring buffer; the hashing scheme is about a tree. Here an accepted sequence of node
  parts is read as a tree, and the bytes that end up in the transaction hash are those of the tree.
\<close>

section \<open>Trees\<close>

datatype tx_tree = TxNode daml_node "byte list option" "tx_tree list"

fun tree_hash :: "sha256 \<Rightarrow> tx_tree \<Rightarrow> byte list" where
  "tree_hash sha (TxNode n seed ts) = sha (node_preimage (map (tree_hash sha) ts) seed n)"

text \<open>Everything that is hashed for a tree.\<close>

fun tree_preimages :: "sha256 \<Rightarrow> tx_tree \<Rightarrow> byte list list" where
  "tree_preimages sha (TxNode n seed ts) = node_preimage (map (tree_hash sha) ts) seed n # concat (map (tree_preimages sha) ts)"

text \<open>A tree without node ids: at every node what the hash sees of it, and the subtrees in order.\<close>

datatype tx_content = TxContent "daml_node \<times> byte list \<times> byte list option" "tx_content list"

fun tree_content :: "tx_tree \<Rightarrow> tx_content" where
  "tree_content (TxNode n seed ts) = TxContent (node_core seed n) (map tree_content ts)"

fun tree_ok :: "tx_tree \<Rightarrow> bool" where
  "tree_ok (TxNode n seed ts) \<longleftrightarrow> (\<exists>env. node_ok env seed n) \<and> length ts = length (node_child_ids n) \<and> length ts < 2 ^ 32 \<and> list_all tree_ok ts"

definition collide :: "sha256 \<Rightarrow> byte list list \<Rightarrow> byte list list \<Rightarrow> bool" where
  "collide sha ps qs \<longleftrightarrow> (\<exists>p \<in> set ps. \<exists>q \<in> set qs. p \<noteq> q \<and> sha p = sha q)"

lemma collideI: "p \<in> set ps \<Longrightarrow> q \<in> set qs \<Longrightarrow> p \<noteq> q \<Longrightarrow> sha p = sha q \<Longrightarrow> collide sha ps qs"
  by (auto simp: collide_def)

lemma collide_mono: "collide sha ps qs \<Longrightarrow> set ps \<subseteq> set ps' \<Longrightarrow> set qs \<subseteq> set qs' \<Longrightarrow> collide sha ps' qs'"
  unfolding collide_def by blast

lemma length_tree_hash: "(\<And>m. length (sha m) = SHA256_HASH_LEN) \<Longrightarrow> length (tree_hash sha t) = SHA256_HASH_LEN"
  by (cases t) simp

text \<open>The hash of a tree commits to its content.\<close>

lemma tree_hash_commits:
  assumes sha: "\<And>m. length (sha m) = SHA256_HASH_LEN"
    and "tree_ok t" "tree_ok t'" "tree_hash sha t = tree_hash sha t'"
  shows "tree_content t = tree_content t' \<or> collide sha (tree_preimages sha t) (tree_preimages sha t')"
  using assms(2-)
proof (induction t arbitrary: t')
  case (TxNode n seed ts)
  obtain n' seed' ts' where t': "t' = TxNode n' seed' ts'"
    by (cases t')
  let ?p = "node_preimage (map (tree_hash sha) ts) seed n" and ?q = "node_preimage (map (tree_hash sha) ts') seed' n'"
  show ?case
  proof (cases "?p = ?q")
    case True
    obtain env env' where ok: "node_ok env seed n" "node_ok env' seed' n'"
      using TxNode.prems t' by auto
    have "digest_list (map (tree_hash sha) xs)" if "length xs < 2 ^ 32" for xs
      using that length_tree_hash [OF sha] by (simp add: valid_list_def list_all_iff)
    with node_preimage_inject [OF ok _ _ _ _ True] TxNode.prems t'
    have core: "node_core seed n = node_core seed' n'" and hashes: "map (tree_hash sha) ts = map (tree_hash sha) ts'"
      by auto
    have len: "length ts = length ts'"
      using hashes by (rule map_eq_imp_length_eq)
    have child: "tree_content (ts ! i) = tree_content (ts' ! i) \<or> collide sha (tree_preimages sha (ts ! i)) (tree_preimages sha (ts' ! i))"
      if "i < length ts" for i
      using TxNode.IH [of "ts ! i" "ts' ! i"] TxNode.prems(1,2) that len t' arg_cong [OF hashes, of "\<lambda>xs. xs ! i"]
      by (simp add: list_all_length)
    show ?thesis
    proof (cases "\<exists>i < length ts. collide sha (tree_preimages sha (ts ! i)) (tree_preimages sha (ts' ! i))")
      case True
      then show ?thesis
        using len by (auto simp: t' intro!: disjI2 elim!: collide_mono) (metis nth_mem)+
    next
      case False
      then have "map tree_content ts = map tree_content ts'"
        using child len by (auto simp: list_eq_iff_nth_eq)
      with core show ?thesis
        by (simp add: t')
    qed
  next
    case False
    then show ?thesis
      using TxNode.prems(3) by (auto simp: t' intro!: collideI [of ?p _ ?q])
  qed
qed

section \<open>One node part\<close>

text \<open>A call of the device with the environment it runs in, a node id and a node.\<close>

type_synonym node_call = "prepared_env \<times> string \<times> daml_node"

definition tx_env :: "DamlTransaction \<Rightarrow> prepared_env \<Rightarrow> parser_env" where
  "tx_env tx env = \<lparr>pe_sha = px_sha env, pe_tx = tx, pe_mem_ok = px_contracts_mem env, pe_budget = px_budget env\<rparr>"

definition node_seed :: "DamlTransaction \<Rightarrow> string \<Rightarrow> byte list option" where
  "node_seed tx node_id = (case find_seed tx (atoint node_id) of None \<Rightarrow> None | Some seed \<Rightarrow> seed)"

text \<open>What is asked of a part beforehand: a node id of at most three characters, a seed the header does not
  misstate, and a node of the kind the device hashes, in a message of a size it can receive.\<close>

fun call_ok :: "sha256 \<Rightarrow> DamlTransaction \<Rightarrow> node_call \<Rightarrow> bool" where
  "call_ok sha tx (env, node_id, n) \<longleftrightarrow> px_sha env = sha \<and> length node_id \<le> 3 \<and> plain_text node_id \<and>
     find_seed tx (atoint node_id) \<noteq> None \<and> node_plain (tx_env tx env) (node_seed tx node_id) n \<and>
     list_all plain_text (node_child_ids n) \<and> length (enc_node node_id n) < 2 ^ 24"

fun call_part :: "node_call \<Rightarrow> prepared_env \<times> byte list" where
  "call_part (env, node_id, n) = (env, enc_node node_id n)"

text \<open>What the stream parser makes of such a part.\<close>

lemma member_children_wire:
  assumes "node_plain env seed n" "list_all plain_text (node_child_ids n)" "length (msg [node_wire n]) < 2 ^ 32"
  shows "concat (map member_children [node_wire n]) = (case node_claims n of None \<Rightarrow> [] | Some xs \<Rightarrow> [xs])"
proof (cases n)
  case (NExercise e v w)
  have small: "length (msg (exercise_fields e v w)) < 2 ^ 32"
    using length_member [of 3 "msg (exercise_fields e v w)" "[node_wire n]"] assms(3) NExercise by simp
  have wf: "list_all field_wf (exercise_fields e v w)"
    using msg_wf [OF small] node_fields_shape by blast
  have "decode_Exercise (msg (exercise_fields e v w)) Node_Exercise_init_zero = Some e"
    using exercise_decoded [OF _ _ wf, of env seed] assms(1,2) NExercise
    by (simp add: decode_Exercise_def pb_decode_msg [OF wf] node_child_ids_def)
  then show ?thesis
    using NExercise by (simp add: member_children_def)
next
  case (NRollback r)
  have "length (msg (map (text_field 1) (ro_children r))) < 2 ^ 32"
    using length_member [of 4 "msg (map (text_field 1) (ro_children r))" "[node_wire n]"] assms(3) NRollback by simp
  then have "list_all field_wf (map (text_field 1) (ro_children r))"
    by (rule msg_wf) (simp add: list_all_iff text_shape)
  from rollback_decoded [OF _ this] show ?thesis
    using assms(2) NRollback by (simp add: member_children_def node_child_ids_def)
qed (simp_all add: member_children_def)

lemma node_part_enc:
  assumes "plain_text node_id" "node_plain env seed n" "list_all plain_text (node_child_ids n)" "length (enc_node node_id n) < 2 ^ 32"
  shows "node_part (enc_node node_id n) = (atoint node_id, node_child_ids n)"
proof -
  let ?fs = "[text_field 1 node_id, (1000, WLen (msg [node_wire n]))]"
  have wf: "list_all field_wf ?fs"
    using assms(4) unfolding enc_node_def by (rule msg_wf) (simp add: text_shape len_shape)
  have small: "length (msg [node_wire n]) < 2 ^ 32"
    using length_member [of 1000 "msg [node_wire n]" ?fs] assms(4) by (simp add: enc_node_def)
  have "list_all field_wf [node_wire n]"
    by (rule msg_wf [OF small]) (simp add: node_fields_shape)
  then have "field_children (1000, WLen (msg [node_wire n])) = (case node_claims n of None \<Rightarrow> [] | Some xs \<Rightarrow> [xs])"
    using member_children_wire [OF assms(2,3) small] by (simp add: field_children_def msg_def pb_fields_enc del: list.map concat.simps)
  moreover have "field_children (text_field 1 node_id) = []" "field_ids (1000, WLen p) = []" for p
    by (simp_all add: field_children_def field_ids_def text_field_def)
  moreover have "field_ids (text_field 1 node_id) = [atoint node_id]"
    using assms(1) by (simp add: field_ids_def text_field_def pb_callback_payload_def plain_text_def cstr_str_bytes)
  moreover have "part_fields (enc_node node_id n) = ?fs"
    using pb_fields_enc [OF wf] by (simp add: part_fields_def enc_node_def msg_def del: list.map concat.simps)
  ultimately show ?thesis
    by (simp add: node_part_def node_child_ids_def split: option.split)
qed

section \<open>The parts as a tree\<close>

text \<open>The subtrees by node id: a node takes the subtrees of its children as they are when it arrives.\<close>

fun add_node :: "DamlTransaction \<Rightarrow> node_call \<Rightarrow> (int \<rightharpoonup> tx_tree) \<Rightarrow> (int \<rightharpoonup> tx_tree)" where
  "add_node tx (env, node_id, n) m =
     m(atoint node_id \<mapsto> TxNode n (node_seed tx node_id) (map (\<lambda>x. the (m (atoint x))) (node_child_ids n)))"

definition call_id :: "node_call \<Rightarrow> string" where
  "call_id c = fst (snd c)"

text \<open>The ring buffer holds hashes of subtrees.\<close>

definition table_inv :: "sha256 \<Rightarrow> (int \<rightharpoonup> tx_tree) \<Rightarrow> hash_ctx \<Rightarrow> bool" where
  "table_inv sha m h \<longleftrightarrow> digests_stored h \<and>
     (\<forall>i y. (i, y) \<in> set (hashed_nodes_store h) \<longrightarrow> i \<noteq> -1 \<longrightarrow> (\<exists>t. m i = Some t \<and> y = tree_hash sha t)) \<and>
     (\<forall>i t. m i = Some t \<longrightarrow> tree_ok t)"

lemma table_child:
  assumes "table_inv sha m h" "get_node_hash (Some x) h \<noteq> None" "0 \<le> node_id_from_str x"
  shows "\<exists>t. m (atoint x) = Some t \<and> tree_ok t \<and> the (get_node_hash (Some x) h) = tree_hash sha t"
proof -
  obtain y where y: "get_node_hash (Some x) h = Some y"
    using assms(2) by blast
  then have "(atoint x, y) \<in> set (hashed_nodes_store h)"
    using get_node_hash_in_window [of h x y] assms(1) by (simp add: table_inv_def digests_stored_def store_window_def)
  moreover have "atoint x \<noteq> -1"
    using assms(3) by (simp add: node_id_from_str_def split: if_splits)
  ultimately show ?thesis
    using assms(1) y unfolding table_inv_def by fastforce
qed

text \<open>A node with more children than the store has slots cannot find them all.\<close>

lemma found_distinct_bound:
  assumes "store_wf h" "distinct (map node_id_from_str xs)" "\<And>x. x \<in> set xs \<Longrightarrow> 0 \<le> node_id_from_str x"
    and "\<And>x. x \<in> set xs \<Longrightarrow> get_node_hash (Some x) h \<noteq> None"
  shows "length xs \<le> MAX_NODE_CHILDREN"
proof -
  have "set (map node_id_from_str xs) \<subseteq> fst ` set (hashed_nodes_store h)"
    using found_child assms(3,4) by auto
  then have "card (set (map node_id_from_str xs)) \<le> card (fst ` set (hashed_nodes_store h))"
    by (intro card_mono) auto
  also have "\<dots> \<le> length (hashed_nodes_store h)"
    using card_image_le [of "set (hashed_nodes_store h)" fst] card_length [of "hashed_nodes_store h"] by simp
  finally show ?thesis
    using distinct_card [OF assms(2)] assms(1) by (simp add: store_wf_def)
qed

lemma digests_set: "digests_stored h \<Longrightarrow> length y = SHA256_HASH_LEN \<Longrightarrow> digests_stored (set_node_hash i y h)"
  using set_node_hash_wf [of h i y] set_update_subset_insert [of "hashed_nodes_store h" "hashed_nodes_store_count h" "(i, y)"]
  by (auto simp: digests_stored_def list_all_iff set_node_hash_def dest!: subsetD)

lemma table_inv_enter:
  assumes "table_inv sha m h" "fst ` set (hashed_nodes_store h) \<subseteq> insert (-1) D" "i \<notin> D" "tree_ok t" "length (tree_hash sha t) = SHA256_HASH_LEN"
  shows "table_inv sha (m(i \<mapsto> t)) (set_node_hash i (tree_hash sha t) h)" "table_inv sha (m(i \<mapsto> t)) (hw_put p h)"
proof -
  have old: "\<exists>t'. (m(i \<mapsto> t)) j = Some t' \<and> y = tree_hash sha t'" if "(j, y) \<in> set (hashed_nodes_store h)" "j \<noteq> -1" for j y
  proof -
    have "j \<in> D"
      using that assms(2) by force
    then show ?thesis
      using that assms(1,3) by (auto simp: table_inv_def)
  qed
  have trees: "\<forall>j t'. (m(i \<mapsto> t)) j = Some t' \<longrightarrow> tree_ok t'"
    using assms(1,4) by (auto simp: table_inv_def)
  show "table_inv sha (m(i \<mapsto> t)) (hw_put p h)"
    using assms(1) old trees by (simp add: table_inv_def digests_stored_def store_wf_def hw_put_def)
  have "(j, y) = (i, tree_hash sha t) \<or> (j, y) \<in> set (hashed_nodes_store h)"
    if "(j, y) \<in> set (hashed_nodes_store (set_node_hash i (tree_hash sha t) h))" for j y
    using that set_update_subset_insert [of "hashed_nodes_store h" "hashed_nodes_store_count h" "(i, tree_hash sha t)"]
    by (auto simp: set_node_hash_def)
  then have "\<exists>t'. (m(i \<mapsto> t)) j = Some t' \<and> y = tree_hash sha t'"
    if "(j, y) \<in> set (hashed_nodes_store (set_node_hash i (tree_hash sha t) h))" "j \<noteq> -1" for j y
    using that old [of j y] by fastforce
  then show "table_inv sha (m(i \<mapsto> t)) (set_node_hash i (tree_hash sha t) h)"
    using digests_set [OF _ assms(5)] assms(1) trees by (simp add: table_inv_def)
qed

lemma receive_node_tx: "accept_node part s = Some s' \<Longrightarrow> ps_tx s' = ps_tx s"
  by (auto simp: accept_node_def receive_node_def abort_prepared_tx_def Let_def split: prod.splits option.splits if_splits)

lemma call_step:
  assumes "accept_node (call_part c) s = Some s'" "call_ok sha (ps_tx s) c" "tree_err (ps_tree s') = TREE_OK"
    and "stream_inv D (ps_hasher s) (ps_tree s)" "table_inv sha m (ps_hasher s)" and sha: "\<And>m. length (sha m) = SHA256_HASH_LEN"
  defines "i \<equiv> atoint (call_id c)" and "m' \<equiv> add_node (ps_tx s) c m"
  shows "i \<notin> D \<and> stream_inv (insert i D) (ps_hasher s') (ps_tree s') \<and> table_inv sha m' (ps_hasher s') \<and>
    hw (ps_hasher s') = hw (ps_hasher s) @ (if call_id c \<in> set (tx_roots (ps_tx s)) then tree_hash sha (the (m' i)) else [])"
proof -
  obtain e node_id n where c: "c = (e, node_id, n)"
    by (cases c)
  let ?h = "ps_hasher s" and ?env = "parser_env_of e s" and ?buf = "enc_node node_id n" and ?seed = "node_seed (ps_tx s) node_id"
  have env: "tx_env (ps_tx s) e = ?env" "pe_tx ?env = ps_tx s" "pe_sha ?env = sha"
    using assms(2) by (simp_all add: tx_env_def parser_env_of_def c)
  have ok: "length node_id \<le> 3" "plain_text node_id" "find_seed (ps_tx s) i = Some ?seed" "node_plain ?env ?seed n"
    "list_all plain_text (node_child_ids n)" "length ?buf < 2 ^ 24" "length ?buf < 2 ^ 32"
    using assms(2) by (auto simp: c env node_seed_def i_def call_id_def)
  have part: "node_part ?buf = (i, node_child_ids n)"
    using node_part_enc [OF ok(2,4,5,7)] by (simp add: i_def c call_id_def)
  obtain vals where run: "proto_deserialize_node ?env ?buf (?h, ps_tree s, ps_values s) = Some (ps_hasher s', ps_tree s', vals)"
    and err: "err_code (ps_hasher s') = HASH_OK"
    using accept_node_effect [OF assms(1)] by (auto simp: c)
  note step = node_part_step [OF run err assms(3,4)]
  have wf: "tree_wf (ps_tree s)" "seen_ids (ps_tree s) = D" "fst ` set (hashed_nodes_store ?h) \<subseteq> insert (-1) D"
    using assms(4) by (simp_all add: stream_inv_def)
  have "Node_Tree.part_ok (ps_tree s) (i, node_child_ids n)"
    using tree_part_iff [OF wf(1), of "(i, node_child_ids n)"] step assms(3) by (simp add: part)
  then have fresh: "i \<notin> D" and ids: "distinct (map node_id_from_str (node_child_ids n))"
    "\<And>x. x \<in> set (node_child_ids n) \<Longrightarrow> 0 \<le> node_id_from_str x"
    using wf(2) by (auto simp: Node_Tree.part_ok_def claims_ok_def part_children_def in_range_def)
  have found: "\<And>x. x \<in> set (node_child_ids n) \<Longrightarrow> get_node_hash (Some x) ?h \<noteq> None"
    using node_part_effect [OF run err] by (simp add: part)
  have digests: "digests_stored ?h"
    using assms(5) by (simp add: table_inv_def)
  then have few: "length (node_child_ids n) \<le> MAX_NODE_CHILDREN"
    using found_distinct_bound [OF _ ids found] by (simp add: digests_stored_def)
  have known: "children_known ?h (node_child_ids n)"
    using few found ok(5) by (simp add: children_known_def list_all_iff)
  define t where "t = TxNode n ?seed (map (\<lambda>x. the (m (atoint x))) (node_child_ids n))"
  note child = table_child [OF assms(5) found ids(2)]
  have hash: "sha (node_bytes ?h ?seed n) = tree_hash sha t"
    using child by (fastforce simp: t_def node_bytes_preimage child_hashes_def intro!: arg_cong [where f = sha] arg_cong3 [where f = node_preimage])
  have ready: "part_ok ?env ?h node_id ?seed n"
    using ok known by (simp add: part_ok_def node_ready_iff env i_def c call_id_def)
  have "tree_ok (the (m (atoint x)))" if "x \<in> set (node_child_ids n)" for x
    using child [OF that that] by auto
  then have "tree_ok t"
    using part_ok_node(1) [OF ready] few by (auto simp: t_def list_all_iff)
  note enter = table_inv_enter [OF assms(5) wf(3) fresh this length_tree_hash [OF sha]]
  have m': "m' = m(i \<mapsto> t)"
    by (simp add: m'_def c i_def call_id_def t_def)
  have "ps_hasher s' = enter_node_hash ?env node_id (tree_hash sha t) ?h"
    using part_hashed [OF ready, of "ps_tree s" "ps_values s"] run by (simp add: env hash)
  moreover have "i = atoint node_id"
    by (simp add: i_def c call_id_def)
  ultimately have "table_inv sha m' (ps_hasher s') \<and> hw (ps_hasher s') = hw ?h @ (if node_id \<in> set (tx_roots (ps_tx s)) then tree_hash sha (the (m' i)) else [])"
    using enter length_tree_hash [OF sha] by (simp add: enter_node_hash_def env m' hw_put_def [of _ ?h] set_node_hash_def)
  moreover have "stream_inv (insert i D) (ps_hasher s') (ps_tree s')"
    using step [unfolded part fst_conv] by blast
  ultimately show ?thesis
    using fresh by (simp add: c call_id_def)
qed

text \<open>All parts. The subtrees of earlier nodes stay, since no node id comes twice.\<close>

definition root_hashes :: "sha256 \<Rightarrow> DamlTransaction \<Rightarrow> node_call list \<Rightarrow> (int \<rightharpoonup> tx_tree) \<Rightarrow> byte list" where
  "root_hashes sha tx cs m = concat (map (\<lambda>c. if call_id c \<in> set (tx_roots tx) then tree_hash sha (the (m (atoint (call_id c)))) else []) cs)"

lemma add_nodes_old: "i \<notin> (\<lambda>c. atoint (call_id c)) ` set cs \<Longrightarrow> fold (add_node tx) cs m i = m i"
  by (induction cs arbitrary: m) (auto simp: call_id_def)

lemma calls_run:
  assumes "fold_opt accept_node (map call_part cs) s = Some s'" "list_all (call_ok sha (ps_tx s)) cs" "tree_err (ps_tree s') = TREE_OK"
    and "stream_inv D (ps_hasher s) (ps_tree s)" "table_inv sha m (ps_hasher s)" and sha: "\<And>m. length (sha m) = SHA256_HASH_LEN"
  defines "m' \<equiv> fold (add_node (ps_tx s)) cs m"
  shows "table_inv sha m' (ps_hasher s') \<and> hw (ps_hasher s') = hw (ps_hasher s) @ root_hashes sha (ps_tx s) cs m' \<and>
    distinct (map (\<lambda>c. atoint (call_id c)) cs) \<and> (\<lambda>c. atoint (call_id c)) ` set cs \<inter> D = {} \<and> ps_tx s' = ps_tx s"
  using assms(1-5) unfolding m'_def
proof (induction cs arbitrary: s D m)
  case (Cons c cs)
  obtain t where t: "accept_node (call_part c) s = Some t" "fold_opt accept_node (map call_part cs) t = Some s'"
    using Cons.prems(1) by (auto split: option.splits)
  have tx: "ps_tx t = ps_tx s"
    by (rule receive_node_tx [OF t(1)])
  have err: "tree_err (ps_tree t) = TREE_OK"
    by (rule accept_nodes_sticky [OF t(2) Cons.prems(3)])
  have head: "call_ok sha (ps_tx s) c"
    using Cons.prems(2) by simp
  note step = call_step [OF t(1) head err Cons.prems(4,5) sha]
  let ?i = "atoint (call_id c)" and ?m = "fold (add_node (ps_tx s)) (c # cs) m"
  have ih: "table_inv sha ?m (ps_hasher s')" "hw (ps_hasher s') = hw (ps_hasher t) @ root_hashes sha (ps_tx s) cs ?m"
    "distinct (map (\<lambda>c. atoint (call_id c)) cs)" "(\<lambda>c. atoint (call_id c)) ` set cs \<inter> insert ?i D = {}" "ps_tx s' = ps_tx s"
    using Cons.IH [OF t(2) _ Cons.prems(3), of "insert ?i D" "add_node (ps_tx s) c m"] step Cons.prems(2) tx by auto
  have "?m ?i = add_node (ps_tx s) c m ?i"
    using add_nodes_old [of ?i cs] ih(4) by auto
  then show ?case
    using step ih by (auto simp: root_hashes_def)
qed (simp add: root_hashes_def)

end
