(* ===== verification/Transaction_Hash.thy ===== *)
theory Transaction_Hash
  imports Transaction_Tree
begin

text \<open>
  The hash that is signed for a prepared transaction, end to end. A session is a header, node parts, a
  metadata part and disclosed contracts; when the device accepts all of it and the node tree is in order,
  \<^verbatim>\<open>m_hash\<close> is the hash the hashing scheme defines for the tree, the metadata and the contracts, and
  it commits to them.
\<close>

section \<open>Sessions\<close>

type_synonym contract_call = "prepared_env \<times> Node_Create \<times> daml_value \<times> u64"

record tx_session =
  se_header :: "prepared_env \<times> byte list"
  se_nodes :: "node_call list"
  se_metadata :: "prepared_env \<times> byte list"
  se_contracts :: "contract_call list"

fun contract_part :: "contract_call \<Rightarrow> prepared_env \<times> byte list" where
  "contract_part (env, cr, v, created_at) = (env, enc_disclosed cr v created_at)"

definition session_parts :: "tx_session \<Rightarrow> (prepared_env \<times> byte list) list" where
  "session_parts se = se_header se # map call_part (se_nodes se) @ se_metadata se # map contract_part (se_contracts se)"

text \<open>The parts in a row, all accepted. The dispatcher marks the last part, as \<^verbatim>\<open>STATE_PARSED\<close>.\<close>

fun accept_parts :: "(prepared_env \<times> byte list) list \<Rightarrow> prepared_state \<Rightarrow> prepared_state option" where
  "accept_parts [] s = Some s"
| "accept_parts (part # parts) s =
     (case process_prepared_tx_part (fst part) (parts = []) (snd part) s of
        (r, s') \<Rightarrow> if r = 0 then accept_parts parts s' else None)"

definition session_tx :: "tx_session \<Rightarrow> DamlTransaction" where
  "session_tx se = the (proto_deserialize_daml_tx (snd (se_header se)))"

definition session_md :: "tx_session \<Rightarrow> Metadata" where
  "session_md se = the (proto_deserialize_metadata (snd (se_metadata se)))"

fun contract_ok :: "sha256 \<Rightarrow> DamlTransaction \<Rightarrow> contract_call \<Rightarrow> bool" where
  "contract_ok sha tx (env, cr, v, created_at) \<longleftrightarrow> px_sha env = sha \<and>
     node_plain (tx_env tx env) None (NCreate cr v) \<and> length (enc_disclosed cr v created_at) < 2 ^ 24"

definition valid_metadata :: "Metadata \<Rightarrow> bool" where
  "valid_metadata m \<longleftrightarrow> valid_list valid_name (si_act_as (md_submitter_info m)) \<and> valid_cstring (si_command_id (md_submitter_info m)) \<and>
     valid_cstring (md_transaction_uuid m) \<and> valid_cstring (md_synchronizer_id m)"

text \<open>A session sends as many nodes and contracts as it announces, one of the nodes under the id the header
  gives the root, and nodes and contracts of the kind the device hashes.\<close>

definition session_ok :: "sha256 \<Rightarrow> tx_session \<Rightarrow> bool" where
  "session_ok sha se \<longleftrightarrow>
     proto_deserialize_daml_tx (snd (se_header se)) \<noteq> None \<and> proto_deserialize_metadata (snd (se_metadata se)) \<noteq> None \<and>
     px_sha (fst (se_metadata se)) = sha \<and> valid_cstring (tx_version (session_tx se)) \<and> valid_metadata (session_md se) \<and>
     tx_nodes_count (session_tx se) = int (length (se_nodes se)) \<and>
     md_input_contracts_count (session_md se) = int (length (se_contracts se)) \<and>
     list_all (call_ok sha (session_tx se)) (se_nodes se) \<and> list_all (contract_ok sha (session_tx se)) (se_contracts se) \<and>
     list_ex (\<lambda>c. call_id c = hd (tx_roots (session_tx se))) (se_nodes se)"

section \<open>The hash of a session\<close>

definition session_tree :: "tx_session \<Rightarrow> tx_tree" where
  "session_tree se = the (fold (add_node (session_tx se)) (se_nodes se) Map.empty (atoint (hd (tx_roots (session_tx se)))))"

definition tx_preimage :: "sha256 \<Rightarrow> tx_session \<Rightarrow> byte list" where
  "tx_preimage sha se = PREPARED_TRANSACTION_HASH_PURPOSE @ enc_str (the (tx_version (session_tx se))) @ u32_be 1 @ tree_hash sha (session_tree se)"

definition enc_metadata :: "Metadata \<Rightarrow> byte list" where
  "enc_metadata m = [0x01] @ enc_list enc_str (si_act_as (md_submitter_info m)) @ enc_str (the (si_command_id (md_submitter_info m))) @
     enc_str (the (md_transaction_uuid m)) @ u32_be (md_mediator_group m) @ enc_str (the (md_synchronizer_id m)) @
     enc_opt u64_be (md_min_ledger_effective_time m) @ enc_opt u64_be (md_max_ledger_effective_time m) @
     u64_be (md_preparation_time m) @ u32_be (word_of_int (md_input_contracts_count m))"

fun contract_preimage :: "contract_call \<Rightarrow> byte list" where
  "contract_preimage (env, cr, v, created_at) = node_preimage [] None (NCreate cr v)"

definition enc_contract :: "sha256 \<Rightarrow> contract_call \<Rightarrow> byte list" where
  "enc_contract sha c = u64_be (snd (snd (snd c))) @ sha (contract_preimage c)"

definition md_preimage :: "sha256 \<Rightarrow> tx_session \<Rightarrow> byte list" where
  "md_preimage sha se = PREPARED_TRANSACTION_HASH_PURPOSE @ enc_metadata (session_md se) @ concat (map (enc_contract sha) (se_contracts se))"

definition session_preimage :: "sha256 \<Rightarrow> tx_session \<Rightarrow> byte list" where
  "session_preimage sha se =
     PREPARED_TRANSACTION_HASH_PURPOSE @ [HASHING_SCHEME_VERSION] @ sha (tx_preimage sha se) @ sha (md_preimage sha se)"

lemma encode_metadata_eq:
  assumes "valid_metadata m"
  shows "encode_metadata m h = hw_put (enc_metadata m) h"
proof -
  obtain a b c where "si_command_id (md_submitter_info m) = Some a" "md_transaction_uuid m = Some b" "md_synchronizer_id m = Some c"
    using assms by (auto simp: valid_metadata_def valid_cstring_def require_present_def)
  then show ?thesis
    by (cases "md_min_ledger_effective_time m"; cases "md_max_ledger_effective_time m")
       (simp_all add: encode_metadata_def Let_def enc_metadata_def wrap_encode_string_def encode_optional_def encode_int32_def encode_int64_def
         hw_put_u32_be_def hw_put_u64_be_def hw_put_byte_def enc_opt_def encode_repeated_eq [of _ enc_str] fun_eq_iff)
qed

section \<open>The phases of a run\<close>

lemma finalize_hashes:
  assumes "process_prepared_tx_finalize env p s = (0, s')"
  shows "ps_m_hash s' = finalize_hash (px_sha env) (ps_partial_tx_hash s) (finalize_hash_metadata (px_sha env) (ps_hasher s)) \<and> ps_tree s' = ps_tree s"
  using assms by (auto simp: process_prepared_tx_finalize_def abort_prepared_tx_def Let_def split: if_splits prod.splits)

lemma node_accepted:
  assumes "receive_node env buf s = (0, s')"
  shows "ps_tx s' = ps_tx s \<and> ps_recv_node_idx s' = ps_recv_node_idx s + 1 \<and>
    ps_tx_state s' = (if ps_recv_node_idx s + 1 = tx_nodes_count (ps_tx s) then RECEIVING_METADATA else ps_tx_state s)"
  using assms by (auto simp: receive_node_def abort_prepared_tx_def Let_def split: option.splits prod.splits if_splits)


text \<open>The nodes: as many as announced, then the metadata is next.\<close>

lemma accept_nodes_phase:
  assumes "accept_parts (map call_part cs @ p # ps) s = Some s'" "ps_tx_state s = RECEIVING_DAML_NODES" "cs \<noteq> []"
    and "ps_recv_node_idx s + int (length cs) = tx_nodes_count (ps_tx s)"
  shows "\<exists>t. fold_opt accept_node (map call_part cs) s = Some t \<and> accept_parts (p # ps) t = Some s' \<and> ps_tx_state t = RECEIVING_METADATA"
  using assms
proof (induction cs arbitrary: s)
  case (Cons c cs)
  obtain t where t: "receive_node (fst (call_part c)) (snd (call_part c)) s = (0, t)" "accept_parts (map call_part cs @ p # ps) t = Some s'"
    using Cons.prems(1,2) by (auto simp: process_prepared_tx_part_def simp del: accept_parts.simps(2) simp: accept_parts.simps(2) [of "call_part c"]
        split: prod.splits if_splits)
  note next_state = node_accepted [OF t(1)]
  have first: "accept_node (call_part c) s = Some t"
    using t(1) by (simp add: accept_node_def)
  show ?case
  proof (cases "cs = []")
    case True
    then show ?thesis
      using t(2) next_state first Cons.prems(4) by simp
  next
    case False
    then show ?thesis
      using Cons.IH [OF t(2)] next_state first Cons.prems(2,4) by (cases cs) auto
  qed
qed simp

lemma metadata_accepted:
  assumes "receive_metadata env p buf s = (0, s')" "proto_deserialize_metadata buf = Some md" "valid_metadata md"
  defines "h \<equiv> hw_put (PREPARED_TRANSACTION_HASH_PURPOSE @ enc_metadata md) (hw_init (ps_hasher s))"
    and "tx_hash \<equiv> px_sha env (hw (ps_hasher s))"
  shows "(tree_err (ps_tree s') = TREE_OK \<longrightarrow> tree_err (ps_tree s) = TREE_OK) \<and>
    (if md_input_contracts_count md = 0 then ps_m_hash s' = finalize_hash (px_sha env) tx_hash (px_sha env (hw h))
     else ps_hasher s' = h \<and> ps_partial_tx_hash s' = tx_hash \<and> ps_tx_state s' = RECEIVING_METADATA_INPUT_CONTRACTS \<and>
       ps_recv_node_idx s' = 0 \<and> ps_metadata s' = md \<and> ps_tx s' = ps_tx s)"
proof -
  obtain s1 where s1: "apply_node_tree_verdict s = (0, s1)"
    using assms(1) by (auto simp: receive_metadata_def abort_prepared_tx_def split: prod.splits if_splits)
  have verdict: "ps_hasher s1 = ps_hasher s \<and> ps_tx s1 = ps_tx s \<and> tree_err (ps_tree s1) = tree_err (tree_sweep (nodes (ps_tree s)) (ps_tree s))"
    using s1 by (auto simp: apply_node_tree_verdict_def tree_verify_complete_def abort_prepared_tx_def Let_def split: if_splits)
  have h: "hash_metadata md (ps_hasher s1) = h"
    using verdict encode_metadata_eq [OF assms(3)] by (simp add: hash_metadata_def h_def)
  have run: "receive_metadata env p buf s = (if get_hash_error h \<noteq> HASH_OK then
      abort_prepared_tx SW_TX_HASH_FAIL (s1\<lparr>ps_partial_tx_hash := tx_hash, ps_metadata := md, ps_hasher := h\<rparr>)
      else if md_input_contracts_count md = 0
      then process_prepared_tx_finalize env p (s1\<lparr>ps_partial_tx_hash := tx_hash, ps_metadata := md, ps_hasher := h, ps_recv_node_idx := 0\<rparr>)
      else (0, s1\<lparr>ps_partial_tx_hash := tx_hash, ps_metadata := md, ps_hasher := h, ps_recv_node_idx := 0,
        ps_tx_state := RECEIVING_METADATA_INPUT_CONTRACTS\<rparr>))"
    using verdict by (simp add: receive_metadata_def s1 assms(2) h [symmetric] Let_def finalize_hash_transaction_def hw_finalize_def tx_hash_def)
  have "tree_err (ps_tree s') = TREE_OK \<Longrightarrow> tree_err (tree_sweep (nodes (ps_tree s)) (ps_tree s)) = TREE_OK"
    using assms(1) verdict finalize_hashes [of env p _ s'] unfolding run
    by (auto simp: abort_prepared_tx_def split: if_splits)
  then have "tree_err (ps_tree s') = TREE_OK \<Longrightarrow> tree_err (ps_tree s) = TREE_OK"
    using tree_sweep_sticky by metis
  then show ?thesis
    using assms(1) verdict finalize_hashes [of env p _ s'] unfolding run
    by (auto simp: abort_prepared_tx_def finalize_hash_metadata_def hw_finalize_def split: if_splits)
qed


lemma contract_accepted:
  assumes "receive_input_contract env p buf s = (0, s')"
    and "proto_deserialize_input_contract (parser_env_of env s) buf (ps_hasher s, ps_tree s, ps_values s) = Some (h, ps_tree s, vals)"
  shows "tree_err (ps_tree s') = tree_err (ps_tree s) \<and>
    (if ps_recv_node_idx s + 1 = md_input_contracts_count (ps_metadata s)
     then ps_m_hash s' = finalize_hash (px_sha env) (ps_partial_tx_hash s) (finalize_hash_metadata (px_sha env) h)
     else ps_hasher s' = h \<and> ps_partial_tx_hash s' = ps_partial_tx_hash s \<and> ps_metadata s' = ps_metadata s \<and> ps_tx s' = ps_tx s \<and>
       ps_tx_state s' = ps_tx_state s \<and> ps_recv_node_idx s' = ps_recv_node_idx s + 1)"
  using assms
  by (auto simp: receive_input_contract_def abort_prepared_tx_def Let_def split: prod.splits if_splits dest!: finalize_hashes)

lemma contract_hashed:
  assumes "contract_ok sha (ps_tx s) c" "\<And>m. length (sha m) = SHA256_HASH_LEN"
  shows "\<exists>vals. proto_deserialize_input_contract (parser_env_of (fst (contract_part c)) s) (snd (contract_part c))
      (ps_hasher s, ps_tree s, ps_values s) = Some (hw_put (enc_contract sha c) (ps_hasher s), ps_tree s, vals)"
proof -
  obtain env cr v created_at where c: "c = (env, cr, v, created_at)"
    by (cases c)
  have env: "parser_env_of env s = tx_env (ps_tx s) env" "pe_sha (tx_env (ps_tx s) env) = sha"
    using assms(1) by (simp_all add: parser_env_of_def tx_env_def c)
  have "node_ready (parser_env_of env s) (ps_hasher s) None (NCreate cr v)" "length (enc_disclosed cr v created_at) < 2 ^ 32"
    using assms(1) by (auto simp: c env)
  note disclosed_part [OF this, of "ps_tree s" "ps_values s"]
  moreover have "node_bytes (ps_hasher s) None (NCreate cr v) = node_preimage [] None (NCreate cr v)"
    by simp
  ultimately show ?thesis
    using assms(2) by (simp add: c env encode_int64_def hw_put_u64_be_def enc_contract_def)
qed

lemma accept_contracts_phase:
  assumes "accept_parts (map contract_part cs) s = Some s'" "ps_tx_state s = RECEIVING_METADATA_INPUT_CONTRACTS" "cs \<noteq> []"
    and "ps_recv_node_idx s + int (length cs) = md_input_contracts_count (ps_metadata s)" "list_all (contract_ok sha (ps_tx s)) cs"
    and sha: "\<And>m. length (sha m) = SHA256_HASH_LEN"
  shows "tree_err (ps_tree s') = tree_err (ps_tree s) \<and>
    ps_m_hash s' = finalize_hash sha (ps_partial_tx_hash s) (sha (hw (ps_hasher s) @ concat (map (enc_contract sha) cs)))"
  using assms(1-5)
proof (induction cs arbitrary: s)
  case (Cons c cs)
  obtain t where t: "receive_input_contract (fst (contract_part c)) (cs = []) (snd (contract_part c)) s = (0, t)"
    "accept_parts (map contract_part cs) t = Some s'"
    using Cons.prems(1,2) by (auto simp: process_prepared_tx_part_def split: prod.splits if_splits)
  obtain vals where "proto_deserialize_input_contract (parser_env_of (fst (contract_part c)) s) (snd (contract_part c))
      (ps_hasher s, ps_tree s, ps_values s) = Some (hw_put (enc_contract sha c) (ps_hasher s), ps_tree s, vals)"
    using contract_hashed [of sha s c] Cons.prems(5) sha by auto
  note next_state = contract_accepted [OF t(1) this]
  have env: "px_sha (fst (contract_part c)) = sha"
    using Cons.prems(5) by (cases c) simp
  show ?case
  proof (cases "cs = []")
    case True
    then show ?thesis
      using t(2) next_state Cons.prems(4) by (simp add: env finalize_hash_metadata_def hw_finalize_def hw_put_def)
  next
    case False
    then show ?thesis
      using Cons.IH [OF t(2)] next_state Cons.prems(2,4,5) by (cases cs) (auto simp: hw_put_def)
  qed
qed simp


section \<open>The whole run\<close>

lemma header_accepted:
  assumes "receive_daml_tx env buf s = (0, s')" "proto_deserialize_daml_tx buf = Some tx" "valid_cstring (tx_version tx)"
    and "tree_err (ps_tree s') = TREE_OK" "hashed_nodes_store_count (ps_hasher s) < MAX_NODE_CHILDREN"
  shows "ps_tx s' = tx \<and> hw (ps_hasher s') = PREPARED_TRANSACTION_HASH_PURPOSE @ enc_str (the (tx_version tx)) @ u32_be 1 \<and>
    table_inv sha Map.empty (ps_hasher s') \<and> stream_inv {} (ps_hasher s') (ps_tree s') \<and> (\<exists>r. tx_roots tx = [r]) \<and>
    ps_recv_node_idx s' = 0 \<and> (tx_nodes_count tx \<noteq> 0 \<longrightarrow> ps_tx_state s' = RECEIVING_DAML_NODES)"
proof -
  note start = header_starts_stream [OF assms(1,4)]
  obtain version where version: "tx_version tx = Some version"
    using assms(3) by (auto simp: valid_cstring_def require_present_def)
  have s': "ps_tx s' = tx" "ps_hasher s' = hash_transaction tx (ps_hasher s)" "ps_recv_node_idx s' = 0"
    "tx_nodes_count tx \<noteq> 0 \<longrightarrow> ps_tx_state s' = RECEIVING_DAML_NODES"
    using assms(1,2) by (auto simp: receive_daml_tx_def abort_prepared_tx_def Let_def split: if_splits)
  then obtain r where r: "tx_roots tx = [r]"
    using start by (cases "tx_roots tx") (auto simp: tree_check_init_def Let_def split: if_splits)
  have "hash_transaction tx (ps_hasher s) = hw_put (PREPARED_TRANSACTION_HASH_PURPOSE @ enc_str version @ u32_be 1)
      (hw_init (init_node_hash_store (clear_hash_error (ps_hasher s))))"
    using encode_int32_len [of 1] by (simp add: hash_transaction_def Let_def version r)
  then have "hw (ps_hasher s') = PREPARED_TRANSACTION_HASH_PURPOSE @ enc_str version @ u32_be 1 \<and> table_inv sha Map.empty (ps_hasher s')"
    using assms(5) by (simp add: s'(2) hw_put_def hw_init_def init_node_hash_store_def clear_hash_error_def table_inv_def digests_stored_def store_wf_def list_all_iff)
  then show ?thesis
    using s' r start version by simp
qed

lemma root_hashes_once:
  assumes "distinct (map (\<lambda>c. atoint (call_id c)) cs)" "tx_roots tx = [r]" "list_ex (\<lambda>c. call_id c = r) cs"
  shows "root_hashes sha tx cs m = tree_hash sha (the (m (atoint r)))"
proof -
  have none: "root_hashes sha tx ds m = []" if "r \<notin> call_id ` set ds" for ds
    using that assms(2) by (auto simp: root_hashes_def)
  show ?thesis
    using assms(1,3)
  proof (induction cs)
    case (Cons c cs)
    show ?case
    proof (cases "call_id c = r")
      case True
      then have "r \<notin> call_id ` set cs"
        using Cons.prems(1) by force
      with none [of cs] True assms(2) show ?thesis
        by (simp add: root_hashes_def)
    next
      case False
      with Cons assms(2) show ?thesis
        by (simp add: root_hashes_def)
    qed
  qed simp
qed

lemma add_nodes_dom: "dom (fold (add_node tx) cs m) = dom m \<union> (\<lambda>c. atoint (call_id c)) ` set cs"
  by (induction cs arbitrary: m) (auto simp: call_id_def)

lemma fold_keeps_tx: "fold_opt accept_node parts s = Some s' \<Longrightarrow> ps_tx s' = ps_tx s"
  by (induction parts arbitrary: s) (auto split: option.splits dest: receive_node_tx)

text \<open>What an accepted run of a session leaves behind; the tree it is about is one the device can hash.\<close>

lemma session_run:
  assumes ok: "session_ok sha se" and run: "accept_parts (session_parts se) s0 = Some s" "ps_tx_state s0 = RECEIVING_DAML_TX_PART"
    and tree: "tree_err (ps_tree s) = TREE_OK" and sha: "\<And>m. length (sha m) = SHA256_HASH_LEN"
    and count: "hashed_nodes_store_count (ps_hasher s0) < MAX_NODE_CHILDREN"
  shows "ps_m_hash s = sha (session_preimage sha se) \<and> tree_ok (session_tree se)"
proof -
  let ?tx = "session_tx se" and ?md = "session_md se" and ?mdp = "se_metadata se" and ?cs = "map contract_part (se_contracts se)"
  have tx: "proto_deserialize_daml_tx (snd (se_header se)) = Some ?tx" "proto_deserialize_metadata (snd ?mdp) = Some ?md"
    "valid_cstring (tx_version ?tx)" "valid_metadata ?md"
    using ok by (auto simp: session_ok_def session_tx_def session_md_def)
  have nodes: "se_nodes se \<noteq> []"
    using ok by (auto simp: session_ok_def)
  obtain s1 where s1: "receive_daml_tx (fst (se_header se)) (snd (se_header se)) s0 = (0, s1)"
    and rest: "accept_parts (map call_part (se_nodes se) @ ?mdp # ?cs) s1 = Some s"
    using run by (auto simp: session_parts_def process_prepared_tx_part_def split: prod.splits if_splits)
  have state1: "ps_tx s1 = ?tx" "ps_recv_node_idx s1 = 0" "ps_tx_state s1 = RECEIVING_DAML_NODES"
    using s1 tx(1) ok nodes by (auto simp: receive_daml_tx_def abort_prepared_tx_def Let_def session_ok_def split: if_splits)
  obtain s2 where s2: "fold_opt accept_node (map call_part (se_nodes se)) s1 = Some s2" "accept_parts (?mdp # ?cs) s2 = Some s"
    "ps_tx_state s2 = RECEIVING_METADATA"
    using accept_nodes_phase [OF rest state1(3) nodes] ok state1(1,2) by (auto simp: session_ok_def)
  obtain s3 where s3: "receive_metadata (fst ?mdp) (?cs = []) (snd ?mdp) s2 = (0, s3)" "accept_parts ?cs s3 = Some s"
    using s2(2,3) by (auto simp: process_prepared_tx_part_def split: prod.splits if_splits)
  note metadata = metadata_accepted [OF s3(1) tx(2,4)]
  have env: "px_sha (fst ?mdp) = sha"
    using ok by (simp add: session_ok_def)
  have calls: "list_all (call_ok sha ?tx) (se_nodes se)" "list_all (contract_ok sha ?tx) (se_contracts se)"
    "list_ex (\<lambda>c. call_id c = hd (tx_roots ?tx)) (se_nodes se)" "md_input_contracts_count ?md = int (length (se_contracts se))"
    using ok by (simp_all add: session_ok_def)
  note contracts = accept_contracts_phase [OF s3(2), of sha]
  have tx2: "ps_tx s2 = ?tx"
    using s2(1) state1(1) by (rule fold_keeps_tx [THEN trans])
  have tree3: "tree_err (ps_tree s3) = TREE_OK"
    using tree contracts sha metadata calls(2,4) s3(2) tx2 by (cases "se_contracts se = []") auto
  then have tree2: "tree_err (ps_tree s2) = TREE_OK"
    using metadata by blast
  note header = header_accepted [OF s1 tx(1,3) accept_nodes_sticky [OF s2(1) tree2] count, of sha]
  obtain r where r: "tx_roots ?tx = [r]"
    using header by blast
  let ?m = "fold (add_node ?tx) (se_nodes se) Map.empty"
  have nodes_run: "table_inv sha ?m (ps_hasher s2)" "hw (ps_hasher s2) = hw (ps_hasher s1) @ root_hashes sha ?tx (se_nodes se) ?m"
    "distinct (map (\<lambda>c. atoint (call_id c)) (se_nodes se))"
    using calls_run [OF s2(1) _ tree2 _ _ sha, where D = "{}" and m = Map.empty] header calls(1) by auto
  have "hw (ps_hasher s2) = tx_preimage sha se"
    using nodes_run(2) header root_hashes_once [OF nodes_run(3) r] calls(3) r by (simp add: tx_preimage_def session_tree_def)
  moreover have "ps_m_hash s = finalize_hash sha (sha (hw (ps_hasher s2))) (sha (md_preimage sha se))"
    using contracts sha metadata calls(2,4) s3(2) tx2 env by (cases "se_contracts se = []") (auto simp: md_preimage_def hw_put_def hw_init_def)
  moreover have "tree_ok (session_tree se)"
  proof -
    have "atoint r \<in> dom ?m"
      using calls(3) r by (auto simp: add_nodes_dom list_ex_iff)
    then show ?thesis
      using nodes_run(1) r by (auto simp: table_inv_def session_tree_def)
  qed
  ultimately show ?thesis
    by (simp add: finalize_hash_def session_preimage_def)
qed


section \<open>The hash commits to the session\<close>

text \<open>What two sessions share when they have the same hash: the version, the tree without node ids, the
  metadata and the contracts with their creation times.\<close>

fun contract_content :: "contract_call \<Rightarrow> u64 \<times> daml_node \<times> byte list \<times> byte list option" where
  "contract_content (env, cr, v, created_at) = (created_at, node_core None (NCreate cr v))"

definition session_content ::
  "tx_session \<Rightarrow> cstring \<times> tx_content \<times> Metadata \<times> (u64 \<times> daml_node \<times> byte list \<times> byte list option) list" where
  "session_content se =
     (tx_version (session_tx se), tree_content (session_tree se), session_md se, map contract_content (se_contracts se))"

text \<open>Everything that is hashed for a session.\<close>

definition session_preimages :: "sha256 \<Rightarrow> tx_session \<Rightarrow> byte list list" where
  "session_preimages sha se = [session_preimage sha se, tx_preimage sha se, md_preimage sha se] @
     tree_preimages sha (session_tree se) @ map contract_preimage (se_contracts se)"

interpretation u64_code: prefix_code "\<lambda>v. True" u64_be
  by unfold_locales (simp add: append_eq_append_conv)

lemma valid_opt_u64: "valid_opt (\<lambda>v. True) x"
  by (simp add: valid_opt_def split: option.split)

lemma enc_metadata_inject:
  assumes m: "valid_metadata m" and n: "valid_metadata n" and eq: "enc_metadata m @ xs = enc_metadata n @ ys"
  shows "m\<lparr>md_input_contracts_count := 0\<rparr> = n\<lparr>md_input_contracts_count := 0\<rparr> \<and> xs = ys"
proof -
  note vm = m [unfolded valid_metadata_def] and vn = n [unfolded valid_metadata_def]
  note e0 = eq [unfolded enc_metadata_def append_assoc append_Cons append_Nil list.inject, THEN conjunct2]
  note e1 = names_code.prefix_free [OF vm [THEN conjunct1] vn [THEN conjunct1] e0]
  note vm = vm [THEN conjunct2] and vn = vn [THEN conjunct2]
  note e2 = cstring_prefix_free [OF vm [THEN conjunct1] vn [THEN conjunct1] e1 [THEN conjunct2]]
  note vm = vm [THEN conjunct2] and vn = vn [THEN conjunct2]
  note e3 = cstring_prefix_free [OF vm [THEN conjunct1] vn [THEN conjunct1] e2 [THEN conjunct2]]
  note e4 = e3 [THEN conjunct2, unfolded u32_be_append_inject]
  note e5 = cstring_prefix_free [OF vm [THEN conjunct2] vn [THEN conjunct2] e4 [THEN conjunct2]]
  note e6 = u64_code.opt_prefix_free [OF valid_opt_u64 valid_opt_u64 e5 [THEN conjunct2]]
  note e7 = u64_code.opt_prefix_free [OF valid_opt_u64 valid_opt_u64 e6 [THEN conjunct2]]
  note e8 = u64_code.prefix_free [OF TrueI TrueI e7 [THEN conjunct2]]
  show ?thesis
    using e1 e2 e3 e4 e5 e6 e7 e8 by (simp add: Metadata.equality SubmitterInfo.equality)
qed

lemma contract_commits:
  assumes "contract_ok sha tx c" "contract_ok sha tx' d" "enc_contract sha c = enc_contract sha d"
  shows "contract_content c = contract_content d \<or> collide sha [contract_preimage c] [contract_preimage d]"
proof -
  obtain e cr v s e' dr w t where c: "c = (e, cr, v, s)" "d = (e', dr, w, t)"
    by (cases c; cases d)
  have sent: "node_ok (tx_env tx e) None (NCreate cr v)" if "contract_ok sha tx (e, cr, v, s)" for tx e cr v s
  proof -
    have "length (msg [(1, WLen (msg (create_fields cr v)))]) \<le> length (enc_disclosed cr v s)"
      by (simp add: enc_disclosed_def msg_def)
    with that show ?thesis
      by (simp add: node_ok_def)
  qed
  have "digest_list []"
    by (simp add: valid_list_def)
  note inject = node_preimage_inject [OF sent sent this this, of tx e cr v s tx' e' dr w t]
  show ?thesis
  proof (cases "contract_preimage c = contract_preimage d")
    case True
    with inject assms c show ?thesis
      by (simp add: node_child_ids_def enc_contract_def append_eq_append_conv)
  next
    case False
    with assms(3) show ?thesis
      by (simp add: c collide_def enc_contract_def append_eq_append_conv)
  qed
qed

lemma contracts_commit:
  assumes "list_all (contract_ok sha tx) cs" "list_all (contract_ok sha tx') ds" "\<And>m. length (sha m) = SHA256_HASH_LEN"
    and "concat (map (enc_contract sha) cs) = concat (map (enc_contract sha) ds)"
  shows "map contract_content cs = map contract_content ds \<or> collide sha (map contract_preimage cs) (map contract_preimage ds)"
  using assms(1,2,4)
proof (induction cs arbitrary: ds)
  case Nil
  then show ?case
    by (cases ds) (auto simp: enc_contract_def u64_be_def)
next
  case (Cons c cs)
  have len: "length (enc_contract sha x) = 40" and "enc_contract sha x \<noteq> []" for x
    by (simp_all add: enc_contract_def u64_be_def assms(3))
  then obtain d ds' where ds: "ds = d # ds'"
    using Cons.prems(3) by (cases ds) auto
  then have "enc_contract sha c = enc_contract sha d" "concat (map (enc_contract sha) cs) = concat (map (enc_contract sha) ds')"
    using Cons.prems(3) by (simp_all add: append_eq_append_conv len)
  with Cons ds contract_commits [of sha tx c tx' d] show ?case
    by (auto simp: collide_def)
qed


lemma session_hash_commits:
  assumes ok: "session_ok sha se" "session_ok sha se'" "tree_ok (session_tree se)" "tree_ok (session_tree se')"
    and sha: "\<And>m. length (sha m) = SHA256_HASH_LEN" and eq: "sha (session_preimage sha se) = sha (session_preimage sha se')"
  shows "session_content se = session_content se' \<or> collide sha (session_preimages sha se) (session_preimages sha se')"
proof -
  let ?ps = "session_preimages sha se" and ?qs = "session_preimages sha se'"
  have collision: "collide sha ?ps ?qs" if "p \<noteq> q" "sha p = sha q" "p \<in> set ?ps" "q \<in> set ?qs" for p q
    using that by (intro collideI)
  have wider: "collide sha ?ps ?qs" if "collide sha ps qs" "set ps \<subseteq> set ?ps" "set qs \<subseteq> set ?qs" for ps qs
    using that by (rule collide_mono)
  have parts: "tx_preimage sha se = tx_preimage sha se' \<and> md_preimage sha se = md_preimage sha se'" if "\<not> collide sha ?ps ?qs"
  proof -
    have "session_preimage sha se = session_preimage sha se'"
      using collision that eq by (auto simp: session_preimages_def)
    then have "sha (tx_preimage sha se) = sha (tx_preimage sha se')" "sha (md_preimage sha se) = sha (md_preimage sha se')"
      using sha by (simp_all add: session_preimage_def append_eq_append_conv)
    then show ?thesis
      using collision that by (auto simp: session_preimages_def)
  qed
  have version: "valid_cstring (tx_version (session_tx se))" "valid_cstring (tx_version (session_tx se'))"
    and md: "valid_metadata (session_md se)" "valid_metadata (session_md se')"
    and contracts: "list_all (contract_ok sha (session_tx se)) (se_contracts se)" "list_all (contract_ok sha (session_tx se')) (se_contracts se')"
      "md_input_contracts_count (session_md se) = int (length (se_contracts se))"
      "md_input_contracts_count (session_md se') = int (length (se_contracts se'))"
    using ok(1,2) by (simp_all add: session_ok_def)
  show ?thesis
  proof (cases "collide sha ?ps ?qs")
    case False
    note same = parts [OF False]
    have tx: "tx_version (session_tx se) = tx_version (session_tx se')" "tree_hash sha (session_tree se) = tree_hash sha (session_tree se')"
      using cstring_prefix_free [OF version, of "u32_be 1 @ tree_hash sha (session_tree se)"] same by (auto simp: tx_preimage_def)
    have "tree_content (session_tree se) = tree_content (session_tree se')"
      using tree_hash_commits [OF sha ok(3,4) tx(2)] wider False by (fastforce simp: session_preimages_def)
    moreover have mds: "(session_md se)\<lparr>md_input_contracts_count := 0\<rparr> = (session_md se')\<lparr>md_input_contracts_count := 0\<rparr>"
      "concat (map (enc_contract sha) (se_contracts se)) = concat (map (enc_contract sha) (se_contracts se'))"
      using enc_metadata_inject [OF md] same by (auto simp: md_preimage_def)
    have content: "map contract_content (se_contracts se) = map contract_content (se_contracts se')"
      using contracts_commit [OF contracts(1,2) sha mds(2)] wider False by (fastforce simp: session_preimages_def)
    moreover have "session_md se = session_md se'"
      using mds(1) contracts(3,4) map_eq_imp_length_eq [OF content] by (cases "session_md se"; cases "session_md se'") simp
    ultimately show ?thesis
      using tx(1) by (simp add: session_content_def)
  qed simp
qed


section \<open>A sample\<close>

text \<open>Two rollbacks, one over the other, and a disclosed contract. The ids of the nodes are given as characters.\<close>

definition sample_session :: "char \<Rightarrow> char \<Rightarrow> tx_session" where
  "sample_session r c =
     \<lparr>se_header = (sample_prepared_env, [0x0A, 1, 0x32, 0x12, 1, of_char r, 0x18, 2]),
      se_nodes = [(sample_prepared_env, [c], NRollback \<lparr>ro_children = []\<rparr>), (sample_prepared_env, [r], NRollback \<lparr>ro_children = [[c]]\<rparr>)],
      se_metadata = (sample_prepared_env, sample_metadata 1),
      se_contracts = [(sample_prepared_env, sample_contract, DUnit, 0)]\<rparr>"

definition sample_start :: prepared_state where
  "sample_start = process_prepared_tx_init (sample_state [] sample_display)"

lemma contract_ok_sample: "contract_ok sample_sha tx (sample_prepared_env, sample_contract, DUnit, 0)"
proof -
  have fields: "create_fields sample_contract v = [(1, WLen (str_bytes ''2.1'')), (2, WLen (str_bytes ''00aF'')), (3, WLen (str_bytes ''p'')),
     (4, WLen (enc_ident sample_identifier)), (5, WLen (enc_value v)), (6, WLen (str_bytes ''alice'')), (7, WLen (str_bytes ''alice'')),
     (7, WLen (str_bytes ''bob''))]" for v
    by (simp add: create_fields_def head_fields_def sample_contract_def text_field_def)
  have "length (enc_disclosed sample_contract DUnit 0) < 2 ^ 24"
    unfolding enc_disclosed_def fields sample_identifier_def enc_value_def value_wire.simps list.map enc_ident_def text_field_def int_field_def msg_def
      option.sel Identifier.simps
    by (simp add: length_field length_varint del: One_nat_def)
  then show ?thesis
    by (simp add: sample_contract_def sample_identifier_def plain_head_def plain_identifier_def plain_text_def value_fits_def tx_env_def
      sample_prepared_env_def)
qed

lemma session_ok_sample:
  assumes "r = CHR ''0'' \<and> c = CHR ''1'' \<or> r = CHR ''1'' \<and> c = CHR ''0''"
  shows "session_ok sample_sha (sample_session r c)"
proof -
  let ?tx = "\<lparr>tx_version = Some ''2'', tx_roots = [[r]], tx_nodes_count = 2, tx_node_seeds = []\<rparr>"
  have "proto_deserialize_daml_tx (snd (se_header (sample_session r c))) = Some ?tx"
    using assms by (elim disjE) (simp_all only:, code_simp+)
  then have tx: "session_tx (sample_session r c) = ?tx" "proto_deserialize_daml_tx (snd (se_header (sample_session r c))) \<noteq> None"
    by (simp_all add: session_tx_def)
  have root_len: "length (enc_node [r] (NRollback \<lparr>ro_children = [[c]]\<rparr>)) < 2 ^ 24"
    and leaf_len: "length (enc_node [c] (NRollback \<lparr>ro_children = []\<rparr>)) < 2 ^ 24"
    by (simp_all add: enc_node_def msg_def text_field_def length_field length_varint del: One_nat_def)
  have plain: "plain_text [r]" "plain_text [c]"
    using assms by (auto simp: plain_text_def)
  have seeds: "find_seed ?tx i = Some None" "node_seed ?tx x = None" for i x
    by (simp_all add: find_seed_def node_seed_def)
  have root: "call_ok sample_sha ?tx (sample_prepared_env, [r], NRollback \<lparr>ro_children = [[c]]\<rparr>)"
    using root_len plain seeds by (simp add: sample_prepared_env_def node_child_ids_def)
  have leaf: "call_ok sample_sha ?tx (sample_prepared_env, [c], NRollback \<lparr>ro_children = []\<rparr>)"
    using leaf_len plain seeds by (simp add: sample_prepared_env_def node_child_ids_def)
  show ?thesis
    unfolding session_ok_def tx(1) using tx(2) root leaf contract_ok_sample
    by (simp add: sample_session_def session_md_def sample_metadata_decodes Metadata_init_zero_def valid_metadata_def valid_cstring_def
        valid_list_def require_present_def call_id_def sample_prepared_env_def del: call_ok.simps contract_ok.simps)
qed

text \<open>The first three parts of the sample as bytes, evaluated.\<close>

definition sample_nodes :: "byte \<Rightarrow> byte \<Rightarrow> (prepared_env \<times> byte list) list" where
  "sample_nodes r c = [(sample_prepared_env, [0x0A, 1, 0x32, 0x12, 1, r, 0x18, 2]), (sample_prepared_env, [10, 1, c, 194, 62, 2, 34, 0]),
     (sample_prepared_env, [10, 1, r, 194, 62, 5, 34, 3, 10, 1, c])]"

lemma sample_varints: "n < 128 \<Longrightarrow> enc_varint n = [of_nat n]" "enc_varint 8002 = [194, 62]"
  by (simp_all add: enc_varint.simps [of n] enc_varint.simps [of 8002] enc_varint.simps [of 62])

lemma sample_session_parts:
  assumes "r = CHR ''0'' \<and> c = CHR ''1'' \<or> r = CHR ''1'' \<and> c = CHR ''0''"
  shows "session_parts (sample_session r c) = sample_nodes (of_char r) (of_char c) @
     [(sample_prepared_env, sample_metadata 1), contract_part (sample_prepared_env, sample_contract, DUnit, 0)]"
proof -
  have "byte_of_char r = of_char r" "byte_of_char c = of_char c"
    using assms by (auto simp: byte_of_char_def)
  then show ?thesis
    by (simp add: session_parts_def sample_session_def sample_nodes_def enc_node_def msg_def text_field_def enc_field_def str_bytes_def sample_varints)
qed

definition accept_early :: "(prepared_env \<times> byte list) list \<Rightarrow> prepared_state \<Rightarrow> prepared_state option" where
  "accept_early = fold_opt (\<lambda>part s. case process_prepared_tx_part (fst part) False (snd part) s of (r, s') \<Rightarrow> if r = 0 then Some s' else None)"

lemma accept_parts_split:
  "accept_early xs s = Some t \<Longrightarrow> accept_parts (xs @ p # ps) s = accept_parts (p # ps) t"
  by (induction xs arbitrary: s) (auto simp: accept_early_def simp del: accept_parts.simps(2) simp: accept_parts.simps(2) [of _ "_ @ _"]
      split: prod.splits option.splits if_splits)

definition nodes_received :: "prepared_state option \<Rightarrow> bool" where
  "nodes_received t = (case t of None \<Rightarrow> False | Some s \<Rightarrow> fst (tree_verify_complete (ps_tree s)) = TREE_OK \<and>
     ps_tx_state s = RECEIVING_METADATA \<and> err_code (ps_hasher s) = HASH_OK \<and> ps_display s = sample_display)"

lemma sample_nodes_accepted:
  "nodes_received (accept_early (sample_nodes 48 49) sample_start)" "nodes_received (accept_early (sample_nodes 49 48) sample_start)"
  by code_simp+

text \<open>The remaining two parts are accepted by what is known of them.\<close>

lemma metadata_accepts:
  assumes "fst (tree_verify_complete (ps_tree s)) = TREE_OK" "err_code (ps_hasher s) = HASH_OK"
    and "proto_deserialize_metadata buf = Some md" "valid_metadata md" "md_input_contracts_count md \<noteq> 0"
  shows "\<exists>t. receive_metadata env p buf s = (0, t) \<and> tree_err (ps_tree t) = TREE_OK \<and> ps_display t = ps_display s \<and>
    ps_tx_state t = RECEIVING_METADATA_INPUT_CONTRACTS \<and> ps_recv_node_idx t = 0 \<and> ps_metadata t = md \<and> err_code (ps_hasher t) = HASH_OK"
  using assms
  by (auto simp: receive_metadata_def apply_node_tree_verdict_def tree_verify_complete_def Let_def hash_metadata_def encode_metadata_eq
      get_hash_error_def hw_init_def hw_put_def)

lemma last_contract_accepts:
  assumes "contract_ok sha (ps_tx s) c" "\<And>m. length (sha m) = SHA256_HASH_LEN" "err_code (ps_hasher s) = HASH_OK"
    and "\<not> clear_signing_available (ps_display s)" "metadata_display_conf (ps_display s) = None"
    and "ps_recv_node_idx s + 1 = md_input_contracts_count (ps_metadata s)"
  shows "\<exists>t. receive_input_contract (fst (contract_part c)) True (snd (contract_part c)) s = (0, t) \<and> ps_tree t = ps_tree s"
  using contract_hashed [OF assms(1,2)] assms(3-6)
  by (auto simp: receive_input_contract_def parse_input_contract_for_display_def process_prepared_tx_finalize_def get_hash_error_def Let_def hw_put_def)

lemma sample_accepted:
  assumes "r = CHR ''0'' \<and> c = CHR ''1'' \<or> r = CHR ''1'' \<and> c = CHR ''0''"
  shows "\<exists>s. accept_parts (session_parts (sample_session r c)) sample_start = Some s \<and> tree_err (ps_tree s) = TREE_OK"
proof -
  have "nodes_received (accept_early (sample_nodes (of_char r) (of_char c)) sample_start)"
    using assms sample_nodes_accepted by auto
  then obtain s where s: "accept_early (sample_nodes (of_char r) (of_char c)) sample_start = Some s" "fst (tree_verify_complete (ps_tree s)) = TREE_OK"
     "ps_tx_state s = RECEIVING_METADATA" "err_code (ps_hasher s) = HASH_OK" "ps_display s = sample_display"
    by (auto simp: nodes_received_def split: option.splits)
  obtain md where md: "proto_deserialize_metadata (sample_metadata 1) = Some md" "valid_metadata md" "md_input_contracts_count md = 1"
    by (simp add: sample_metadata_decodes valid_metadata_def valid_cstring_def valid_list_def require_present_def)
  obtain t where t: "receive_metadata sample_prepared_env False (sample_metadata 1) s = (0, t)" "tree_err (ps_tree t) = TREE_OK"
    "ps_display t = sample_display" "ps_tx_state t = RECEIVING_METADATA_INPUT_CONTRACTS" "ps_recv_node_idx t = 0" "ps_metadata t = md"
    "err_code (ps_hasher t) = HASH_OK"
    using metadata_accepts [OF s(2,4) md(1,2), of sample_prepared_env False] md(3) s(5) by auto
  let ?c = "(sample_prepared_env, sample_contract, DUnit, 0)"
  have "length (sample_sha m) = SHA256_HASH_LEN" for m
    by (simp add: sample_sha_def)
  with last_contract_accepts [OF contract_ok_sample, of t] t md(3)
  obtain u where u: "receive_input_contract (fst (contract_part ?c)) True (snd (contract_part ?c)) t = (0, u)" "ps_tree u = ps_tree t"
    by (auto simp: sample_display_def)
  have "accept_parts [(sample_prepared_env, sample_metadata 1), contract_part ?c] s = Some u"
    using t(1,4) u(1) s(3) by (simp add: process_prepared_tx_part_def)
  then show ?thesis
    using accept_parts_split [OF s(1)] u(2) t(2) unfolding sample_session_parts [OF assms] by simp
qed


lemma sample_sha_length: "length (sample_sha m) = SHA256_HASH_LEN"
  by (simp add: sample_sha_def)

lemma sample_start_state: "ps_tx_state sample_start = RECEIVING_DAML_TX_PART" "hashed_nodes_store_count (ps_hasher sample_start) < MAX_NODE_CHILDREN"
  by (simp_all add: sample_start_def process_prepared_tx_init_def sample_state_def)

section \<open>The properties\<close>





section \<open>A root under another name\<close>

text \<open>C39. The tree check compares node ids as numbers, the hashing parser compares them with the roots as text. Take an
  accepted header and any accepted node parts in a proper tree, none under the very text that the header gives as root
  (the root may come as 0 where the header says 00): then no node is in the hash of the transaction, which is the one
  of the header alone.\<close>

theorem unmatched_root_not_hashed:
  assumes "receive_daml_tx env hdr s0 = (0, s)" "proto_deserialize_daml_tx hdr = Some tx" "valid_cstring (tx_version tx)"
    and "hashed_nodes_store_count (ps_hasher s0) < MAX_NODE_CHILDREN" "list_all (call_ok sha tx) cs"
    and "fold_opt accept_node (map call_part cs) s = Some s'" "tree_err (ps_tree s') = TREE_OK" "\<And>m. length (sha m) = SHA256_HASH_LEN"
    and "list_all (\<lambda>c. call_id c \<noteq> hd (tx_roots tx)) cs"
  shows "finalize_hash_transaction sha (ps_hasher s') = finalize_hash_transaction sha (ps_hasher s)"
proof -
  note header = header_accepted [OF assms(1-3) accept_nodes_sticky [OF assms(6,7)] assms(4), of sha]
  then obtain r where r: "tx_roots tx = [r]"
    by blast
  have "hw (ps_hasher s') = hw (ps_hasher s) @ root_hashes sha tx cs (fold (add_node tx) cs Map.empty)"
    using calls_run [OF assms(6) _ assms(7) _ _ assms(8), where D = "{}" and m = Map.empty] header assms(5) by auto
  moreover have "root_hashes sha tx cs m = []" for m
    using assms(9) r by (auto simp: root_hashes_def list_all_iff)
  ultimately show ?thesis
    by (simp add: finalize_hash_transaction_def hw_finalize_def)
qed

definition alias_header :: "byte list" where
  "alias_header = [0x0A, 1, 0x32, 0x12, 2, 0x30, 0x30, 0x18, 1]"

lemma alias_header_decodes:
  "proto_deserialize_daml_tx alias_header = Some \<lparr>tx_version = Some ''2'', tx_roots = [''00''], tx_nodes_count = 1, tx_node_seeds = []\<rparr>"
  by code_simp

lemma alias_accepted:
  "case receive_daml_tx sample_prepared_env alias_header sample_start of
     (r, s) \<Rightarrow> r = 0 \<and> (case accept_node (sample_prepared_env, [10, 1, 48, 194, 62, 2, 34, 0]) s of
       None \<Rightarrow> False | Some s' \<Rightarrow> tree_err (ps_tree s') = TREE_OK \<and> fst (tree_verify_complete (ps_tree s')) = TREE_OK)"
  by code_simp

lemma alias_call:
  "call_part (sample_prepared_env, ''0'', NRollback \<lparr>ro_children = []\<rparr>) = (sample_prepared_env, [10, 1, 48, 194, 62, 2, 34, 0])"
  "call_ok sample_sha \<lparr>tx_version = Some ''2'', tx_roots = [''00''], tx_nodes_count = 1, tx_node_seeds = []\<rparr>
     (sample_prepared_env, ''0'', NRollback \<lparr>ro_children = []\<rparr>)"
proof -
  have bytes: "enc_node ''0'' (NRollback \<lparr>ro_children = []\<rparr>) = [10, 1, 48, 194, 62, 2, 34, 0]"
    by (simp add: enc_node_def msg_def text_field_def enc_field_def str_bytes_def sample_varints byte_of_char_def)
  then show "call_part (sample_prepared_env, ''0'', NRollback \<lparr>ro_children = []\<rparr>) = (sample_prepared_env, [10, 1, 48, 194, 62, 2, 34, 0])"
    by simp
  show "call_ok sample_sha \<lparr>tx_version = Some ''2'', tx_roots = [''00''], tx_nodes_count = 1, tx_node_seeds = []\<rparr>
     (sample_prepared_env, ''0'', NRollback \<lparr>ro_children = []\<rparr>)"
    using bytes by (simp add: sample_prepared_env_def plain_text_def find_seed_def node_child_ids_def)
qed

theorem unmatched_root_not_hashed_witness:
  "\<exists>s s'. receive_daml_tx sample_prepared_env alias_header sample_start = (0, s) \<and>
     fold_opt accept_node [(sample_prepared_env, [10, 1, 48, 194, 62, 2, 34, 0])] s = Some s' \<and>
     fst (tree_verify_complete (ps_tree s')) = TREE_OK \<and>
     finalize_hash_transaction sample_sha (ps_hasher s') = finalize_hash_transaction sample_sha (ps_hasher s)"
proof -
  let ?cs = "[(sample_prepared_env, ''0'', NRollback \<lparr>ro_children = []\<rparr>)]"
  obtain s s' where s: "receive_daml_tx sample_prepared_env alias_header sample_start = (0, s)"
    "fold_opt accept_node (map call_part ?cs) s = Some s'" "tree_err (ps_tree s') = TREE_OK" "fst (tree_verify_complete (ps_tree s')) = TREE_OK"
    using alias_accepted by (auto simp: alias_call(1) simp del: call_part.simps split: prod.splits option.splits)
  have "finalize_hash_transaction sample_sha (ps_hasher s') = finalize_hash_transaction sample_sha (ps_hasher s)"
    by (rule unmatched_root_not_hashed [OF s(1) alias_header_decodes _ sample_start_state(2) _ s(2,3) sample_sha_length])
      (simp_all add: valid_cstring_def require_present_def alias_call(2) call_id_def del: call_ok.simps)
  with s show ?thesis
    by (auto simp: alias_call(1) simp del: call_part.simps)
qed

end
