(* ===== verification/Stack_Room.thy ===== *)
theory Stack_Room
  imports Prelude
begin

text \<open>
  The stack guard of \<^verbatim>\<open>utils.c\<close>. \<^verbatim>\<open>stack_has_room\<close> compares 32-bit addresses; the parsers
  are modelled with a budget, the number of nested values that are let through. Here the two are
  connected: when every level takes the same frame, the addresses count down the budget, and the stack
  pointer cannot fall below the bottom of the stack.
\<close>

definition STACK_MARGIN :: u32 where
  "STACK_MARGIN = 1536"

definition stack_has_room :: "u32 \<Rightarrow> u32 \<Rightarrow> bool" where
  "stack_has_room stack sp = (if sp - stack < STACK_MARGIN then False else True)"

text \<open>The levels that fit when each lowers the stack pointer by \<^verbatim>\<open>frame\<close>.\<close>

definition levels_left :: "nat \<Rightarrow> u32 \<Rightarrow> u32 \<Rightarrow> nat" where
  "levels_left frame stack sp =
     (if unat (sp - stack) < unat STACK_MARGIN then 0 else Suc ((unat (sp - stack) - unat STACK_MARGIN) div frame))"

lemma unat_STACK_MARGIN: "unat STACK_MARGIN = 1536"
  by (simp add: STACK_MARGIN_def)

lemma room_iff: "stack_has_room stack sp \<longleftrightarrow> 1536 \<le> unat (sp - stack)"
  by (simp add: stack_has_room_def word_less_nat_alt unat_STACK_MARGIN not_less)

lemma room_iff_level: "stack_has_room stack sp \<longleftrightarrow> 0 < levels_left frame stack sp"
  by (simp add: stack_has_room_def levels_left_def word_less_nat_alt)

text \<open>A level within the margin keeps the pointer above the bottom.\<close>

lemma level_stays_above:
  assumes "stack_has_room stack sp" "frame \<le> unat STACK_MARGIN"
  shows "unat (sp - of_nat frame - stack) = unat (sp - stack) - frame"
proof -
  have fits: "frame \<le> unat (sp - stack)" and small: "frame < 2 ^ 32"
    using assms unfolding room_iff unat_STACK_MARGIN by simp_all
  have frame: "unat (of_nat frame :: u32) = frame"
    using small by (simp add: unat_of_nat)
  have "unat ((sp - stack) - of_nat frame) = unat (sp - stack) - unat (of_nat frame :: u32)"
    by (rule unat_sub) (simp only: word_le_nat_alt frame fits)
  then show ?thesis
    by (simp only: frame diff_right_commute)
qed

lemma levels_div:
  fixes d m f :: nat
  assumes "0 < f" "f \<le> m" "m \<le> d"
  shows "(if d - f < m then 0 else Suc ((d - f - m) div f)) = Suc ((d - m) div f) - 1"
proof (cases "d - f < m")
  case True
  then have "d - m < f"
    using assms by arith
  with True show ?thesis by simp
next
  case False
  then have "d - m = (d - f - m) + f"
    using assms(2) by arith
  then have "(d - m) div f = ((d - f - m) + f) div f"
    by (rule arg_cong)
  also have "\<dots> = Suc ((d - f - m) div f)"
    by (rule div_add_self2 [THEN trans]) (use assms(1) in simp_all)
  finally show ?thesis
    using False by (simp only: if_False diff_Suc_1)
qed

lemma level_used:
  assumes "stack_has_room stack sp" "0 < frame" "frame \<le> unat STACK_MARGIN"
  shows "levels_left frame stack (sp - of_nat frame) = levels_left frame stack sp - 1"
proof -
  have room: "unat STACK_MARGIN \<le> unat (sp - stack)"
    using assms(1) by (simp only: room_iff unat_STACK_MARGIN)
  then have "levels_left frame stack sp = Suc ((unat (sp - stack) - unat STACK_MARGIN) div frame)"
    by (simp only: levels_left_def not_less [symmetric] if_False)
  then show ?thesis
    unfolding levels_left_def [of frame stack "sp - of_nat frame"] level_stays_above [OF assms(1,3)]
    using levels_div [OF assms(2,3) room] by (simp only:)
qed

text \<open>The guard at nesting depth \<^verbatim>\<open>n\<close>: it lets a value through exactly when the budget exceeds the depth.\<close>

lemma guard_counts_levels:
  assumes "0 < frame" "frame \<le> unat STACK_MARGIN" "n \<le> levels_left frame stack sp"
  shows "levels_left frame stack (sp - of_nat (n * frame)) = levels_left frame stack sp - n"
    and "stack_has_room stack (sp - of_nat (n * frame)) \<longleftrightarrow> n < levels_left frame stack sp"
proof -
  have eq: "levels_left frame stack (sp - of_nat (n * frame)) = levels_left frame stack sp - n"
    using assms(3)
  proof (induction n)
    case (Suc n)
    let ?sp = "sp - of_nat (n * frame)"
    have ih: "levels_left frame stack ?sp = levels_left frame stack sp - n"
      using Suc by simp
    then have "stack_has_room stack ?sp"
      using Suc.prems room_iff_level [of stack ?sp frame] by simp
    from level_used [OF this assms(1,2)] ih show ?case
      by (simp add: algebra_simps)
  qed simp
  then show "levels_left frame stack (sp - of_nat (n * frame)) = levels_left frame stack sp - n" .
  show "stack_has_room stack (sp - of_nat (n * frame)) \<longleftrightarrow> n < levels_left frame stack sp"
    using eq room_iff_level [of stack "sp - of_nat (n * frame)" frame] by simp
qed

text \<open>Below the bottom the unsigned difference wraps and the guard would let everything through; the margin is
  what keeps the pointer from getting there.\<close>

lemma guard_blind_below_bottom:
  assumes "sp < stack" "unat stack - unat sp \<le> 2 ^ 31"
  shows "stack_has_room stack sp"
proof -
  have "unat (sp - stack) = 2 ^ 32 + unat sp - unat stack"
    using assms(1) by (simp add: unat_sub_if_size word_less_nat_alt word_le_nat_alt word_size)
  then show ?thesis
    using assms(2) by (simp add: room_iff)
qed

end
