(* ===== verification/Spec2Isabelle.thy ===== *)
theory Spec2Isabelle
  imports Device_Safety Node_Stream Display_Safety Topology_Safety Holding_Safety Transaction_Hash
    Stack_Room
begin

text \<open>
  A verification library for the Ledger Canton application: the C sources under \<^verbatim>\<open>src/src\<close>, with the
  part of nanopb they link (\<^verbatim>\<open>src/vendor/nanopb/pb_decode.c\<close>) and the message layouts of
  \<^verbatim>\<open>src/proto\<close>.

  \<^bold>\<open>The program.\<close> The application signs for a Canton ledger with a key that stays in the device. A host sends
  commands; \<^verbatim>\<open>app_main.c\<close> receives them and \<^verbatim>\<open>apdu/dispatcher.c\<close> hands them to a handler. The handler of the
  signing command (\<^verbatim>\<open>handler/sign_tx.c\<close>) collects the chunks of a message and passes each complete message to
  one of three flows, chosen by the first parameter: a bare hash; onboarding (\<^verbatim>\<open>untyped_versioned_msg.c\<close>), three
  topology messages; a prepared transaction (\<^verbatim>\<open>prepared_transaction.c\<close>), a header, the nodes of a transaction
  tree children first, the metadata and the disclosed contracts. Every part of a prepared transaction goes through
  the hashing parser (\<^verbatim>\<open>pb_hashing_parser.c\<close>), which hashes while nanopb decodes and reports to two independent
  checks: the node tree check (\<^verbatim>\<open>node_tree_check.c\<close>), whether the parts are one tree, and the values check
  (\<^verbatim>\<open>node_values_check.c\<close>), whether what the nodes move is what the screen says; the holding parser
  (\<^verbatim>\<open>pb_holding_parser.c\<close>) reads the moved holdings. The root node goes through the display parser
  (\<^verbatim>\<open>pb_node_display_parser.c\<close>) too, which picks a screen of the tables in \<^verbatim>\<open>pb_node_display_config.c\<close> and fills
  it. The user then sees the filled screen, or, if the setting allows it, the bare hash, and an approval signs the
  hash (\<^verbatim>\<open>ui/action/validate.c\<close>).

  \<^bold>\<open>Foundations.\<close>
  \<^item> \<open>Prelude\<close>: bytes, C strings, big-endian layouts, the limits of \<^verbatim>\<open>constants.h\<close>, and the interfaces the
    components share as locales: a writer that appends bytes, an error that keeps its first value, a prefix code.
  \<^item> \<open>Bytewriter\<close> (\<^verbatim>\<open>bytewriter.c\<close>), \<open>Utils\<close> (\<^verbatim>\<open>utils.c\<close>, \<^verbatim>\<open>party_id.c\<close>), \<open>Status_Words\<close> (\<^verbatim>\<open>sw.h\<close>), \<open>Messages\<close> (the
    structs nanopb decodes into and the presence checks on them).
  \<^item> \<open>Nanopb\<close>: the decoder, from bytes to fields and to each message. A message is the list of its fields, folded
    with a handler per message; a callback is a function on the state of the walk. \<open>Wire_Format\<close> has a reference
    writer and shows that decoding inverts it, exactly on well-formed fields.

  \<^bold>\<open>Components.\<close> Each has its state as a record, one definition per C function, errors as values.
  \<^item> \<open>Canonical_Hash\<close> (\<^verbatim>\<open>canonical_hash.c\<close>): the hash writer as the bytes written so far, the sticky error, the
    ring of 32 node hashes, every encoder. Shown: the written bytes are a prefix code for exercise headers and
    determine a fetch node, when an encoder raises an error, and that the ring is a window over the hashes stored.
  \<^item> \<open>Node_Tree\<close> (\<^verbatim>\<open>node_tree_check.c\<close>): the verdict is exact against a declarative reading of the parts, and with
    the order of the parts it means one tree; without that order a detached cycle passes.
  \<^item> \<open>Node_Values\<close> (\<^verbatim>\<open>node_values_check.c\<close>): the verdict is exact, nothing goes unchecked, giving up is final.
  \<^item> \<open>Hashing_Parser\<close>, \<open>Holding_Parser\<close>, \<open>Display_Config\<close>, \<open>Display_Parser\<close>: the three walks over protobuf messages
    and the tables of screens.
  \<^item> \<open>Prepared_Tx\<close> (\<^verbatim>\<open>prepared_transaction.c\<close>) and \<open>Topology\<close> (\<^verbatim>\<open>untyped_versioned_msg.c\<close>): the two state machines.
  \<^item> \<open>Device\<close>: the context, dispatcher, handlers, reviews, settings and a turn of the main loop.

  \<^bold>\<open>What is shown across components.\<close>
  \<^item> \<open>Decode_Frames\<close> states once, as a locale, what a decode with callbacks can change at any depth; \<open>Hash_Frames\<close>
    and \<open>Display_Walk\<close> are its instances.
  \<^item> \<open>Value_Spec\<close> and \<open>Value_Safety\<close>: a datatype of ledger values with its protobuf encoding and its canonical bytes.
    The streaming parser, which counts the elements of a composite in one pass and hashes in the next, writes
    exactly the canonical bytes; these are a prefix code. For map keys that have elements themselves it does not,
    and two different maps are given the same bytes.
  \<^item> \<open>Node_Hash\<close> and \<open>Node_Safety\<close>: the same for the four kinds of nodes. A node part is hashed to exactly the
    prescribed bytes and has exactly the prescribed effects, a disclosed contract likewise, and equal hash states come from equal nodes or from a
    collision of the hash function.
  \<^item> \<open>Transaction_Tree\<close> and \<open>Transaction_Hash\<close>: the hash that is signed, end to end. A session is a header, node parts,
    metadata and disclosed contracts, run through \<^verbatim>\<open>process_prepared_tx_part\<close>. The nodes arrive children first and
    their hashes pass through the ring; an invariant reads the ring as hashes of subtrees, so \<^verbatim>\<open>m_hash\<close> of an
    accepted session is the hash of the tree, the metadata and the contracts, and two sessions with the same
    \<^verbatim>\<open>m_hash\<close> have the same content or exhibit a collision. A root that the header names by another text than its
    node (00 for 0) is left out of the hash.
  \<^item> \<open>Holding_Safety\<close>: the holding parser against a declarative reading of the argument of a create.
  \<^item> \<open>Node_Stream\<close>: a whole sequence of accepted node parts with a good verdict is one tree whose hashes were
    computed from the hashes of the children.
  \<^item> \<open>Display_Safety\<close>: a clear screen names the action of the root node itself, and every pair on it was read from
    the configured path.
  \<^item> \<open>Prepared_Safety\<close>: the branches of the prepared flow: no hash error is accepted, a refusal resets the checks, a
    clear review survives the metadata only with a good tree, and the verdict at the end.
  \<^item> \<open>Topology_Safety\<close>: the multi-hash does not depend on the order of arrival, the onboarding flow refines an
    abstract session over the claims of the messages, and what a clear onboarding screen means.
  \<^item> \<open>Stack_Budget\<close> and \<open>Stack_Room\<close>: the depth of the walk (below).
  \<^item> \<open>Device_Safety\<close>: a step relation for commands, answers of the user and the settings switch, with an invariant by
    rule induction: what an approval signs was under review, a bare hash is only reviewed blind, the message
    buffer keeps its bound, a refused session stays closed. Two theorems record sessions that end otherwise than
    the code means.

  \<^bold>\<open>Bounds and fuel.\<close> The recursion over nested values is bounded by \<open>pe_budget\<close>, which stands for the stack left:
  \<^verbatim>\<open>stack_has_room\<close> refuses a value nested deeper. \<open>Stack_Budget\<close> shows that a budget linear in the length of the
  message is enough for every message never to reach the guard, and that a larger budget never changes a result
  that did not reach it; so the bound only turns acceptance into refusal. \<open>Stack_Room\<close> has the comparison of
  32-bit addresses itself (\<^verbatim>\<open>STACK_MARGIN\<close>) and shows that it counts such a budget down when all levels take the
  same frame within the margin. The check of the plain value message in a
  fetch key uses the length of the message as fuel, since every nested payload is shorter. All other loops end by a
  measure. The theorems on values and nodes ask for texts without a zero byte, labels of at most 63 bytes and
  messages below \<open>2 ^ 32\<close> bytes (below \<open>2 ^ 24\<close> for the commitment, where the device takes at most 12 KiB).

  \<^bold>\<open>Parameters.\<close> SHA-256, key derivation, Ed25519 signing, the attestation signature, the outcome of an allocation
  (an oracle per allocation where several are made), the APDU splitter and the decoding of topology mappings the
  flow refuses are arguments of the definitions that use them. Nothing is assumed of SHA-256 but the length of its
  result; injectivity is never assumed, a collision is an alternative of the conclusion instead.

  \<^bold>\<open>Not modelled.\<close> A failed allocation inside nanopb (the heap of \<^verbatim>\<open>mem.c\<close>), nanopb's encoder and its generated
  descriptors, the layout of the screens and the transport of the SDK, the actual frame sizes of the compiled
  parsers, the erasing of buffers after use, the build-time attestation key of \<^verbatim>\<open>crypto_data.h\<close>, the
  debug texts, the tests and fuzzers.
\<close>

end
